(* ===== verification/Prelude.thy ===== *)
theory Prelude
  imports Main "HOL-Library.Word" "HOL-Library.Signed_Division"
begin

text \<open>
  What the components share: the C++ integer types (\<open>int64_t\<close> as \<open>int\<close> with its range
  written out, truncating division as \<open>sdiv\<close>), the type synonyms of amounts and times, and
  generic lemmas.
\<close>

section \<open>Collections of facts\<close>

named_theorems consts_defs \<open>definitions of the numeric constants of the source\<close>

section \<open>Integers of the source\<close>

text \<open>
  \<open>CAmount\<close> and \<open>int64_t\<close> are modelled as unbounded integers. Where the source can leave the
  range, the model says so (signed overflow is undefined in C++); where it cannot, a lemma
  shows that every intermediate value satisfies \<open>int64_range\<close>.
\<close>

type_synonym CAmount = int

definition INT64_MAX :: int where
  [consts_defs]: "INT64_MAX = 9223372036854775807"

definition INT64_MIN :: int where
  [consts_defs]: "INT64_MIN = -9223372036854775808"

definition int64_range :: "int \<Rightarrow> bool" where
  "int64_range x \<longleftrightarrow> INT64_MIN \<le> x \<and> x \<le> INT64_MAX"

text \<open>Division of C++: it truncates towards zero, which is \<open>sdiv\<close>.\<close>

lemma sdiv_nonneg: "0 \<le> a \<Longrightarrow> 0 < b \<Longrightarrow> (a::int) sdiv b = a div b"
  by (cases "a = 0") (simp_all add: signed_divide_int_def)

lemma sdiv_zero_left [simp]: "(0::int) sdiv b = 0"
  by (simp add: signed_divide_int_def)

lemma int_div_less:
  fixes v k d :: int
  assumes "0 < d" "v < k * d"
  shows "v div d < k"
proof (rule ccontr)
  assume "\<not> v div d < k"
  then have "k * d \<le> v div d * d" using assms(1) by (intro mult_right_mono) simp_all
  also have "\<dots> \<le> v" using div_mult_mod_eq [of v d] pos_mod_sign [of d v] assms(1) by linarith
  finally show False using assms(2) by simp
qed

lemma int_div_mult_le:
  fixes v d :: int
  assumes "0 < d"
  shows "v div d * d \<le> v"
  using div_mult_mod_eq [of v d] pos_mod_sign [of d v] assms by linarith

end
