(* ===== verification/Amount.thy ===== *)
theory Amount
  imports Prelude
begin

text \<open>
  Amounts (\<open>consensus/amount.h\<close>): the unit \<open>COIN\<close>, the cap \<open>MAX_MONEY\<close> and the range
  check \<open>MoneyRange\<close> that consensus code applies to every value and to every running total.
\<close>

definition COIN :: CAmount where
  [consts_defs]: "COIN = 100000000"

definition MAX_MONEY :: CAmount where
  [consts_defs]: "MAX_MONEY = 1000000000 * COIN"

definition MoneyRange :: "CAmount \<Rightarrow> bool" where
  "MoneyRange nValue \<longleftrightarrow> nValue \<ge> 0 \<and> nValue \<le> MAX_MONEY"

lemma COIN_pos [simp]: "0 < COIN"
  by (simp add: consts_defs)

lemma MAX_MONEY_pos [simp]: "0 < MAX_MONEY"
  by (simp add: consts_defs)

lemma MoneyRangeI [intro]: "0 \<le> v \<Longrightarrow> v \<le> MAX_MONEY \<Longrightarrow> MoneyRange v"
  by (simp add: MoneyRange_def)

lemma MoneyRangeD: "MoneyRange v \<Longrightarrow> 0 \<le> v" "MoneyRange v \<Longrightarrow> v \<le> MAX_MONEY"
  by (simp_all add: MoneyRange_def)

text \<open>
  The sum of two amounts in range never leaves \<open>int64_t\<close>: this is what lets the source add
  first and test \<open>MoneyRange\<close> afterwards.
\<close>

lemma MoneyRange_add_int64: "MoneyRange a \<Longrightarrow> MoneyRange b \<Longrightarrow> int64_range (a + b)"
  by (simp add: MoneyRange_def int64_range_def consts_defs)

end
