(* ===== verification/Emission.thy ===== *)
theory Emission
  imports Amount
begin

text \<open>
  The emission schedule (\<open>economics/emission.h\<close>): the decay of the remaining supply, the
  lookup table of its values at every thousandth block, the lookup that combines a table entry
  with a short loop, and the block subsidy, emitted amount and remaining supply that consensus
  reads from it.
\<close>

section \<open>Definitions\<close>

definition TKNC_TOTAL_SUPPLY :: int where
  [consts_defs]: "TKNC_TOTAL_SUPPLY = 1000000000"

definition TKNC_BLOCKS_PER_YEAR :: int where
  [consts_defs]: "TKNC_BLOCKS_PER_YEAR = 262800"

definition TKNC_EMISSION_COMPLETE_YEAR :: int where
  [consts_defs]: "TKNC_EMISSION_COMPLETE_YEAR = 9"

definition TKNC_EMISSION_DIVISOR :: int where
  [consts_defs]: "TKNC_EMISSION_DIVISOR = 300000"

definition TKNC_TOTAL_EMISSION_BLOCKS :: int where
  [consts_defs]:
  "TKNC_TOTAL_EMISSION_BLOCKS = TKNC_BLOCKS_PER_YEAR * TKNC_EMISSION_COMPLETE_YEAR"

definition EMISSION_LOOKUP_INTERVAL :: int where
  [consts_defs]: "EMISSION_LOOKUP_INTERVAL = 1000"

text \<open>
  The inner loop of the table and of the lookup: \<open>n\<close> rounds of \<open>remaining -= remaining / D\<close>,
  left with \<open>remaining = 0\<close> as soon as the reward is zero or nothing is left.
\<close>

fun decay :: "int \<Rightarrow> nat \<Rightarrow> int \<Rightarrow> int" where
  "decay D 0 remaining = remaining"
| "decay D (Suc n) remaining =
     (let reward = remaining sdiv D in
      if reward = 0 then 0
      else if remaining - reward \<le> 0 then 0
      else decay D n (remaining - reward))"

function zero_fill :: "nat \<Rightarrow> nat \<Rightarrow> int list \<Rightarrow> int list" where
  "zero_fill num k cps =
     (if k < num then zero_fill num (Suc k) (cps[k := 0]) else cps)"
  by pat_completeness auto
termination
  by (relation "measure (\<lambda>(num, k, cps). num - k)") auto

function fill_checkpoints :: "int \<Rightarrow> nat \<Rightarrow> nat \<Rightarrow> int \<Rightarrow> int list \<Rightarrow> int list" where
  "fill_checkpoints D num i remaining cps =
     (if i < num then
        (let remaining' = decay D (nat EMISSION_LOOKUP_INTERVAL) remaining;
             cps' = cps[i := remaining'] in
         if remaining' = 0 then zero_fill num (Suc i) cps'
         else fill_checkpoints D num (Suc i) remaining' cps')
      else cps)"
  by pat_completeness auto
termination
  by (relation "measure (\<lambda>(D, num, i, remaining, cps). num - i)") auto

declare zero_fill.simps [simp del] fill_checkpoints.simps [simp del]

definition num_checkpoints :: nat where
  "num_checkpoints = nat (TKNC_TOTAL_EMISSION_BLOCKS sdiv EMISSION_LOOKUP_INTERVAL) + 2"

definition EmissionLookupTable :: "int list" where
  "EmissionLookupTable =
     (let S = TKNC_TOTAL_SUPPLY * COIN; D = TKNC_EMISSION_DIVISOR in
      fill_checkpoints D num_checkpoints 1 S ((replicate num_checkpoints 0)[0 := S]))"

definition ComputeRemainingO1 :: "int \<Rightarrow> int \<Rightarrow> int \<Rightarrow> int" where
  "ComputeRemainingO1 S D h =
     (if h \<le> 0 then S else
      let h = (if h > TKNC_TOTAL_EMISSION_BLOCKS then TKNC_TOTAL_EMISSION_BLOCKS else h);
          cp_idx = h sdiv EMISSION_LOOKUP_INTERVAL;
          cp_idx = (if cp_idx \<ge> int (length EmissionLookupTable)
                    then int (length EmissionLookupTable) - 1 else cp_idx);
          remaining = EmissionLookupTable ! nat cp_idx in
      if remaining = 0 then 0
      else decay D (nat (h - cp_idx * EMISSION_LOOKUP_INTERVAL)) remaining)"

definition GetTKNCTotalEmitted :: "int \<Rightarrow> CAmount" where
  "GetTKNCTotalEmitted nHeight =
     (if nHeight \<le> 0 then 0
      else if nHeight sdiv TKNC_BLOCKS_PER_YEAR \<ge> TKNC_EMISSION_COMPLETE_YEAR
      then TKNC_TOTAL_SUPPLY * COIN
      else
        let effective_height =
              (if nHeight > TKNC_TOTAL_EMISSION_BLOCKS then TKNC_TOTAL_EMISSION_BLOCKS
               else nHeight);
            total_supply_sat = TKNC_TOTAL_SUPPLY * COIN;
            remaining =
              ComputeRemainingO1 total_supply_sat TKNC_EMISSION_DIVISOR effective_height;
            emitted = total_supply_sat - remaining in
        if emitted > total_supply_sat then total_supply_sat else emitted)"

definition GetTKNCBlockSubsidy :: "int \<Rightarrow> CAmount" where
  "GetTKNCBlockSubsidy nHeight =
     (if nHeight \<le> 0 then 0
      else if nHeight sdiv TKNC_BLOCKS_PER_YEAR \<ge> TKNC_EMISSION_COMPLETE_YEAR then 0
      else
        let total_emitted_before = GetTKNCTotalEmitted nHeight;
            total_supply_sat = TKNC_TOTAL_SUPPLY * COIN;
            remaining_sat = total_supply_sat - total_emitted_before in
        if remaining_sat \<le> 0 then 0
        else
          let reward_sat = remaining_sat sdiv TKNC_EMISSION_DIVISOR in
          if reward_sat = 0 \<and> remaining_sat > 0 then 1 else reward_sat)"

definition GetTKNCRemainingSupply :: "int \<Rightarrow> CAmount" where
  "GetTKNCRemainingSupply nHeight =
     (let total_emitted = GetTKNCTotalEmitted nHeight;
          total_supply = TKNC_TOTAL_SUPPLY * COIN;
          remaining = total_supply - total_emitted in
      if remaining > 0 then remaining else 0)"

section \<open>The decay of the remaining supply\<close>

text \<open>
  The supply that is left after \<open>n\<close> blocks, computed block by block from the start: the
  reference for the table lookup.
\<close>

definition supply_after :: "nat \<Rightarrow> int" where
  "supply_after n = decay TKNC_EMISSION_DIVISOR n (TKNC_TOTAL_SUPPLY * COIN)"

lemma decay_zero [simp]: "decay D n 0 = 0"
  by (cases n) simp_all

lemma decay_add: "decay D (m + n) r = decay D n (decay D m r)"
  by (induction m arbitrary: r) (simp_all add: Let_def)

lemma decay_bounds: "0 \<le> r \<Longrightarrow> 0 < D \<Longrightarrow> 0 \<le> decay D n r \<and> decay D n r \<le> r"
proof (induction n arbitrary: r)
  case (Suc n)
  have q: "0 \<le> r div D" using Suc.prems by (simp add: pos_imp_zdiv_nonneg_iff)
  show ?case
    using Suc.IH [of "r - r div D"] Suc.prems q
    by (auto simp: Let_def sdiv_nonneg)
qed simp

text \<open>
  One more block takes \<open>remaining / D\<close> off, as long as at least \<open>D\<close> units are left; and \<open>k\<close>
  blocks take at most \<open>k\<close> times the first reward.
\<close>

lemma decay_one: "D \<le> r \<Longrightarrow> 1 < D \<Longrightarrow> decay D (Suc 0) r = r - r div D"
proof -
  assume a: "D \<le> r" "1 < D"
  then have "0 < r div D" "r div D < r" by (simp_all add: pos_imp_zdiv_pos_iff int_div_less_self)
  with a show ?thesis by (simp add: Let_def sdiv_nonneg)
qed

lemma decay_lower:
  assumes "1 < D" "D \<le> r" "D \<le> r - int k * (r div D)"
  shows "r - int k * (r div D) \<le> decay D k r"
  using assms(3)
proof (induction k)
  case (Suc k)
  let ?x = "decay D k r"
  have q: "0 < r div D" using assms by (simp add: pos_imp_zdiv_pos_iff)
  have "int (Suc k) * (r div D) = int k * (r div D) + r div D" by (simp add: algebra_simps)
  with Suc.prems q have le: "D \<le> r - int k * (r div D)" by linarith
  have lo: "r - int k * (r div D) \<le> ?x" by (rule Suc.IH [OF le])
  have hi: "?x \<le> r" using decay_bounds [of r D k] assms by simp
  have "?x div D \<le> r div D" using hi assms by (simp add: zdiv_mono1)
  moreover have "decay D (Suc k) r = ?x - ?x div D"
    using decay_add [of D k "Suc 0" r] decay_one [of D ?x] lo le assms by simp
  ultimately show ?case using lo by (simp add: algebra_simps)
qed simp

text \<open>
  Half a divisor's worth of blocks at most halves the supply. Sixteen such stretches cover the
  emission period, so a 65536th of the supply is still there at its end and the loop never
  breaks early.
\<close>

lemma decay_half:
  assumes "2 * TKNC_EMISSION_DIVISOR \<le> r"
  shows "r div 2 \<le> decay TKNC_EMISSION_DIVISOR 150000 r"
proof -
  have "r - int 150000 * (r div TKNC_EMISSION_DIVISOR) \<le> decay TKNC_EMISSION_DIVISOR 150000 r"
    using assms by (intro decay_lower) (auto simp: consts_defs)
  then show ?thesis by (simp add: consts_defs)
qed

lemma decay_mono:
  assumes "0 < D" "0 \<le> r" "m \<le> n"
  shows "decay D n r \<le> decay D m r"
proof -
  obtain k where "n = m + k" using assms(3) le_Suc_ex by blast
  then show ?thesis using decay_add [of D m k r] decay_bounds [of r D m] decay_bounds assms by simp
qed

lemma supply_after_halvings:
  "k \<le> 16 \<Longrightarrow> TKNC_TOTAL_SUPPLY * COIN div 2 ^ k \<le> supply_after (150000 * k)"
proof (induction k)
  case 0
  show ?case by (simp add: supply_after_def)
next
  case (Suc k)
  let ?r = "supply_after (150000 * k)" and ?S = "TKNC_TOTAL_SUPPLY * COIN"
  have IH: "?S div 2 ^ k \<le> ?r" using Suc by simp
  have "(2::int) ^ k \<le> 2 ^ 15" using Suc.prems by (intro power_increasing) auto
  then have "?S div 2 ^ 15 \<le> ?S div 2 ^ k" by (intro zdiv_mono2) (auto simp: consts_defs)
  then have "2 * TKNC_EMISSION_DIVISOR \<le> ?r" using IH by (simp add: consts_defs)
  then have "?r div 2 \<le> decay TKNC_EMISSION_DIVISOR 150000 ?r" by (rule decay_half)
  also have "\<dots> = supply_after (150000 * Suc k)"
    using decay_add [of TKNC_EMISSION_DIVISOR "150000 * k" 150000 ?S]
    by (simp add: supply_after_def add.commute)
  finally have "?r div 2 \<le> supply_after (150000 * Suc k)" .
  moreover have "?S div 2 ^ Suc k \<le> ?r div 2"
    using zdiv_mono1 [OF IH, of 2] zdiv_zmult2_eq [of 2 ?S "2 ^ k"]
    by (simp add: mult.commute)
  ultimately show ?case by linarith
qed

lemma supply_after_ge:
  assumes "n \<le> 2400000"
  shows "1525878906250 \<le> supply_after n"
proof -
  have "TKNC_TOTAL_SUPPLY * COIN div 2 ^ 16 \<le> supply_after 2400000"
    using supply_after_halvings [of 16] by simp
  also have "\<dots> \<le> supply_after n"
    using assms decay_mono [of TKNC_EMISSION_DIVISOR] by (simp add: supply_after_def consts_defs)
  finally show ?thesis by (simp add: consts_defs)
qed

section \<open>The lookup table\<close>

lemma zero_fill_nth:
  "length (zero_fill num k cps) = length cps \<and>
   (j < length cps \<longrightarrow>
      zero_fill num k cps ! j = (if k \<le> j \<and> j < num then 0 else cps ! j))"
proof (induction num k cps rule: zero_fill.induct)
  case (1 num k cps)
  show ?case
  proof (cases "k < num")
    case True
    then show ?thesis
      using "1.IH" zero_fill.simps [of num k cps] by (auto simp: nth_list_update)
  next
    case False
    then show ?thesis using zero_fill.simps [of num k cps] by auto
  qed
qed

text \<open>
  The loop invariant of the constructor: below index \<open>i\<close> the table holds the decayed supply
  and \<open>remaining\<close> is the last entry.
\<close>

lemma fill_checkpoints_nth:
  assumes "length cps = num" "0 < i" "r = decay D (1000 * (i - 1)) S"
    "\<forall>j < i. j < num \<longrightarrow> cps ! j = decay D (1000 * j) S" "j < num"
  shows "fill_checkpoints D num i r cps ! j = decay D (1000 * j) S"
  using assms
proof (induction D num i r cps rule: fill_checkpoints.induct)
  case (1 D num i r cps)
  let ?r = "decay D 1000 r"
  have i: "1000 * i = 1000 * (i - 1) + 1000" using "1.prems"(2) by simp
  have r: "?r = decay D (1000 * i) S" using "1.prems"(3) decay_add [of D "1000 * (i - 1)" 1000 S] i by simp
  have I: "nat EMISSION_LOOKUP_INTERVAL = 1000" by (simp add: consts_defs)
  show ?case
  proof (cases "i < num")
    case False
    then show ?thesis
      using "1.prems"(1,4,5) by (simp add: fill_checkpoints.simps [of D num i r cps])
  next
    case True
    have tab: "\<forall>j < Suc i. j < num \<longrightarrow> cps[i := ?r] ! j = decay D (1000 * j) S"
      using "1.prems" r by (auto simp: nth_list_update less_Suc_eq)
    show ?thesis
    proof (cases "?r = 0")
      case z: True
      have "decay D (1000 * j) S = 0" if "Suc i \<le> j" for j
      proof -
        have "1000 * j = 1000 * i + 1000 * (j - i)" using that by simp
        then show ?thesis using decay_add [of D "1000 * i" "1000 * (j - i)" S] r z by simp
      qed
      then show ?thesis
        using True z tab "1.prems"(1,5) I zero_fill_nth [of num "Suc i" "cps[i := ?r]" j]
        by (simp add: fill_checkpoints.simps [of D num i r cps] Let_def not_less_eq_eq)
    next
      case False
      have "fill_checkpoints D num (Suc i) ?r (cps[i := ?r]) ! j = decay D (1000 * j) S"
        using "1.IH" [of ?r "cps[i := ?r]"] True False tab "1.prems" r I by simp
      then show ?thesis
        using True False I by (simp add: fill_checkpoints.simps [of D num i r cps] Let_def)
    qed
  qed
qed

lemma length_fill_checkpoints [simp]: "length (fill_checkpoints D num i r cps) = length cps"
proof (induction D num i r cps rule: fill_checkpoints.induct)
  case (1 D num i r cps)
  then show ?case
    by (simp add: fill_checkpoints.simps [of D num i r cps] Let_def zero_fill_nth)
qed

lemma num_checkpoints_eq: "num_checkpoints = 2367"
  by (simp add: num_checkpoints_def consts_defs sdiv_nonneg)

lemma length_EmissionLookupTable: "length EmissionLookupTable = 2367"
  by (simp add: EmissionLookupTable_def num_checkpoints_eq Let_def)

lemma EmissionLookupTable_nth:
  assumes "j < 2367"
  shows "EmissionLookupTable ! j = supply_after (1000 * j)"
  unfolding EmissionLookupTable_def supply_after_def Let_def num_checkpoints_eq
  by (rule fill_checkpoints_nth) (use assms in \<open>auto simp: nth_list_update\<close>)

lemma ComputeRemainingO1_eq:
  assumes "0 \<le> h" "h \<le> TKNC_TOTAL_EMISSION_BLOCKS"
  shows "ComputeRemainingO1 (TKNC_TOTAL_SUPPLY * COIN) TKNC_EMISSION_DIVISOR h
           = supply_after (nat h)"
proof (cases "h = 0")
  case True
  then show ?thesis by (simp add: ComputeRemainingO1_def supply_after_def)
next
  case False
  define c where "c = h div 1000"
  have c: "0 \<le> c" "c \<le> 2365" "1000 * c \<le> h" using assms by (auto simp: c_def consts_defs)
  have sd: "h sdiv EMISSION_LOOKUP_INTERVAL = c"
    using assms by (simp add: c_def consts_defs sdiv_nonneg)
  have tab: "EmissionLookupTable ! nat c = supply_after (nat (1000 * c))"
    using EmissionLookupTable_nth [of "nat c"] c by (simp add: nat_mult_distrib)
  have "nat (1000 * c) \<le> 2400000" using c by linarith
  then have pos: "supply_after (nat (1000 * c)) \<noteq> 0"
    using supply_after_ge [of "nat (1000 * c)"] by linarith
  have split: "nat h = nat (1000 * c) + nat (h - c * 1000)" using c assms by simp
  have "decay TKNC_EMISSION_DIVISOR (nat (h - c * 1000)) (supply_after (nat (1000 * c)))
          = supply_after (nat h)"
    unfolding split supply_after_def by (simp add: decay_add)
  then show ?thesis
    using False assms c sd tab pos
    by (simp add: ComputeRemainingO1_def Let_def length_EmissionLookupTable EMISSION_LOOKUP_INTERVAL_def)
qed

section \<open>Subsidy and emitted amount\<close>

lemma year_complete_iff:
  "0 \<le> h \<Longrightarrow> h sdiv TKNC_BLOCKS_PER_YEAR \<ge> TKNC_EMISSION_COMPLETE_YEAR \<longleftrightarrow> 2365200 \<le> h"
  by (auto simp: consts_defs sdiv_nonneg)

lemma supply_after_le: "supply_after n \<le> TKNC_TOTAL_SUPPLY * COIN" "0 \<le> supply_after n"
  using decay_bounds [of "TKNC_TOTAL_SUPPLY * COIN" TKNC_EMISSION_DIVISOR n]
  by (simp_all add: supply_after_def consts_defs)

lemma supply_after_Suc:
  assumes "n \<le> 2400000"
  shows "supply_after (Suc n) = supply_after n - supply_after n div TKNC_EMISSION_DIVISOR"
proof -
  have "supply_after (Suc n) = decay TKNC_EMISSION_DIVISOR (Suc 0) (supply_after n)"
    using decay_add [of TKNC_EMISSION_DIVISOR n "Suc 0"]
    by (simp add: supply_after_def del: decay.simps)
  also have "\<dots> = supply_after n - supply_after n div TKNC_EMISSION_DIVISOR"
    using supply_after_ge [OF assms] by (intro decay_one) (simp_all add: consts_defs)
  finally show ?thesis .
qed

lemma TotalEmitted_in_period:
  assumes "0 < h" "h < 2365200"
  shows "GetTKNCTotalEmitted h = TKNC_TOTAL_SUPPLY * COIN - supply_after (nat h)"
proof -
  have "ComputeRemainingO1 (TKNC_TOTAL_SUPPLY * COIN) TKNC_EMISSION_DIVISOR h = supply_after (nat h)"
    using assms by (intro ComputeRemainingO1_eq) (simp_all add: consts_defs)
  moreover have "h \<le> TKNC_TOTAL_EMISSION_BLOCKS" using assms by (simp add: consts_defs)
  moreover have "\<not> h sdiv TKNC_BLOCKS_PER_YEAR \<ge> TKNC_EMISSION_COMPLETE_YEAR"
    using year_complete_iff [of h] assms by simp
  ultimately show ?thesis
    using assms supply_after_le [of "nat h"] by (simp add: GetTKNCTotalEmitted_def Let_def)
qed

lemma Subsidy_in_period:
  assumes "0 < h" "h < 2365200"
  shows "GetTKNCBlockSubsidy h = supply_after (nat h) div TKNC_EMISSION_DIVISOR"
proof -
  have "1525878906250 \<le> supply_after (nat h)" using assms by (intro supply_after_ge) simp
  moreover have "\<not> h sdiv TKNC_BLOCKS_PER_YEAR \<ge> TKNC_EMISSION_COMPLETE_YEAR"
    using year_complete_iff [of h] assms by simp
  ultimately show ?thesis
    using assms TotalEmitted_in_period [OF assms]
    by (simp add: GetTKNCBlockSubsidy_def Let_def sdiv_nonneg TKNC_EMISSION_DIVISOR_def)
qed

lemma Subsidy_outside_period: "h \<le> 0 \<or> 2365200 \<le> h \<Longrightarrow> GetTKNCBlockSubsidy h = 0"
  using year_complete_iff [of h] by (auto simp: GetTKNCBlockSubsidy_def)

lemma Subsidy_telescopes:
  assumes "0 < h" "h < 2365200"
  shows "GetTKNCBlockSubsidy (int h) = supply_after h - supply_after (Suc h)"
  using Subsidy_in_period [of "int h"] supply_after_Suc [of h] assms by simp

lemma Subsidy_sum:
  "(\<Sum>h\<le>n. GetTKNCBlockSubsidy (int h)) = supply_after 1 - supply_after (min (Suc n) 2365200)"
proof (induction n)
  case 0
  show ?case by (simp add: Subsidy_outside_period)
next
  case (Suc n)
  show ?case
  proof (cases "Suc n < 2365200")
    case True
    then show ?thesis using Suc Subsidy_telescopes [of "Suc n"] by (simp add: min_def)
  next
    case False
    then have "GetTKNCBlockSubsidy (int (Suc n)) = 0" by (intro Subsidy_outside_period) simp
    then show ?thesis using Suc False by (simp add: min_def)
  qed
qed

lemma Subsidy_sum_range: "MoneyRange (\<Sum>h\<le>n. GetTKNCBlockSubsidy (int h))"
proof -
  have "supply_after (min (Suc n) 2365200) \<le> supply_after 1"
    unfolding supply_after_def by (rule decay_mono) (simp_all add: consts_defs)
  then show ?thesis
    using supply_after_le [of 1] supply_after_le [of "min (Suc n) 2365200"] Subsidy_sum [of n]
    by (simp add: MoneyRange_def consts_defs)
qed

section \<open>Properties\<close>

text \<open>
  C1. The table lookup \<open>ComputeRemainingO1\<close>, at any height, equals the decay loop run block
  by block from the total supply, with the height clamped to the emission period.
\<close>

theorem emission_lookup_equiv:
  "ComputeRemainingO1 (TKNC_TOTAL_SUPPLY * COIN) TKNC_EMISSION_DIVISOR h =
     decay TKNC_EMISSION_DIVISOR (nat (min h TKNC_TOTAL_EMISSION_BLOCKS))
       (TKNC_TOTAL_SUPPLY * COIN)"
proof (cases "0 \<le> h \<and> h \<le> TKNC_TOTAL_EMISSION_BLOCKS")
  case True
  then show ?thesis using ComputeRemainingO1_eq [of h] by (simp add: supply_after_def min_def)
next
  case False
  have "ComputeRemainingO1 S D h = ComputeRemainingO1 S D TKNC_TOTAL_EMISSION_BLOCKS"
    if "h > TKNC_TOTAL_EMISSION_BLOCKS" for S D
    using that by (simp add: ComputeRemainingO1_def Let_def consts_defs)
  with False show ?thesis
    using ComputeRemainingO1_eq [of TKNC_TOTAL_EMISSION_BLOCKS]
    by (cases "0 \<le> h")
      (simp_all add: supply_after_def min_def ComputeRemainingO1_def consts_defs)
qed

text \<open>
  C7. The subsidies of all blocks up to any height telescope to the difference of two values of
  the decay, and their sum is within \<open>MAX_MONEY\<close>: the schedule never issues more than the cap.
\<close>

theorem subsidy_sum_capped:
  "(\<Sum>h\<le>n. GetTKNCBlockSubsidy (int h)) =
     decay TKNC_EMISSION_DIVISOR 1 (TKNC_TOTAL_SUPPLY * COIN) -
     decay TKNC_EMISSION_DIVISOR (min (Suc n) 2365200) (TKNC_TOTAL_SUPPLY * COIN)
   \<and> MoneyRange (\<Sum>h\<le>n. GetTKNCBlockSubsidy (int h))"
  using Subsidy_sum [of n] Subsidy_sum_range [of n] by (simp add: supply_after_def)

text \<open>
  C19. The subsidy is positive exactly within the emission period and zero at every height outside it, below
  as well as above, and from block 1 on it never rises with the height.
\<close>

theorem subsidy_schedule:
  assumes "0 < h" "h \<le> k"
  shows "GetTKNCBlockSubsidy k \<le> GetTKNCBlockSubsidy h \<and>
    (if 0 < j \<and> j < TKNC_TOTAL_EMISSION_BLOCKS then 0 < GetTKNCBlockSubsidy j else GetTKNCBlockSubsidy j = 0)"
proof -
  have pos: "0 < GetTKNCBlockSubsidy i" if "0 < i" "i < 2365200" for i
  proof -
    have "1525878906250 \<le> supply_after (nat i)" using that by (intro supply_after_ge) simp
    then show ?thesis using Subsidy_in_period [OF that] by (simp add: consts_defs)
  qed
  have "GetTKNCBlockSubsidy k \<le> GetTKNCBlockSubsidy h"
  proof (cases "k < 2365200")
    case True
    have "supply_after (nat k) \<le> supply_after (nat h)"
      unfolding supply_after_def using assms by (intro decay_mono) (simp_all add: consts_defs)
    then show ?thesis
      using Subsidy_in_period [of h] Subsidy_in_period [of k] assms True by (simp add: zdiv_mono1 TKNC_EMISSION_DIVISOR_def)
  next
    case False
    then show ?thesis
      using Subsidy_outside_period [of k] Subsidy_outside_period [of h] pos [of h] assms by (cases "h < 2365200") simp_all
  qed
  moreover have "\<not> (0 < j \<and> j < 2365200) \<Longrightarrow> GetTKNCBlockSubsidy j = 0" by (rule Subsidy_outside_period) auto
  ultimately show ?thesis using pos [of j] by (simp add: consts_defs)
qed

theorem subsidy_schedule_witness:
  "GetTKNCBlockSubsidy 2000 \<le> GetTKNCBlockSubsidy 1000 \<and> 0 < GetTKNCBlockSubsidy 1000 \<and>
   GetTKNCBlockSubsidy 0 = 0 \<and> GetTKNCBlockSubsidy 2365200 = 0"
proof -
  have h: "(0::int) < 1000" "(1000::int) \<le> 2000" by simp_all
  show ?thesis
    using subsidy_schedule [OF h, of 1000] subsidy_schedule [OF h, of 0] subsidy_schedule [OF h, of 2365200] by (simp add: consts_defs)
qed

text \<open>
  C21. \<open>GetTKNCTotalEmitted\<close> is not the sum of the subsidies: from the end of the emission period
  on it reports the whole supply, while more than 15258 coins of it were never paid out as
  subsidies.
\<close>

theorem emitted_overstates_subsidies:
  assumes "TKNC_TOTAL_EMISSION_BLOCKS \<le> int n"
  shows "(\<Sum>h\<le>n. GetTKNCBlockSubsidy (int h)) + 15258 * COIN < GetTKNCTotalEmitted (int n)"
proof -
  have n: "2365200 \<le> int n" using assms by (simp add: consts_defs)
  have "GetTKNCTotalEmitted (int n) = TKNC_TOTAL_SUPPLY * COIN"
    using n year_complete_iff [of "int n"] by (simp add: GetTKNCTotalEmitted_def)
  moreover have "1525878906250 \<le> supply_after (min (Suc n) 2365200)"
    by (rule supply_after_ge) simp
  ultimately show ?thesis
    using Subsidy_sum [of n] supply_after_le [of 1] by (simp add: consts_defs)
qed

theorem emitted_overstates_subsidies_witness:
  "(\<Sum>h\<le>2365200. GetTKNCBlockSubsidy (int h)) + 15258 * COIN < GetTKNCTotalEmitted 2365200"
proof -
  have "TKNC_TOTAL_EMISSION_BLOCKS \<le> int 2365200" by (simp add: consts_defs)
  from emitted_overstates_subsidies [OF this] show ?thesis by simp
qed

text \<open>
  C22. The reward of every block \<open>h\<close> of the emission period is a 300000th of what is left after block \<open>h\<close> itself, and
  therefore strictly less than a 300000th of what was left before it.
\<close>

theorem subsidy_off_by_one_block:
  assumes "0 < h" "h < TKNC_TOTAL_EMISSION_BLOCKS"
  shows "GetTKNCBlockSubsidy h = decay TKNC_EMISSION_DIVISOR (nat h) (TKNC_TOTAL_SUPPLY * COIN) div TKNC_EMISSION_DIVISOR \<and>
    GetTKNCBlockSubsidy h < decay TKNC_EMISSION_DIVISOR (nat h - 1) (TKNC_TOTAL_SUPPLY * COIN) div TKNC_EMISSION_DIVISOR"
proof -
  have h: "0 < h" "h < 2365200" "Suc (nat h - 1) = nat h" using assms by (simp_all add: consts_defs)
  define R where "R = supply_after (nat h - 1)"
  have R: "1525878906250 \<le> R" unfolding R_def by (rule supply_after_ge) (use h in simp)
  have "supply_after (nat h) = R - R div TKNC_EMISSION_DIVISOR"
    using supply_after_Suc [of "nat h - 1"] h unfolding R_def by simp
  moreover have "(R - R div 300000) div 300000 < R div 300000" using R by linarith
  ultimately show ?thesis
    using Subsidy_in_period [OF h(1,2)] by (simp add: R_def supply_after_def TKNC_EMISSION_DIVISOR_def)
qed

theorem subsidy_off_by_one_block_witness:
  "GetTKNCBlockSubsidy 1 = 333332222222 \<and> (TKNC_TOTAL_SUPPLY * COIN) sdiv TKNC_EMISSION_DIVISOR = 333333333333 \<and>
   GetTKNCBlockSubsidy 2 < 333332222222"
proof -
  have h: "(0::int) < 1" "1 < TKNC_TOTAL_EMISSION_BLOCKS" "(0::int) < 2" "2 < TKNC_TOTAL_EMISSION_BLOCKS" by (simp_all add: consts_defs)
  show ?thesis
    using subsidy_off_by_one_block [OF h(1,2)] subsidy_off_by_one_block [OF h(3,4)] by (simp add: consts_defs sdiv_nonneg Let_def)
qed

end
