(* ===== verification/Bytes.thy ===== *)
theory Bytes
  imports Prelude
begin

text \<open>
  Bytes and fixed-width little-endian integers (\<open>crypto/common.h\<close>): \<open>ReadLE16\<close>, \<open>ReadLE32\<close>,
  \<open>ReadLE64\<close> and the matching writers, over one encoder and one decoder, with the round trips
  the serialization code and the 256-bit hashes rest on.
\<close>

type_synonym byte = "8 word"

text \<open>The number a byte sequence stands for, least significant byte first, and its inverse.\<close>

fun le_val :: "byte list \<Rightarrow> int" where
  "le_val [] = 0"
| "le_val (b # bs) = uint b + 2 ^ 8 * le_val bs"

fun le_bytes :: "nat \<Rightarrow> int \<Rightarrow> byte list" where
  "le_bytes 0 v = []"
| "le_bytes (Suc n) v = word_of_int v # le_bytes n (v div 2 ^ 8)"

definition ReadLE16 :: "byte list \<Rightarrow> 16 word" where
  "ReadLE16 p = word_of_int (le_val (take 2 p))"

definition ReadLE32 :: "byte list \<Rightarrow> 32 word" where
  "ReadLE32 p = word_of_int (le_val (take 4 p))"

definition ReadLE64 :: "byte list \<Rightarrow> 64 word" where
  "ReadLE64 p = word_of_int (le_val (take 8 p))"

definition WriteLE16 :: "16 word \<Rightarrow> byte list" where
  "WriteLE16 x = le_bytes 2 (uint x)"

definition WriteLE32 :: "32 word \<Rightarrow> byte list" where
  "WriteLE32 x = le_bytes 4 (uint x)"

definition WriteLE64 :: "64 word \<Rightarrow> byte list" where
  "WriteLE64 x = le_bytes 8 (uint x)"

lemma uint_mod_width [simp]:
  "uint (b :: byte) mod 256 = uint b" "uint (x :: 16 word) mod 65536 = uint x"
  "uint (y :: 32 word) mod 4294967296 = uint y" "uint (z :: 64 word) mod 18446744073709551616 = uint z"
  using uint_lt2p [of b] uint_lt2p [of x] uint_lt2p [of y] uint_lt2p [of z] by simp_all

lemma le_val_nonneg [simp]: "0 \<le> le_val bs"
  by (induction bs) simp_all

lemma le_val_less: "le_val bs < 2 ^ (8 * length bs)"
proof (induction bs)
  case (Cons b bs)
  have "uint b \<le> 2 ^ 8 - 1" using uint_lt2p [of b] by simp
  moreover have "2 ^ 8 * le_val bs \<le> 2 ^ 8 * (2 ^ (8 * length bs) - 1)" using Cons.IH by simp
  ultimately show ?case by (simp add: power_add algebra_simps)
qed simp

lemma length_le_bytes [simp]: "length (le_bytes n v) = n"
  by (induction n arbitrary: v) simp_all

lemma le_val_le_bytes: "le_val (le_bytes n v) = v mod 2 ^ (8 * n)"
proof (induction n arbitrary: v)
  case (Suc n)
  have "le_val (le_bytes (Suc n) v) = v mod 2 ^ 8 + 2 ^ 8 * (v div 2 ^ 8 mod 2 ^ (8 * n))"
    by (simp add: Suc.IH uint_word_of_int)
  also have "\<dots> = v mod (2 ^ 8 * 2 ^ (8 * n))"
    using zmod_zmult2_eq [of "2 ^ (8 * n)" v "2 ^ 8"] by simp
  finally show ?case by (simp add: power_add)
qed simp

lemma le_bytes_le_val: "le_bytes (length bs) (le_val bs) = bs"
proof (induction bs)
  case (Cons b bs)
  have "uint b < 2 ^ 8" using uint_lt2p [of b] by simp
  then have "(uint b + 2 ^ 8 * le_val bs) div 2 ^ 8 = le_val bs" by simp
  moreover have "word_of_int (uint b + 2 ^ 8 * le_val bs) = b"
    by (simp add: word_uint_eq_iff uint_word_of_int uint_word_ariths)
  ultimately show ?case using Cons.IH by simp
qed simp

lemma le_val_append: "le_val (xs @ ys) = le_val xs + 2 ^ (8 * length xs) * le_val ys"
  by (induction xs) (simp_all add: power_add algebra_simps)

lemma length_WriteLE [simp]: "length (WriteLE16 x) = 2" "length (WriteLE32 y) = 4" "length (WriteLE64 z) = 8"
  by (simp_all add: WriteLE16_def WriteLE32_def WriteLE64_def)

lemma uint_ReadLE32: "uint (ReadLE32 p) = le_val (take 4 p)"
proof -
  have "2 ^ (8 * length (take 4 p)) \<le> (2 ^ 32 :: int)" by (intro power_increasing) simp_all
  then have "le_val (take 4 p) < 2 ^ 32" using le_val_less [of "take 4 p"] by linarith
  then show ?thesis by (simp add: ReadLE32_def uint_word_of_int)
qed

lemma ReadLE_WriteLE [simp]:
  "ReadLE16 (WriteLE16 x @ s) = x" "ReadLE32 (WriteLE32 y @ s) = y" "ReadLE64 (WriteLE64 z @ s) = z"
  by (simp_all add: ReadLE16_def WriteLE16_def ReadLE32_def WriteLE32_def ReadLE64_def WriteLE64_def
      le_val_le_bytes word_uint_eq_iff uint_word_of_int)

lemma WriteLE32_ReadLE32: "length p = 4 \<Longrightarrow> WriteLE32 (ReadLE32 p) = p"
  using le_bytes_le_val [of p] by (simp add: WriteLE32_def uint_ReadLE32)

end
