(* ===== verification/BigUint.thy ===== *)
theory BigUint
  imports Prelude
begin

unbundle bit_operations_syntax

text \<open>
  The unsigned big integers of \<open>arith_uint256.h\<close> and \<open>arith_uint256.cpp\<close>: \<open>base_uint\<close> as a
  list of 32-bit digits, least significant first (the array \<open>pn\<close>; the template parameter
  \<open>WIDTH\<close> is the length of the list), with the digit loops of the source. The lemmas relate
  every operation to the number \<open>val\<close> that the digits denote.
\<close>

section \<open>Definitions\<close>

type_synonym base_uint = "32 word list"

definition low32 :: "64 word \<Rightarrow> 32 word" where
  "low32 n = ucast (n AND 0xffffffff)"

definition base_uint_of_u64 :: "nat \<Rightarrow> 64 word \<Rightarrow> base_uint" where
  "base_uint_of_u64 WIDTH b = ucast b # ucast (drop_bit 32 b) # replicate (WIDTH - 2) 0"

fun add_digits :: "64 word \<Rightarrow> base_uint \<Rightarrow> base_uint \<Rightarrow> base_uint" where
  "add_digits carry (p # pn) (q # b) =
     (let n = carry + ucast p + ucast q in low32 n # add_digits (drop_bit 32 n) pn b)"
| "add_digits carry _ _ = []"

definition base_uint_add :: "base_uint \<Rightarrow> base_uint \<Rightarrow> base_uint" where
  "base_uint_add a b = add_digits 0 a b"

fun base_uint_inc :: "base_uint \<Rightarrow> base_uint" where
  "base_uint_inc [] = []"
| "base_uint_inc (p # pn) = (if p + 1 = 0 then (p + 1) # base_uint_inc pn else (p + 1) # pn)"

fun base_uint_dec :: "base_uint \<Rightarrow> base_uint" where
  "base_uint_dec [] = []"
| "base_uint_dec (p # pn) =
     (if p - 1 = 0xffffffff then (p - 1) # base_uint_dec pn else (p - 1) # pn)"

definition base_uint_not :: "base_uint \<Rightarrow> base_uint" where
  "base_uint_not a = map NOT a"

definition base_uint_neg :: "base_uint \<Rightarrow> base_uint" where
  "base_uint_neg a = base_uint_inc (map NOT a)"

definition base_uint_sub :: "base_uint \<Rightarrow> base_uint \<Rightarrow> base_uint" where
  "base_uint_sub a b = base_uint_add a (base_uint_neg b)"

fun mul32_digits :: "64 word \<Rightarrow> 32 word \<Rightarrow> base_uint \<Rightarrow> base_uint" where
  "mul32_digits carry b32 [] = []"
| "mul32_digits carry b32 (p # pn) =
     (let n = carry + ucast b32 * ucast p in low32 n # mul32_digits (drop_bit 32 n) b32 pn)"

definition base_uint_mul32 :: "base_uint \<Rightarrow> 32 word \<Rightarrow> base_uint" where
  "base_uint_mul32 a b32 = mul32_digits 0 b32 a"

text \<open>
  The inner loop of the long multiplication adds \<open>pn[j] * b\<close> to the digits of \<open>a\<close> from
  position \<open>j\<close> on; the outer loop runs it for every \<open>j\<close>.
\<close>

fun mul_row :: "64 word \<Rightarrow> 32 word \<Rightarrow> base_uint \<Rightarrow> base_uint \<Rightarrow> base_uint" where
  "mul_row carry p (x # a) (q # b) =
     (let n = carry + ucast x + ucast p * ucast q in low32 n # mul_row (drop_bit 32 n) p a b)"
| "mul_row carry p _ _ = []"

fun mul_rows :: "nat \<Rightarrow> base_uint \<Rightarrow> base_uint \<Rightarrow> base_uint \<Rightarrow> base_uint" where
  "mul_rows j [] b a = a"
| "mul_rows j (p # pn) b a =
     mul_rows (Suc j) pn b (take j a @ mul_row 0 p (drop j a) b)"

definition base_uint_mul :: "base_uint \<Rightarrow> base_uint \<Rightarrow> base_uint" where
  "base_uint_mul pn b = mul_rows 0 pn b (replicate (length pn) 0)"

definition shl_step :: "base_uint \<Rightarrow> nat \<Rightarrow> nat \<Rightarrow> nat \<Rightarrow> base_uint \<Rightarrow> base_uint" where
  "shl_step a k shift i pn =
     (let WIDTH = length a;
          pn = (if i + k + 1 < WIDTH \<and> shift \<noteq> 0
                then pn[i + k + 1 := pn ! (i + k + 1) OR drop_bit (32 - shift) (a ! i)] else pn)
      in if i + k < WIDTH then pn[i + k := pn ! (i + k) OR push_bit shift (a ! i)] else pn)"

definition base_uint_shl :: "base_uint \<Rightarrow> nat \<Rightarrow> base_uint" where
  "base_uint_shl a shift =
     fold (shl_step a (shift div 32) (shift mod 32)) [0..<length a] (replicate (length a) 0)"

definition shr_step :: "base_uint \<Rightarrow> nat \<Rightarrow> nat \<Rightarrow> nat \<Rightarrow> base_uint \<Rightarrow> base_uint" where
  "shr_step a k shift i pn =
     (let pn = (if k + 1 \<le> i \<and> shift \<noteq> 0
                then pn[i - k - 1 := pn ! (i - k - 1) OR push_bit (32 - shift) (a ! i)] else pn)
      in if k \<le> i then pn[i - k := pn ! (i - k) OR drop_bit shift (a ! i)] else pn)"

definition base_uint_shr :: "base_uint \<Rightarrow> nat \<Rightarrow> base_uint" where
  "base_uint_shr a shift =
     fold (shr_step a (shift div 32) (shift mod 32)) [0..<length a] (replicate (length a) 0)"

fun compare_digits :: "nat \<Rightarrow> base_uint \<Rightarrow> base_uint \<Rightarrow> int" where
  "compare_digits 0 a b = 0"
| "compare_digits (Suc i) a b =
     (if a ! i < b ! i then -1 else if a ! i > b ! i then 1 else compare_digits i a b)"

definition CompareTo :: "base_uint \<Rightarrow> base_uint \<Rightarrow> int" where
  "CompareTo a b = compare_digits (length a) a b"

definition EqualTo :: "base_uint \<Rightarrow> 64 word \<Rightarrow> bool" where
  "EqualTo a b \<longleftrightarrow>
     (\<forall>i\<in>set [2..<length a]. a ! i = 0) \<and> ucast (a ! 1) = drop_bit 32 b
     \<and> ucast (a ! 0) = b AND 0xffffffff"

fun top_bit :: "nat \<Rightarrow> 32 word \<Rightarrow> nat" where
  "top_bit 0 p = 1"
| "top_bit (Suc nbits) p =
     (if p AND push_bit (Suc nbits) 1 \<noteq> 0 then Suc nbits + 1 else top_bit nbits p)"

fun bits_loop :: "nat \<Rightarrow> base_uint \<Rightarrow> nat" where
  "bits_loop 0 a = 0"
| "bits_loop (Suc pos) a = (if a ! pos \<noteq> 0 then 32 * pos + top_bit 31 (a ! pos) else bits_loop pos a)"

definition base_uint_bits :: "base_uint \<Rightarrow> nat" where
  "base_uint_bits a = bits_loop (length a) a"

definition GetLow64 :: "base_uint \<Rightarrow> 64 word" where
  "GetLow64 a = ucast (a ! 0) OR push_bit 32 (ucast (a ! 1))"

text \<open>
  Long division: \<open>div_loop\<close> is the \<open>while (shift >= 0)\<close> loop with its counter increased by one.
  A zero divisor throws \<open>uint_error\<close>, here \<open>None\<close>.
\<close>

fun div_loop :: "nat \<Rightarrow> base_uint \<Rightarrow> base_uint \<Rightarrow> base_uint \<Rightarrow> base_uint" where
  "div_loop 0 num dv q = q"
| "div_loop (Suc shift) num dv q =
     (if CompareTo num dv \<ge> 0
      then div_loop shift (base_uint_sub num dv) (base_uint_shr dv 1)
             (q[shift div 32 := q ! (shift div 32) OR push_bit (shift mod 32) 1])
      else div_loop shift num (base_uint_shr dv 1) q)"

definition base_uint_div :: "base_uint \<Rightarrow> base_uint \<Rightarrow> base_uint option" where
  "base_uint_div a b =
     (let num_bits = base_uint_bits a; div_bits = base_uint_bits b; q = replicate (length a) 0 in
      if div_bits = 0 then None
      else if div_bits > num_bits then Some q
      else let shift = num_bits - div_bits in
           Some (div_loop (Suc shift) a (base_uint_shl b shift) q))"

section \<open>The number denoted by the digits\<close>

fun val :: "base_uint \<Rightarrow> int" where
  "val [] = 0"
| "val (p # pn) = uint p + 2 ^ 32 * val pn"

lemma val_nonneg [simp]: "0 \<le> val a"
  by (induction a) simp_all

lemma val_less: "val a < 2 ^ (32 * length a)"
proof (induction a)
  case (Cons p a)
  have "uint p + 2 ^ 32 * val a \<le> (2 ^ 32 - 1) + 2 ^ 32 * (2 ^ (32 * length a) - 1)"
    using Cons uint_lt2p [of p] by (intro add_mono mult_left_mono) simp_all
  also have "\<dots> < 2 ^ (32 * length (p # a))"
    by (simp add: power_add algebra_simps)
  finally show ?case by simp
qed simp

lemma val_append: "val (a @ b) = val a + 2 ^ (32 * length a) * val b"
  by (induction a) (simp_all add: power_add algebra_simps)

lemma val_replicate_0 [simp]: "val (replicate n 0) = 0"
  by (induction n) simp_all

lemma val_inject: "length a = length b \<Longrightarrow> val a = val b \<longleftrightarrow> a = b"
proof (induction a b rule: list_induct2)
  case (Cons p a q b)
  have "p = q \<and> val a = val b" if e: "uint p + 2 ^ 32 * val a = uint q + 2 ^ 32 * val b"
  proof -
    have "(uint p + 2 ^ 32 * val a) mod 2 ^ 32 = (uint q + 2 ^ 32 * val b) mod 2 ^ 32"
      using e by simp
    then have "uint p = uint q"
      using uint_lt2p [of p] uint_lt2p [of q] by simp
    then show ?thesis using e by (simp add: word_uint_eq_iff)
  qed
  with Cons show ?case by auto
qed simp

lemma val_eqI: "length a = length b \<Longrightarrow> val a = val b \<Longrightarrow> a = b"
  by (simp add: val_inject)

text \<open>The bits of the number are the bits of the digits.\<close>

lemma val_concat_bit: "val (p # a) = concat_bit 32 (uint p) (val a)"
  by (simp add: concat_bit_eq push_bit_eq_mult take_bit_int_eq_self uint_lt2p [where 'a = 32, simplified])

lemma bit_val: "bit (val a) n \<longleftrightarrow> n div 32 < length a \<and> bit (a ! (n div 32)) (n mod 32)"
proof (induction a arbitrary: n)
  case (Cons p a)
  show ?case
  proof (cases "n < 32")
    case True
    then show ?thesis
      by (simp only: val_concat_bit) (simp add: bit_concat_bit_iff bit_uint_iff)
  next
    case False
    then have d: "n div 32 = Suc ((n - 32) div 32)" "n mod 32 = (n - 32) mod 32"
      by (simp_all add: le_div_geq le_mod_geq)
    show ?thesis
      using False d Cons.IH [of "n - 32"]
      by (simp only: val_concat_bit) (simp add: bit_concat_bit_iff)
  qed
qed simp

section \<open>Addition, negation and subtraction\<close>

lemma uint32_le: "uint (p :: 32 word) \<le> 2 ^ 32 - 1"
  using uint_lt2p [of p] by simp

lemma uint_low32: "uint (low32 n) = uint n mod 2 ^ 32"
proof -
  have "n AND 0xffffffff = take_bit 32 n" by (simp add: take_bit_eq_mask mask_eq_exp_minus_1)
  then show ?thesis
    by (simp add: low32_def unsigned_ucast_eq unsigned_take_bit_eq take_bit_eq_mod uint_mod)
qed

lemma uint_drop32: "uint (drop_bit 32 (n :: 64 word)) = uint n div 2 ^ 32"
  by (simp add: drop_bit_eq_div uint_div)

lemma uint_ucast64 [simp]: "uint (ucast (p :: 32 word) :: 64 word) = uint p"
  using uint32_le [of p] by (simp add: unsigned_ucast_eq take_bit_int_eq_self)

text \<open>
  One round of a digit loop: the low half of the 64-bit sum is the digit, the high half the
  carry into the remaining digits.
\<close>

lemma digit_round:
  fixes N X :: int
  shows "N mod 2 ^ 32 + 2 ^ 32 * ((N div 2 ^ 32 + X) mod 2 ^ (32 * L))
           = (N + 2 ^ 32 * X) mod 2 ^ (32 * Suc L)"
proof -
  have "(N + 2 ^ 32 * X) mod (2 ^ 32 * 2 ^ (32 * L)) =
          2 ^ 32 * ((N + 2 ^ 32 * X) div 2 ^ 32 mod 2 ^ (32 * L)) + (N + 2 ^ 32 * X) mod 2 ^ 32"
    by (rule zmod_zmult2_eq) simp
  then show ?thesis by (simp add: power_add add.commute)
qed

lemma length_add_digits [simp]: "length (add_digits c a b) = min (length a) (length b)"
  by (induction c a b rule: add_digits.induct) (simp_all add: Let_def)

lemma val_add_digits:
  assumes "length a = length b" "uint c < 2 ^ 32"
  shows "val (add_digits c a b) = (uint c + val a + val b) mod 2 ^ (32 * length a)"
  using assms
proof (induction a b arbitrary: c rule: list_induct2)
  case (Cons p a q b)
  define n where "n = c + ucast p + ucast q"
  have n: "uint n = uint c + uint p + uint q"
    using Cons.prems uint32_le [of p] uint32_le [of q]
    by (simp add: n_def uint_word_ariths)
  have "uint (drop_bit 32 n) < 2 ^ 32"
    using n Cons.prems uint32_le [of p] uint32_le [of q] by (simp add: uint_drop32)
  then have "val (add_digits (drop_bit 32 n) a b)
      = (uint n div 2 ^ 32 + (val a + val b)) mod 2 ^ (32 * length a)"
    using Cons.IH [of "drop_bit 32 n"] by (simp add: uint_drop32 add.assoc)
  then have "val (low32 n # add_digits (drop_bit 32 n) a b)
      = (uint n + 2 ^ 32 * (val a + val b)) mod 2 ^ (32 * Suc (length a))"
    using digit_round [of "uint n" "val a + val b" "length a"]
    by (simp only: val.simps uint_low32)
  then show ?case
    by (simp only: add_digits.simps Let_def n_def [symmetric]) (simp add: n algebra_simps)
qed simp

lemma length_base_uint_add [simp]: "length (base_uint_add a b) = min (length a) (length b)"
  by (simp add: base_uint_add_def)

lemma val_add:
  "length a = length b \<Longrightarrow> val (base_uint_add a b) = (val a + val b) mod 2 ^ (32 * length a)"
  by (simp add: base_uint_add_def val_add_digits)

lemma length_base_uint_inc [simp]: "length (base_uint_inc a) = length a"
  by (induction a) simp_all

lemma uint_plus_1: "uint ((p :: 32 word) + 1) = (if p + 1 = 0 then 0 else uint p + 1)"
  "p + 1 = 0 \<Longrightarrow> uint (p :: 32 word) = 2 ^ 32 - 1"
proof -
  have p: "uint p \<le> 2 ^ 32 - 1" by (rule uint32_le)
  have w: "uint (p + 1) = (uint p + 1) mod 2 ^ 32" by (simp add: uint_word_ariths)
  have z: "p + 1 = 0 \<longleftrightarrow> uint (p + 1) = 0" by (simp add: word_uint_eq_iff)
  have m: "(uint p + 1) mod 2 ^ 32 = (if uint p = 2 ^ 32 - 1 then 0 else uint p + 1)"
    using p uint_ge_0 [of p] by (auto intro: mod_pos_pos_trivial)
  have "uint p + 1 \<noteq> 0" using uint_ge_0 [of p] by linarith
  then show "p + 1 = 0 \<Longrightarrow> uint p = 2 ^ 32 - 1"
    using w z m by (auto split: if_splits)
  show "uint (p + 1) = (if p + 1 = 0 then 0 else uint p + 1)"
    using w z m by (auto split: if_splits)
qed

lemma val_inc: "val (base_uint_inc a) = (val a + 1) mod 2 ^ (32 * length a)"
proof (induction a)
  case (Cons p a)
  show ?case
  proof (cases "p + 1 = 0")
    case True
    have "val (base_uint_inc (p # a)) = 2 ^ 32 * ((val a + 1) mod 2 ^ (32 * length a))"
      using True Cons by simp
    also have "\<dots> = (2 ^ 32 + 2 ^ 32 * val a) mod 2 ^ (32 * Suc (length a))"
      using digit_round [of "2 ^ 32" "val a" "length a"] by (simp add: add.commute)
    finally show ?thesis using uint_plus_1(2) [OF True] by simp
  next
    case False
    have "val ((p + 1) # a) < 2 ^ (32 * length ((p + 1) # a))" by (rule val_less)
    then show ?thesis using False uint_plus_1(1) [of p] by (simp add: algebra_simps)
  qed
qed simp

lemma val_map_NOT: "val (map NOT a) = 2 ^ (32 * length a) - 1 - val a"
proof (induction a)
  case (Cons p a)
  have "uint (NOT p) = 2 ^ 32 - 1 - uint p"
    using uint32_le [of p]
    by (simp add: unsigned_not_eq take_bit_not_eq_mask_diff mask_eq_exp_minus_1
        take_bit_int_eq_self)
  with Cons show ?case by (simp add: power_add algebra_simps)
qed simp

lemma length_base_uint_neg [simp]: "length (base_uint_neg a) = length a"
  by (simp add: base_uint_neg_def)

lemma val_neg: "val (base_uint_neg a) = (- val a) mod 2 ^ (32 * length a)"
proof -
  have "val (base_uint_neg a) = (2 ^ (32 * length a) - val a) mod 2 ^ (32 * length a)"
    by (simp add: base_uint_neg_def val_inc val_map_NOT)
  then show ?thesis by (metis minus_mod_self1 uminus_add_conv_diff diff_0 mod_add_self1 add_uminus_conv_diff)
qed

lemma length_base_uint_sub [simp]: "length (base_uint_sub a b) = min (length a) (length b)"
  by (simp add: base_uint_sub_def)

lemma val_sub:
  assumes "length a = length b"
  shows "val (base_uint_sub a b) = (val a - val b) mod 2 ^ (32 * length a)"
  using assms by (simp add: base_uint_sub_def val_add val_neg mod_add_right_eq)

lemma val_sub_ge:
  assumes "length a = length b" "val b \<le> val a"
  shows "val (base_uint_sub a b) = val a - val b"
proof -
  have "(val a - val b) mod 2 ^ (32 * length a) = val a - val b"
    using val_less [of a] val_nonneg [of b] assms(2) by (intro mod_pos_pos_trivial) linarith+
  then show ?thesis using assms by (simp add: val_sub)
qed

section \<open>Multiplication\<close>

lemma mul_carry_bound:
  fixes c x p q :: int
  assumes "c \<le> 2 ^ 32 - 1" "x \<le> 2 ^ 32 - 1" "0 \<le> p" "p \<le> 2 ^ 32 - 1" "0 \<le> q" "q \<le> 2 ^ 32 - 1"
  shows "c + x + p * q \<le> 2 ^ 64 - 1"
proof -
  have "p * q \<le> (2 ^ 32 - 1) * (2 ^ 32 - 1)" using assms by (intro mult_mono) simp_all
  then show ?thesis using assms by simp
qed

lemma length_mul32_digits [simp]: "length (mul32_digits c b a) = length a"
  by (induction a arbitrary: c) (simp_all add: Let_def)

lemma val_mul32_digits:
  assumes "uint c < 2 ^ 32"
  shows "val (mul32_digits c b a) = (uint c + uint b * val a) mod 2 ^ (32 * length a)"
  using assms
proof (induction a arbitrary: c)
  case (Cons p a)
  define n where "n = c + ucast b * ucast p"
  have le: "uint c + 0 + uint b * uint p \<le> 2 ^ 64 - 1"
    using Cons.prems uint32_le by (intro mul_carry_bound) simp_all
  moreover have "0 \<le> uint b * uint p" by simp
  ultimately have n: "uint n = uint c + uint b * uint p"
    by (simp add: n_def uint_word_ariths mod_add_right_eq)
  have "uint (drop_bit 32 n) < 2 ^ 32" using n le by (simp add: uint_drop32)
  then have "val (mul32_digits (drop_bit 32 n) b a)
      = (uint n div 2 ^ 32 + uint b * val a) mod 2 ^ (32 * length a)"
    using Cons.IH [of "drop_bit 32 n"] by (simp add: uint_drop32)
  then have "val (low32 n # mul32_digits (drop_bit 32 n) b a)
      = (uint n + 2 ^ 32 * (uint b * val a)) mod 2 ^ (32 * Suc (length a))"
    using digit_round [of "uint n" "uint b * val a" "length a"]
    by (simp only: val.simps uint_low32)
  then show ?case
    by (simp only: mul32_digits.simps Let_def n_def [symmetric]) (simp add: n algebra_simps)
qed simp

lemma length_base_uint_mul32 [simp]: "length (base_uint_mul32 a b) = length a"
  by (simp add: base_uint_mul32_def)

lemma val_mul32: "val (base_uint_mul32 a b) = (val a * uint b) mod 2 ^ (32 * length a)"
  by (simp add: base_uint_mul32_def val_mul32_digits mult.commute)

lemma length_mul_row [simp]: "length (mul_row c p a b) = min (length a) (length b)"
  by (induction c p a b rule: mul_row.induct) (simp_all add: Let_def)

lemma val_mul_row:
  assumes "uint c < 2 ^ 32" "length a \<le> length b"
  shows "val (mul_row c p a b) = (uint c + val a + uint p * val b) mod 2 ^ (32 * length a)"
  using assms
proof (induction a arbitrary: c b)
  case Nil
  then show ?case by simp
next
  case (Cons x a)
  then obtain q b' where b: "b = q # b'" by (cases b) auto
  define n where "n = c + ucast x + ucast p * ucast q"
  have le: "uint c + uint x + uint p * uint q \<le> 2 ^ 64 - 1"
    using Cons.prems uint32_le by (intro mul_carry_bound) simp_all
  moreover have "0 \<le> uint p * uint q" by simp
  ultimately have n: "uint n = uint c + uint x + uint p * uint q"
    by (simp add: n_def uint_word_ariths mod_add_right_eq mod_add_left_eq)
  have "uint (drop_bit 32 n) < 2 ^ 32" using n le by (simp add: uint_drop32)
  then have "val (mul_row (drop_bit 32 n) p a b')
      = (uint n div 2 ^ 32 + (val a + uint p * val b')) mod 2 ^ (32 * length a)"
    using Cons.IH [of "drop_bit 32 n" b'] Cons.prems b by (simp add: uint_drop32 add.assoc)
  then have "val (low32 n # mul_row (drop_bit 32 n) p a b')
      = (uint n + 2 ^ 32 * (val a + uint p * val b')) mod 2 ^ (32 * Suc (length a))"
    using digit_round [of "uint n" "val a + uint p * val b'" "length a"]
    by (simp only: val.simps uint_low32)
  then show ?case
    by (simp only: b mul_row.simps Let_def n_def [symmetric]) (simp add: n algebra_simps)
qed

lemma length_mul_rows:
  "length a = length b \<Longrightarrow> length (mul_rows j pn b a) = length b"
  by (induction pn arbitrary: j a) simp_all

lemma val_mul_rows:
  assumes "length a = length b" "j + length pn \<le> length b"
  shows "val (mul_rows j pn b a) = (val a + 2 ^ (32 * j) * (val pn * val b)) mod 2 ^ (32 * length b)"
  using assms
proof (induction pn arbitrary: j a)
  case Nil
  then show ?case using val_less [of a] by simp
next
  case (Cons p pn)
  let ?W = "length b" and ?B = "2 ^ (32 * j) :: int"
  define r where "r = mul_row 0 p (drop j a) b"
  define a' where "a' = take j a @ r"
  have j: "j \<le> ?W" using Cons.prems by simp
  have len: "length a' = ?W" using Cons.prems j by (simp add: a'_def r_def)
  have BW: "(2::int) ^ (32 * ?W) = ?B * 2 ^ (32 * (?W - j))"
    using j by (simp add: power_add [symmetric] algebra_simps)
  have split: "val a = val (take j a) + ?B * val (drop j a)"
    using val_append [of "take j a" "drop j a"] Cons.prems j by (simp add: min_def)
  have r: "val r = (val (drop j a) + uint p * val b) mod 2 ^ (32 * (?W - j))"
    using val_mul_row [of 0 "drop j a" b p] Cons.prems j by (simp add: r_def)
  have tk: "0 \<le> val (take j a)" "val (take j a) < ?B"
    using val_less [of "take j a"] Cons.prems j by (simp_all add: min_def)
  have "val a' = val (take j a) + ?B * val r"
    using Cons.prems j by (simp add: a'_def val_append min_def)
  also have "\<dots> = (val (take j a) + ?B * (val (drop j a) + uint p * val b)) mod (?B * 2 ^ (32 * (?W - j)))"
    using tk by (simp add: r zmod_zmult2_eq)
  also have "\<dots> = (val a + ?B * (uint p * val b)) mod 2 ^ (32 * ?W)"
    by (simp only: BW split) (simp add: algebra_simps)
  finally have a': "val a' = (val a + ?B * (uint p * val b)) mod 2 ^ (32 * ?W)" .
  have "val (mul_rows (Suc j) pn b a') =
      (val a' + 2 ^ (32 * Suc j) * (val pn * val b)) mod 2 ^ (32 * ?W)"
    using Cons.IH [of a' "Suc j"] Cons.prems len by simp
  also have "\<dots> = (val a + ?B * (uint p * val b) + 2 ^ (32 * Suc j) * (val pn * val b)) mod 2 ^ (32 * ?W)"
    by (simp add: a' mod_add_left_eq)
  also have "val a + ?B * (uint p * val b) + 2 ^ (32 * Suc j) * (val pn * val b)
      = val a + ?B * (val (p # pn) * val b)"
    by (simp add: power_add algebra_simps)
  finally show ?case by (simp add: a'_def r_def)
qed

lemma length_base_uint_mul [simp]: "length a = length b \<Longrightarrow> length (base_uint_mul a b) = length b"
  by (simp add: base_uint_mul_def length_mul_rows)

lemma val_mul:
  "length a = length b \<Longrightarrow> val (base_uint_mul a b) = (val a * val b) mod 2 ^ (32 * length a)"
  using val_mul_rows [of "replicate (length a) 0" b 0 a] by (simp add: base_uint_mul_def)

section \<open>Shifts\<close>

lemma div_mod_digit: "c < 32 \<Longrightarrow> (c + 32 * d) div 32 = (d :: nat) \<and> (c + 32 * d) mod 32 = c"
  by simp

text \<open>
  What the two writes per round leave in digit \<open>m\<close> after the rounds \<open>0, \<dots>, r - 1\<close>.
\<close>

definition shl_digit :: "base_uint \<Rightarrow> nat \<Rightarrow> nat \<Rightarrow> nat \<Rightarrow> nat \<Rightarrow> 32 word" where
  "shl_digit a k s r m =
     (if k \<le> m \<and> m - k < r then push_bit s (a ! (m - k)) else 0) OR
     (if k + 1 \<le> m \<and> m - k - 1 < r \<and> s \<noteq> 0 then drop_bit (32 - s) (a ! (m - k - 1)) else 0)"

lemma length_shl_step [simp]: "length (shl_step a k s i pn) = length pn"
  by (simp add: shl_step_def Let_def)

lemma shl_step_nth:
  assumes "length pn = length a" "m < length a" "\<forall>m < length a. pn ! m = shl_digit a k s r m"
  shows "shl_step a k s r pn ! m = shl_digit a k s (Suc r) m"
proof -
  have pn: "pn ! m = shl_digit a k s r m" using assms by simp
  consider "m = r + k" | "m = r + k + 1" | "m \<noteq> r + k" "m \<noteq> r + k + 1" by blast
  then show ?thesis
  proof cases
    case 1
    then show ?thesis
      using assms(1,2) pn by (auto simp: shl_step_def Let_def shl_digit_def nth_list_update ac_simps)
  next
    case 2
    then show ?thesis
      using assms(1,2) pn by (auto simp: shl_step_def Let_def shl_digit_def nth_list_update ac_simps)
  next
    case 3
    then have "shl_step a k s r pn ! m = pn ! m"
      by (auto simp: shl_step_def Let_def nth_list_update)
    moreover have "shl_digit a k s (Suc r) m = shl_digit a k s r m"
      using 3 by (auto simp: shl_digit_def)
    ultimately show ?thesis using pn by simp
  qed
qed

lemma shl_fold_nth:
  "r \<le> length a \<Longrightarrow>
   length (fold (shl_step a k s) [0..<r] (replicate (length a) 0)) = length a \<and>
   (\<forall>m < length a. fold (shl_step a k s) [0..<r] (replicate (length a) 0) ! m
      = shl_digit a k s r m)"
proof (induction r)
  case 0
  then show ?case by (simp add: shl_digit_def)
next
  case (Suc r)
  then show ?case using shl_step_nth [of "fold (shl_step a k s) [0..<r] (replicate (length a) 0)" a] by simp
qed

lemma length_base_uint_shl [simp]: "length (base_uint_shl a n) = length a"
  using shl_fold_nth [of "length a" a "n div 32" "n mod 32"] by (simp add: base_uint_shl_def)

lemma bit_base_uint_shl:
  assumes "m div 32 < length a"
  shows "bit (base_uint_shl a n ! (m div 32)) (m mod 32) \<longleftrightarrow> n \<le> m \<and> bit (val a) (m - n)"
proof -
  define k s M b where "k = n div 32" and "s = n mod 32" and "M = m div 32" and "b = m mod 32"
  have n: "n = 32 * k + s" and m: "m = 32 * M + b" and s: "s < 32" and b: "b < 32"
    by (simp_all add: k_def s_def M_def b_def)
  have M: "M < length a" using assms by (simp add: M_def)
  have dig: "base_uint_shl a n ! M = shl_digit a k s (length a) M"
    using shl_fold_nth [of "length a" a k s] M by (simp add: base_uint_shl_def k_def s_def)
  show ?thesis
  proof (cases "s \<le> b")
    case True
    have "n \<le> m \<longleftrightarrow> k \<le> M" using n m s b True by arith
    moreover have "(m - n) div 32 = M - k \<and> (m - n) mod 32 = b - s" if "k \<le> M"
    proof -
      have e: "m - n = (b - s) + 32 * (M - k)" using n m True that by (simp add: algebra_simps)
      show ?thesis unfolding e by (rule div_mod_digit) (use b in arith)
    qed
    moreover have "\<not> bit (w :: 32 word) (32 + b - s)" for w
      using True bit_imp_le_length [of w "32 + b - s"] by auto
    ultimately show ?thesis
      using dig True M b
      by (auto simp: M_def [symmetric] b_def [symmetric] shl_digit_def bit_or_iff bit_push_bit_iff
          bit_drop_bit_eq bit_val)
  next
    case False
    have "n \<le> m \<longleftrightarrow> k + 1 \<le> M" using n m s b False by arith
    moreover have "(m - n) div 32 = M - k - 1 \<and> (m - n) mod 32 = 32 - s + b" if "k + 1 \<le> M"
    proof -
      have e: "m - n = (32 - s + b) + 32 * (M - k - 1)" using n m s False that by (simp add: algebra_simps)
      show ?thesis unfolding e by (rule div_mod_digit) (use False s in arith)
    qed
    ultimately show ?thesis
      using dig False M b s
      by (auto simp: M_def [symmetric] b_def [symmetric] shl_digit_def bit_or_iff bit_push_bit_iff
          bit_drop_bit_eq bit_val)
  qed
qed

lemma val_shl: "val (base_uint_shl a n) = (val a * 2 ^ n) mod 2 ^ (32 * length a)"
proof -
  have "val (base_uint_shl a n) = take_bit (32 * length a) (push_bit n (val a))"
  proof (rule bit_eqI)
    fix m
    show "bit (val (base_uint_shl a n)) m \<longleftrightarrow> bit (take_bit (32 * length a) (push_bit n (val a))) m"
      using bit_base_uint_shl [of m a n]
      by (auto simp: bit_val [of "base_uint_shl a n"] bit_take_bit_iff bit_push_bit_iff div_less_iff_less_mult)
  qed
  then show ?thesis by (simp add: take_bit_eq_mod push_bit_eq_mult)
qed

definition shr_digit :: "base_uint \<Rightarrow> nat \<Rightarrow> nat \<Rightarrow> nat \<Rightarrow> nat \<Rightarrow> 32 word" where
  "shr_digit a k s r m =
     (if m + k < r then drop_bit s (a ! (m + k)) else 0) OR
     (if m + k + 1 < r \<and> s \<noteq> 0 then push_bit (32 - s) (a ! (m + k + 1)) else 0)"

lemma length_shr_step [simp]: "length (shr_step a k s i pn) = length pn"
  by (simp add: shr_step_def Let_def)

lemma shr_step_nth:
  assumes "length pn = length a" "m < length a" "r < length a"
    "\<forall>m < length a. pn ! m = shr_digit a k s r m"
  shows "shr_step a k s r pn ! m = shr_digit a k s (Suc r) m"
proof -
  have pn: "pn ! m = shr_digit a k s r m" using assms by simp
  consider "r = m + k" | "r = m + k + 1" | "r \<noteq> m + k" "r \<noteq> m + k + 1" by blast
  then show ?thesis
  proof cases
    case 1
    then show ?thesis
      using assms(1-3) pn by (auto simp: shr_step_def Let_def shr_digit_def nth_list_update ac_simps)
  next
    case 2
    then show ?thesis
      using assms(1-3) pn by (auto simp: shr_step_def Let_def shr_digit_def nth_list_update ac_simps)
  next
    case 3
    then have "shr_step a k s r pn ! m = pn ! m"
      by (auto simp: shr_step_def Let_def nth_list_update)
    moreover have "shr_digit a k s (Suc r) m = shr_digit a k s r m"
      using 3 by (auto simp: shr_digit_def)
    ultimately show ?thesis using pn by simp
  qed
qed

lemma shr_fold_nth:
  "r \<le> length a \<Longrightarrow>
   length (fold (shr_step a k s) [0..<r] (replicate (length a) 0)) = length a \<and>
   (\<forall>m < length a. fold (shr_step a k s) [0..<r] (replicate (length a) 0) ! m
      = shr_digit a k s r m)"
proof (induction r)
  case 0
  then show ?case by (simp add: shr_digit_def)
next
  case (Suc r)
  then show ?case using shr_step_nth [of "fold (shr_step a k s) [0..<r] (replicate (length a) 0)" a] by simp
qed

lemma length_base_uint_shr [simp]: "length (base_uint_shr a n) = length a"
  using shr_fold_nth [of "length a" a "n div 32" "n mod 32"] by (simp add: base_uint_shr_def)

lemma bit_base_uint_shr:
  assumes "m div 32 < length a"
  shows "bit (base_uint_shr a n ! (m div 32)) (m mod 32) \<longleftrightarrow> bit (val a) (m + n)"
proof -
  define k s M b where "k = n div 32" and "s = n mod 32" and "M = m div 32" and "b = m mod 32"
  have n: "n = 32 * k + s" and m: "m = 32 * M + b" and s: "s < 32" and b: "b < 32"
    by (simp_all add: k_def s_def M_def b_def)
  have M: "M < length a" using assms by (simp add: M_def)
  have dig: "base_uint_shr a n ! M = shr_digit a k s (length a) M"
    using shr_fold_nth [of "length a" a k s] M by (simp add: base_uint_shr_def k_def s_def)
  show ?thesis
  proof (cases "b + s < 32")
    case True
    have e: "m + n = (b + s) + 32 * (M + k)" using n m by (simp add: algebra_simps)
    have "(m + n) div 32 = M + k \<and> (m + n) mod 32 = b + s"
      unfolding e by (rule div_mod_digit) (use True in arith)
    with True show ?thesis
      using dig M b s
      by (auto simp: M_def [symmetric] b_def [symmetric] shr_digit_def bit_or_iff bit_push_bit_iff
          bit_drop_bit_eq bit_val ac_simps)
  next
    case False
    have e: "m + n = (b + s - 32) + 32 * (M + k + 1)" using n m False by (simp add: algebra_simps)
    have "(m + n) div 32 = M + k + 1 \<and> (m + n) mod 32 = b + s - 32"
      unfolding e by (rule div_mod_digit) (use b s in arith)
    moreover have "\<not> bit (w :: 32 word) (b + s)" for w
      using False bit_imp_le_length [of w "b + s"] by auto
    ultimately show ?thesis
      using dig False M b s
      by (auto simp: M_def [symmetric] b_def [symmetric] shr_digit_def bit_or_iff bit_push_bit_iff
          bit_drop_bit_eq bit_val ac_simps)
  qed
qed

lemma val_shr: "val (base_uint_shr a n) = val a div 2 ^ n"
proof -
  have "val (base_uint_shr a n) = drop_bit n (val a)"
  proof (rule bit_eqI)
    fix m
    show "bit (val (base_uint_shr a n)) m \<longleftrightarrow> bit (drop_bit n (val a)) m"
    proof (cases "m div 32 < length a")
      case True
      then show ?thesis
        using bit_base_uint_shr [of m a n]
        by (simp add: bit_val [of "base_uint_shr a n"] bit_drop_bit_eq add.commute)
    next
      case False
      moreover have "m div 32 \<le> (n + m) div 32" by (simp add: div_le_mono)
      ultimately show ?thesis
        by (simp add: bit_val bit_drop_bit_eq)
    qed
  qed
  then show ?thesis by (simp add: drop_bit_eq_div)
qed

section \<open>Comparison\<close>

lemma compare_digits_take:
  assumes "i \<le> length a" "i \<le> length b"
  shows "compare_digits i a b = sgn (val (take i a) - val (take i b))"
  using assms
proof (induction i)
  case (Suc i)
  let ?M = "2 ^ (32 * i) :: int"
  have t: "val (take (Suc i) c) = val (take i c) + ?M * uint (c ! i)" if "Suc i \<le> length c" for c
    using that val_append [of "take i c" "[c ! i]"] by (simp add: take_Suc_conv_app_nth min_def)
  have lt: "0 \<le> val (take i c)" "val (take i c) < ?M" if "Suc i \<le> length c" for c
    using val_less [of "take i c"] that by (simp_all add: min_def)
  have mono: "val (take (Suc i) c) < val (take (Suc i) d)"
    if "c ! i < d ! i" "Suc i \<le> length c" "Suc i \<le> length d" for c d
  proof -
    have "uint (c ! i) + 1 \<le> uint (d ! i)" using that(1) by (simp add: word_less_def)
    then have "?M * (uint (c ! i) + 1) \<le> ?M * uint (d ! i)" by (intro mult_left_mono) simp_all
    then have "?M * uint (c ! i) + ?M \<le> ?M * uint (d ! i)" by (simp add: distrib_left)
    then show ?thesis
      using t [OF that(2)] t [OF that(3)] lt [OF that(2)] lt [OF that(3)] by linarith
  qed
  show ?case
  proof (cases "a ! i" "b ! i" rule: linorder_cases)
    case less
    then show ?thesis using mono [of a b] Suc.prems by simp
  next
    case equal
    then show ?thesis using t Suc by simp
  next
    case greater
    then show ?thesis using mono [of b a] Suc.prems by simp
  qed
qed simp

lemma CompareTo_val: "length a = length b \<Longrightarrow> CompareTo a b = sgn (val a - val b)"
  using compare_digits_take [of "length a" a b] by (simp add: CompareTo_def)

lemma CompareTo_ge: "length a = length b \<Longrightarrow> CompareTo a b \<ge> 0 \<longleftrightarrow> val b \<le> val a"
  by (simp add: CompareTo_val sgn_if)

lemma CompareTo_gt: "length a = length b \<Longrightarrow> CompareTo a b > 0 \<longleftrightarrow> val b < val a"
  by (simp add: CompareTo_val sgn_if)

lemma CompareTo_less: "length a = length b \<Longrightarrow> CompareTo a b < 0 \<longleftrightarrow> val a < val b"
  by (simp add: CompareTo_val sgn_if)

lemma EqualTo_val:
  assumes "2 \<le> length a"
  shows "EqualTo a b \<longleftrightarrow> val a = uint b"
proof -
  obtain p q r where a: "a = p # q # r" using assms by (cases a; cases "tl a") auto
  have r: "(\<forall>i\<in>set [2..<length a]. a ! i = 0) \<longleftrightarrow> val r = 0"
  proof
    assume h: "\<forall>i\<in>set [2..<length a]. a ! i = 0"
    have "r ! i = 0" if "i < length r" for i
    proof -
      have "i + 2 \<in> set [2..<length a]" using that by (simp add: a del: set_upt) auto
      then have "a ! (i + 2) = 0" using h by blast
      then show ?thesis by (simp add: a)
    qed
    then have "r = replicate (length r) 0" by (intro nth_equalityI) auto
    then show "val r = 0" by (metis val_replicate_0)
  next
    assume "val r = 0"
    then have "r = replicate (length r) 0" by (intro val_eqI) simp_all
    then have "r ! i = 0" if "i < length r" for i by (metis nth_replicate that)
    then show "\<forall>i\<in>set [2..<length a]. a ! i = 0" by (auto simp: a nth_Cons')
  qed
  have b: "uint b = uint b mod 2 ^ 32 + 2 ^ 32 * (uint b div 2 ^ 32)" "uint b < 2 ^ 64"
    using uint_lt2p [of b] by simp_all
  have "b AND 0xffffffff = take_bit 32 b" by (simp add: take_bit_eq_mask mask_eq_exp_minus_1)
  then have lo: "uint (b AND 0xffffffff) = uint b mod 2 ^ 32"
    by (simp add: take_bit_eq_mod uint_mod)
  have "EqualTo a b \<longleftrightarrow> val r = 0 \<and> uint q = uint b div 2 ^ 32 \<and> uint p = uint b mod 2 ^ 32"
    unfolding EqualTo_def r by (simp add: a word_uint_eq_iff uint_drop32 lo)
  also have "\<dots> \<longleftrightarrow> uint p + 2 ^ 32 * (uint q + 2 ^ 32 * val r) = uint b"
  proof
    assume e: "uint p + 2 ^ 32 * (uint q + 2 ^ 32 * val r) = uint b"
    have p: "0 \<le> uint p" "uint p < 2 ^ 32" and q: "0 \<le> uint q" "uint q < 2 ^ 32"
      using uint_lt2p [of p] uint_lt2p [of q] by simp_all
    define X where "X = uint q + 2 ^ 32 * val r"
    have eX: "uint b = uint p + 2 ^ 32 * X" using e by (simp add: X_def)
    have "uint b mod 2 ^ 32 = uint p" unfolding eX using p by simp
    moreover have "uint b div 2 ^ 32 = X" unfolding eX using p by simp
    then have d: "uint b div 2 ^ 32 = uint q + 2 ^ 32 * val r" by (simp add: X_def)
    moreover have "val r = 0"
    proof (rule ccontr)
      assume "val r \<noteq> 0"
      then have "1 \<le> val r" using val_nonneg [of r] by linarith
      then have "(2::int) ^ 32 * 1 \<le> 2 ^ 32 * val r" by (intro mult_left_mono) simp_all
      then have "2 ^ 32 \<le> uint b div 2 ^ 32" using d q(1) by linarith
      moreover have "uint b div 2 ^ 32 < 2 ^ 32" using b(2) by simp
      ultimately show False by linarith
    qed
    ultimately show "val r = 0 \<and> uint q = uint b div 2 ^ 32 \<and> uint p = uint b mod 2 ^ 32"
      using d by simp
  qed (use b in simp)
  finally show ?thesis by (simp add: a)
qed

section \<open>Bit length\<close>

lemma top_bit_Suc: "top_bit (Suc n) p = (if bit p (Suc n) then Suc n + 1 else top_bit n p)"
  by (simp add: and_exp_eq_0_iff_not_bit flip: power_Suc)

declare top_bit.simps(2) [simp del]

lemma top_bit_bounds:
  assumes "uint p < 2 ^ Suc n" "p \<noteq> 0"
  shows "2 ^ (top_bit n p - 1) \<le> uint p \<and> uint p < 2 ^ top_bit n p \<and> 1 \<le> top_bit n p \<and> top_bit n p \<le> Suc n"
  using assms
proof (induction n)
  case 0
  have "0 < uint p" using 0 by (simp add: word_uint_eq_iff order_less_le)
  with 0 show ?case by simp
next
  case (Suc n)
  show ?case
  proof (cases "bit p (Suc n)")
    case True
    then have "bit (uint p) (Suc n)" using bit_imp_le_length [OF True] by (simp add: bit_uint_iff)
    then have "2 ^ Suc n \<le> uint p"
      by (metis bit_iff_odd div_pos_pos_trivial linorder_not_less odd_iff_mod_2_eq_one mod_0 uint_ge_0 zero_neq_one)
    with True Suc.prems show ?thesis by (simp add: top_bit_Suc)
  next
    case False
    have "uint p < 2 ^ Suc n"
    proof (rule ccontr)
      assume "\<not> uint p < 2 ^ Suc n"
      then have "uint p div 2 ^ Suc n = 1" using Suc.prems(1) by (intro int_div_pos_eq [where r = "uint p - 2 ^ Suc n"]) auto
      then have "bit (uint p) (Suc n)" by (simp add: bit_iff_odd)
      then show False using False by (simp add: bit_uint_iff)
    qed
    with Suc False show ?thesis by (simp add: top_bit_Suc)
  qed
qed

lemma bits_loop_bounds:
  assumes "i \<le> length a"
  shows "(val (take i a) = 0 \<longleftrightarrow> bits_loop i a = 0) \<and> val (take i a) < 2 ^ bits_loop i a \<and>
    (val (take i a) \<noteq> 0 \<longrightarrow> 2 ^ (bits_loop i a - 1) \<le> val (take i a)) \<and> bits_loop i a \<le> 32 * i"
  using assms
proof (induction i)
  case (Suc i)
  have t: "val (take (Suc i) a) = val (take i a) + 2 ^ (32 * i) * uint (a ! i)"
    using Suc.prems val_append [of "take i a" "[a ! i]"]
    by (simp add: take_Suc_conv_app_nth min_def)
  show ?case
  proof (cases "a ! i = 0")
    case True
    then show ?thesis using t Suc by simp
  next
    case False
    let ?n = "top_bit 31 (a ! i)" and ?M = "2 ^ (32 * i) :: int"
    have n: "2 ^ (?n - 1) \<le> uint (a ! i)" "uint (a ! i) + 1 \<le> 2 ^ ?n" "1 \<le> ?n" "?n \<le> 32"
      using top_bit_bounds [of "a ! i" 31] False uint_lt2p [of "a ! i"] by simp_all
    have m: "0 \<le> val (take i a)" "val (take i a) < ?M"
      using val_less [of "take i a"] Suc.prems by (simp_all add: min_def)
    have "?M * 2 ^ (?n - 1) \<le> ?M * uint (a ! i)" "?M * (uint (a ! i) + 1) \<le> ?M * 2 ^ ?n"
      using n by (intro mult_left_mono; simp)+
    moreover have "?M * 2 ^ (?n - 1) = 2 ^ (32 * i + ?n - 1)" "?M * 2 ^ ?n = 2 ^ (32 * i + ?n)"
      using n by (simp_all flip: power_add)
    moreover have "?M * (uint (a ! i) + 1) = ?M * uint (a ! i) + ?M" by (simp add: distrib_left)
    ultimately have "2 ^ (32 * i + ?n - 1) \<le> val (take (Suc i) a)"
      "val (take (Suc i) a) < 2 ^ (32 * i + ?n)"
      using m t by linarith+
    moreover from this have "0 < val (take (Suc i) a)"
      using zero_less_power [of "2 :: int" "32 * i + ?n - 1"] by linarith
    ultimately show ?thesis using False n by simp
  qed
qed simp

lemma base_uint_bits_zero: "base_uint_bits a = 0 \<longleftrightarrow> val a = 0"
  and val_less_bits: "val a < 2 ^ base_uint_bits a"
  and val_ge_bits: "val a \<noteq> 0 \<Longrightarrow> 2 ^ (base_uint_bits a - 1) \<le> val a"
  and base_uint_bits_le: "base_uint_bits a \<le> 32 * length a"
  using bits_loop_bounds [of "length a" a] by (auto simp: base_uint_bits_def)

section \<open>Division\<close>

lemma length_div_loop [simp]: "length (div_loop n num dv q) = length q"
  by (induction n num dv q rule: div_loop.induct) simp_all

text \<open>Setting a bit that is not yet set adds its weight.\<close>

lemma val_set_bit:
  assumes "i div 32 < length q" "\<not> bit (val q) i"
  shows "val (q[i div 32 := q ! (i div 32) OR push_bit (i mod 32) 1]) = val q + 2 ^ i"
proof -
  let ?q = "q[i div 32 := q ! (i div 32) OR push_bit (i mod 32) 1]"
  have "val ?q = val q OR 2 ^ i"
  proof (rule bit_eqI)
    fix m
    have "m div 32 = i div 32 \<and> m mod 32 = i mod 32 \<longleftrightarrow> m = i"
      by (metis div_mult_mod_eq)
    then show "bit (val ?q) m \<longleftrightarrow> bit (val q OR 2 ^ i) m"
      using assms(1)
      by (auto simp: bit_val bit_or_iff bit_exp_iff nth_list_update bit_push_bit_iff bit_1_iff)
  qed
  also have "\<dots> = val q + 2 ^ i"
    using assms(2) by (intro disjunctive_add_eq_or [symmetric] bit_eqI) (auto simp: bit_and_iff bit_exp_iff)
  finally show ?thesis .
qed

text \<open>
  The loop invariant: the divisor is shifted by \<open>shift\<close>, the rest is below twice the shifted
  divisor, and the quotient collected so far has only bits above \<open>shift\<close>.
\<close>

lemma val_div_loop:
  assumes "length num = length dv" "length q = length dv" "0 < B"
    "n = 0 \<or> val dv = B * 2 ^ (n - 1)" "val num < B * 2 ^ n"
    "2 ^ n dvd val q" "n \<le> 32 * length q"
  shows "val (div_loop n num dv q) = val q + val num div B"
  using assms
proof (induction n num dv q rule: div_loop.induct)
  case (1 num dv q)
  then show ?case by simp
next
  case (2 s num dv q)
  let ?dv = "base_uint_shr dv 1"
  have dv: "val dv = B * 2 ^ s" using "2.prems"(4) by simp
  have dv': "s = 0 \<or> val ?dv = B * 2 ^ (s - 1)"
    by (cases s) (simp_all add: val_shr dv)
  have dvd: "2 ^ s dvd val q" using "2.prems"(6) by (metis dvd_mult_right power_Suc)
  show ?case
  proof (cases "CompareTo num dv \<ge> 0")
    case False
    then have lt: "val num < B * 2 ^ s" using CompareTo_ge [of num dv] "2.prems" dv by simp
    have "val (div_loop s num ?dv q) = val q + val num div B"
      using "2.IH"(2) [OF False] "2.prems" dv' lt dvd by simp
    with False show ?thesis by simp
  next
    case True
    then have ge: "B * 2 ^ s \<le> val num" using CompareTo_ge [of num dv] "2.prems" dv by simp
    let ?q = "q[s div 32 := q ! (s div 32) OR push_bit (s mod 32) 1]" and ?num = "base_uint_sub num dv"
    have num: "val ?num = val num - B * 2 ^ s" using val_sub_ge [of num dv] "2.prems" dv ge by simp
    obtain x where "val q = 2 ^ Suc s * x" using "2.prems"(6) by (rule dvdE)
    then have "\<not> bit (val q) s" by (simp add: bit_iff_odd)
    moreover have "s div 32 < length q" using "2.prems"(7) by (simp add: div_less_iff_less_mult)
    ultimately have q: "val ?q = val q + 2 ^ s" by (intro val_set_bit)
    have "val (div_loop s ?num ?dv ?q) = val ?q + val ?num div B"
      using "2.IH"(1) [OF True] "2.prems" dv' dvd num q by simp
    also have "\<dots> = val q + val num div B"
    proof -
      have "val num = val ?num + 2 ^ s * B" using num by simp
      then have "val num div B = val ?num div B + 2 ^ s" using "2.prems"(3) by simp
      then show ?thesis using q by simp
    qed
    finally show ?thesis using True by simp
  qed
qed

lemma base_uint_div_None: "base_uint_div a b = None \<longleftrightarrow> val b = 0"
  by (simp add: base_uint_div_def Let_def base_uint_bits_zero)

lemma val_div:
  assumes "length a = length b" "val b \<noteq> 0"
  shows "\<exists>q. base_uint_div a b = Some q \<and> length q = length a \<and> val q = val a div val b"
proof -
  define n m where "n = base_uint_bits a" and "m = base_uint_bits b"
  have m0: "m \<noteq> 0" using assms by (simp add: m_def base_uint_bits_zero)
  have b: "0 < val b" using assms val_nonneg [of b] by linarith
  have bm: "2 ^ (m - 1) \<le> val b" "val b < 2 ^ m"
    using assms val_ge_bits [of b] val_less_bits [of b] by (simp_all add: m_def)
  have an: "val a < 2 ^ n" using val_less_bits [of a] by (simp add: n_def)
  show ?thesis
  proof (cases "m > n")
    case True
    then have "(2::int) ^ n \<le> 2 ^ (m - 1)" by (intro power_increasing) simp_all
    then have "val a < val b" using an bm by linarith
    then have "val a div val b = 0" by (simp add: div_pos_pos_trivial)
    then show ?thesis using True m0 by (simp add: base_uint_div_def n_def m_def)
  next
    case False
    let ?s = "n - m" and ?q = "replicate (length a) 0 :: base_uint"
    have n: "n \<le> 32 * length a" using base_uint_bits_le [of a] by (simp add: n_def)
    have "val b * 2 ^ ?s < 2 ^ m * 2 ^ ?s" using bm by simp
    also have "\<dots> = 2 ^ n" using False by (simp flip: power_add)
    also have "\<dots> \<le> 2 ^ (32 * length b)" using n assms by (intro power_increasing) simp_all
    finally have dv: "val (base_uint_shl b ?s) = val b * 2 ^ ?s"
      using b by (simp add: val_shl)
    have "(2::int) ^ n = 2 ^ (m - 1) * 2 ^ Suc ?s" using False m0 by (simp flip: power_add power_Suc)
    also have "\<dots> \<le> val b * 2 ^ Suc ?s" using bm by (intro mult_right_mono) simp_all
    finally have lt: "val a < val b * 2 ^ Suc ?s" using an by linarith
    have "Suc ?s \<le> 32 * length a" using n m0 False by simp
    then have "val (div_loop (Suc ?s) a (base_uint_shl b ?s) ?q) = val ?q + val a div val b"
      using assms b dv lt by (intro val_div_loop) simp_all
    then show ?thesis
      using False m0 by (simp add: base_uint_div_def n_def m_def Let_def)
  qed
qed

section \<open>Properties\<close>

text \<open>
  C10. Long division by shift and subtract is division of the numbers: for a non-zero divisor of the same
  width it returns the quotient, rounded down, and it fails exactly on a zero divisor.
\<close>

theorem base_uint_div_correct:
  assumes "length a = length b"
  shows "map_option val (base_uint_div a b) = (if val b = 0 then None else Some (val a div val b))"
  using val_div [OF assms] base_uint_div_None [of a b] by auto

theorem base_uint_div_correct_witness:
  "map_option val (base_uint_div [7, 1] [2, 0]) = Some (4294967303 div 2)"
  using base_uint_div_correct [of "[7, 1]" "[2, 0]"] by simp

text \<open>
  C11. The schoolbook product on 32-bit digits is the product of the numbers modulo \<open>2^(32 * digits)\<close>, and
  so are the product with one digit, the sum and the difference.
\<close>

theorem base_uint_arith_modular:
  assumes "length a = length b"
  shows "val (base_uint_mul a b) = val a * val b mod 2 ^ (32 * length a) \<and>
    val (base_uint_mul32 a w) = val a * uint w mod 2 ^ (32 * length a) \<and>
    val (base_uint_add a b) = (val a + val b) mod 2 ^ (32 * length a) \<and>
    val (base_uint_sub a b) = (val a - val b) mod 2 ^ (32 * length a)"
  using assms by (simp add: val_mul val_mul32 val_add val_sub)

theorem base_uint_arith_modular_witness:
  "val (base_uint_mul [0xffffffff, 0xffffffff] [0xffffffff, 0xffffffff]) = 1"
  using base_uint_arith_modular [of "[0xffffffff, 0xffffffff]" "[0xffffffff, 0xffffffff]"] by simp

end
