(* ===== verification/Compact.thy ===== *)
theory Compact
  imports BigUint
begin

unbundle bit_operations_syntax

text \<open>
  \<open>arith_uint256\<close> and its compact 32-bit form (\<open>arith_uint256.cpp\<close>): \<open>SetCompact\<close> with its
  sign and overflow flags and \<open>GetCompact\<close>. A 256-bit value is a digit list of length 8.
\<close>

definition WIDTH :: nat where
  "WIDTH = 8"

definition arith_uint256 :: "64 word \<Rightarrow> base_uint" where
  "arith_uint256 b = base_uint_of_u64 WIDTH b"

definition SetCompact :: "32 word \<Rightarrow> base_uint \<times> bool \<times> bool" where
  "SetCompact nCompact =
     (let nSize = unat (drop_bit 24 nCompact);
          nWord = nCompact AND 0x007fffff;
          (bn, nWord) =
            (if nSize \<le> 3
             then let nWord = drop_bit (8 * (3 - nSize)) nWord in (arith_uint256 (ucast nWord), nWord)
             else (base_uint_shl (arith_uint256 (ucast nWord)) (8 * (nSize - 3)), nWord));
          fNegative = (nWord \<noteq> 0 \<and> nCompact AND 0x00800000 \<noteq> 0);
          fOverflow = (nWord \<noteq> 0 \<and> (nSize > 34 \<or> (nWord > 0xff \<and> nSize > 33)
                                      \<or> (nWord > 0xffff \<and> nSize > 32)))
      in (bn, fNegative, fOverflow))"

definition CeilDiv :: "nat \<Rightarrow> nat \<Rightarrow> nat" where
  "CeilDiv dividend divisor = dividend div divisor + (if dividend mod divisor \<noteq> 0 then 1 else 0)"

text \<open>The result is \<open>None\<close> where one of the two assertions of the source fails.\<close>

definition GetCompact :: "base_uint \<Rightarrow> bool \<Rightarrow> 32 word option" where
  "GetCompact a fNegative =
     (let nSize = CeilDiv (base_uint_bits a) 8;
          nCompact = (if nSize \<le> 3 then ucast (push_bit (8 * (3 - nSize)) (GetLow64 a))
                      else ucast (GetLow64 (base_uint_shr a (8 * (nSize - 3)))) :: 32 word);
          (nCompact, nSize) =
            (if nCompact AND 0x00800000 \<noteq> 0 then (drop_bit 8 nCompact, nSize + 1)
             else (nCompact, nSize))
      in if nCompact AND NOT 0x007fffff \<noteq> 0 \<or> nSize \<ge> 256 then None
         else
           let nCompact = nCompact OR push_bit 24 (word_of_nat nSize) in
           Some (nCompact OR (if fNegative \<and> nCompact AND 0x007fffff \<noteq> 0 then 0x00800000 else 0)))"

section \<open>The 32-bit word as size and mantissa\<close>

lemma val_arith_uint256 [simp]: "val (arith_uint256 b) = uint b"
proof -
  have "uint b div 2 ^ 32 < 2 ^ 32" using uint_lt2p [of b] by simp
  then have "uint (ucast (drop_bit 32 b) :: 32 word) = uint b div 2 ^ 32"
    by (simp add: unsigned_ucast_eq take_bit_eq_mod drop_bit_eq_div uint_div mod_pos_pos_trivial
        pos_imp_zdiv_nonneg_iff)
  moreover have "uint (ucast b :: 32 word) = uint b mod 2 ^ 32"
    by (simp add: unsigned_ucast_eq take_bit_eq_mod)
  ultimately show ?thesis by (simp add: arith_uint256_def base_uint_of_u64_def)
qed

lemma length_arith_uint256 [simp]: "length (arith_uint256 b) = 8"
  by (simp add: arith_uint256_def base_uint_of_u64_def WIDTH_def)

lemma uint_and_mask23: "uint (c AND 0x007fffff :: 32 word) = uint c mod 2 ^ 23"
proof -
  have "c AND 0x007fffff = take_bit 23 c" by (simp add: take_bit_eq_mask mask_eq_exp_minus_1)
  then show ?thesis by (simp add: take_bit_eq_mod uint_mod)
qed

lemma and_bit23: "c AND 0x00800000 \<noteq> 0 \<longleftrightarrow> bit (c :: 32 word) 23"
  using and_exp_eq_0_iff_not_bit [of c 23] by simp

lemma bit23_less: "uint (c :: 32 word) < 2 ^ 24 \<Longrightarrow> bit c 23 \<longleftrightarrow> 2 ^ 23 \<le> uint c"
proof -
  assume a: "uint c < 2 ^ 24"
  have "bit c 23 \<longleftrightarrow> odd (uint c div 2 ^ 23)"
    using bit_uint_iff [of c 23] by (simp add: bit_iff_odd)
  moreover have "uint c div 2 ^ 23 = (if 2 ^ 23 \<le> uint c then 1 else 0)"
    using a by (auto intro: int_div_pos_eq [where r = "uint c - 2 ^ 23"] div_pos_pos_trivial)
  ultimately show ?thesis by (simp split: if_splits)
qed

lemma uint_drop_bit32: "uint (drop_bit n (c :: 32 word)) = uint c div 2 ^ n"
  unfolding unsigned_drop_bit_eq
  using uint_lt2p [of c] by (simp add: drop_bit_eq_div take_bit_int_eq_self)

lemma size_mantissa_join:
  fixes m :: "32 word"
  assumes "uint m < 2 ^ 23" "n < 256"
  shows "uint (m OR push_bit 24 (word_of_nat n)) = uint m + 2 ^ 24 * int n"
proof -
  have n: "uint (word_of_nat n :: 32 word) = int n"
    using assms(2) by (simp add: unsigned_of_nat take_bit_nat_eq_self)
  have le: "2 ^ 24 * int n \<le> 2 ^ 24 * 255" using assms(2) by simp
  have p: "uint (push_bit 24 (word_of_nat n :: 32 word)) = 2 ^ 24 * int n"
    using le by (simp add: push_bit_eq_mult uint_word_ariths n mult.commute take_bit_int_eq_self)
  have "m AND push_bit 24 (word_of_nat n) = 0"
  proof (rule bit_eqI)
    fix i
    have "\<not> bit m i" if "24 \<le> i"
    proof -
      have "uint m < 2 ^ i" using assms(1) power_increasing [of 24 i "2 :: int"] that by simp
      then have "\<not> bit (uint m) i" by (simp add: bit_iff_odd)
      then show ?thesis using bit_imp_le_length [of m i] by (auto simp: bit_uint_iff)
    qed
    then show "bit (m AND push_bit 24 (word_of_nat n)) i \<longleftrightarrow> bit (0 :: 32 word) i"
      by (auto simp: bit_and_iff bit_push_bit_iff)
  qed
  then have "m OR push_bit 24 (word_of_nat n) = m + push_bit 24 (word_of_nat n)"
    by (rule disjunctive_add_eq_or [symmetric])
  then show ?thesis using p le assms(1) by (simp add: uint_word_ariths)
qed

section \<open>What \<open>SetCompact\<close> computes\<close>

lemma SetCompact_join:
  assumes "uint c = w + 2 ^ 24 * int n" "0 \<le> w" "w < 2 ^ 23" "n \<le> 33" "n = 33 \<longrightarrow> w < 2 ^ 16"
  shows "\<exists>bn. SetCompact c = (bn, False, False) \<and> length bn = 8 \<and>
    val bn = (if n \<le> 3 then w div 2 ^ (8 * (3 - n)) else w * 2 ^ (8 * (n - 3)))"
proof -
  have sz: "unat (drop_bit 24 c) = n"
  proof -
    have "uint (drop_bit 24 c) = int n" using assms(1-3) by (simp add: uint_drop_bit32)
    then show ?thesis by (metis nat_int unat_eq_nat_uint)
  qed
  have "(w + (2 * int n) * 2 ^ 23) mod 2 ^ 23 = w"
    using assms(2,3) by (simp only: mod_mult_self1 mod_pos_pos_trivial)
  then have w: "uint (c AND 0x007fffff) = w"
    using assms(1) by (simp add: uint_and_mask23 mult.commute)
  have neg: "c AND 0x00800000 = 0"
  proof -
    have "uint c div 2 ^ 23 = 2 * int n" using assms(1-3) by simp
    then have "\<not> bit (uint c) 23" by (simp add: bit_iff_odd)
    then show ?thesis using and_bit23 [of c] by (simp add: bit_uint_iff)
  qed
  have gt: "c AND 0x007fffff > 0xffff \<longleftrightarrow> 0xffff < w" using w by (simp add: word_less_def)
  show ?thesis
  proof (cases "n \<le> 3")
    case True
    have "uint (drop_bit (8 * (3 - n)) (c AND 0x007fffff)) = w div 2 ^ (8 * (3 - n))"
      by (simp only: uint_drop_bit32 w)
    then show ?thesis
      using True by (simp add: SetCompact_def sz neg Let_def del: drop_bit_and)
  next
    case False
    have lt: "w * 2 ^ (8 * (n - 3)) < 2 ^ 256"
    proof (cases "n = 33")
      case True
      then show ?thesis using assms(2-5) by simp
    next
      case F: False
      have "w * 2 ^ (8 * (n - 3)) < 2 ^ 23 * 2 ^ (8 * (n - 3))" using assms(3) by simp
      also have "\<dots> \<le> 2 ^ 23 * 2 ^ (8 * 29)" using F assms(4) by (intro mult_left_mono power_increasing) simp_all
      finally show ?thesis by simp
    qed
    have "val (base_uint_shl (arith_uint256 (ucast (c AND 0x007fffff))) (8 * (n - 3)))
        = w * 2 ^ (8 * (n - 3))"
      using lt assms(2) by (simp add: val_shl w)
    then show ?thesis
      using False assms(4,5) gt by (auto simp: SetCompact_def sz neg Let_def)
  qed
qed

section \<open>What \<open>GetCompact\<close> computes\<close>

lemma CeilDiv_bounds: "b \<le> 8 * CeilDiv b 8" "8 * CeilDiv b 8 < b + 8"
  unfolding CeilDiv_def by (simp_all, presburger+)

lemma uint_GetLow64:
  assumes "2 \<le> length a"
  shows "uint (GetLow64 a) = val a mod 2 ^ 64"
proof -
  obtain p q r where a: "a = p # q # r"
    using assms by (metis Suc_le_length_iff numeral_2_eq_2)
  have "ucast p AND push_bit 32 (ucast q :: 64 word) = 0"
    by (rule bit_eqI) (auto simp: bit_and_iff bit_push_bit_iff bit_ucast_iff dest: bit_imp_le_length)
  then have "GetLow64 a = ucast p + push_bit 32 (ucast q)"
    by (simp add: GetLow64_def a disjunctive_add_eq_or)
  then have "uint (GetLow64 a) = (uint p + 2 ^ 32 * uint q) mod 2 ^ 64"
    by (simp add: push_bit_eq_mult uint_word_ariths mult.commute mod_add_right_eq)
  moreover have "val a = (uint p + 2 ^ 32 * uint q) + val r * 2 ^ 64" by (simp add: a)
  ultimately show ?thesis by (simp only: mod_mult_self1)
qed

text \<open>The mantissa of the code before the sign bit is avoided: the top three bytes of the value.\<close>

definition mantissa :: "int \<Rightarrow> nat \<Rightarrow> int" where
  "mantissa v n = (if n \<le> 3 then v * 2 ^ (8 * (3 - n)) else v div 2 ^ (8 * (n - 3)))"

lemma mantissa_bound:
  assumes "0 \<le> v" "v < 2 ^ (8 * n)"
  shows "0 \<le> mantissa v n" "mantissa v n < 2 ^ 24"
proof -
  show "0 \<le> mantissa v n" using assms(1) by (simp add: mantissa_def pos_imp_zdiv_nonneg_iff)
  show "mantissa v n < 2 ^ 24"
  proof (cases "n \<le> 3")
    case True
    then have "v * 2 ^ (8 * (3 - n)) < 2 ^ (8 * n) * 2 ^ (8 * (3 - n))" using assms(2) by simp
    also have "\<dots> = 2 ^ (8 * n + 8 * (3 - n))" by (simp only: power_add)
    also have "8 * n + 8 * (3 - n) = 24" using True by simp
    finally show ?thesis using True by (simp add: mantissa_def)
  next
    case False
    then have "8 * n = 24 + 8 * (n - 3)" by simp
    then have "(2 :: int) ^ (8 * n) = 2 ^ 24 * 2 ^ (8 * (n - 3))" by (metis power_add)
    then show ?thesis
      using False assms int_div_less [of "2 ^ (8 * (n - 3))" v "2 ^ 24"] by (simp add: mantissa_def)
  qed
qed

lemma uint_ucast32:
  "uint (ucast (x :: 64 word) :: 32 word) = uint x mod 2 ^ 32"
  by (simp add: unsigned_ucast_eq take_bit_eq_mod)

lemma GetCompact_mantissa:
  assumes "length a = 8" and n: "n = CeilDiv (base_uint_bits a) 8"
  shows "uint ((if n \<le> 3 then ucast (push_bit (8 * (3 - n)) (GetLow64 a))
      else ucast (GetLow64 (base_uint_shr a (8 * (n - 3))))) :: 32 word) = mantissa (val a) n"
proof -
  have "val a < 2 ^ base_uint_bits a" by (rule val_less_bits)
  also have "\<dots> \<le> 2 ^ (8 * n)" unfolding n by (intro power_increasing CeilDiv_bounds) simp
  finally have lt: "val a < 2 ^ (8 * n)" .
  note m = mantissa_bound [OF val_nonneg lt]
  show ?thesis
  proof (cases "n \<le> 3")
    case True
    have "val a < 2 ^ 24"
      using lt power_increasing [of "8 * n" 24 "2 :: int"] True by simp
    then have "uint (GetLow64 a) = val a" using assms(1) by (simp add: uint_GetLow64)
    moreover have "mantissa (val a) n = val a * 2 ^ (8 * (3 - n))" using True by (simp add: mantissa_def)
    ultimately have "uint (push_bit (8 * (3 - n)) (GetLow64 a)) = mantissa (val a) n"
      using m unfolding unsigned_push_bit_eq by (simp add: push_bit_eq_mult take_bit_int_eq_self)
    then show ?thesis using True m by (simp add: uint_ucast32)
  next
    case False
    then have "uint (GetLow64 (base_uint_shr a (8 * (n - 3)))) = mantissa (val a) n mod 2 ^ 64"
      using assms(1) by (simp add: uint_GetLow64 val_shr mantissa_def)
    then show ?thesis using False m by (simp add: uint_ucast32)
  qed
qed

lemma and_not_mask23: "uint (m :: 32 word) < 2 ^ 23 \<Longrightarrow> m AND NOT 0x007fffff = 0"
proof -
  assume a: "uint m < 2 ^ 23"
  have "m AND 0x007fffff = m"
    using a uint_and_mask23 [of m] by (simp add: word_uint_eq_iff)
  then have "m AND NOT 0x007fffff = (m AND 0x007fffff) AND NOT 0x007fffff" by simp
  also have "\<dots> = 0" by (simp add: and.assoc)
  finally show ?thesis .
qed

lemma GetCompact_join:
  assumes "length a = 8" and n: "n = CeilDiv (base_uint_bits a) 8"
    and carry: "carry \<longleftrightarrow> 2 ^ 23 \<le> mantissa (val a) n"
    and w: "w = (if carry then mantissa (val a) n div 2 ^ 8 else mantissa (val a) n)"
    and n': "n' = (if carry then n + 1 else n)"
  shows "\<exists>c. GetCompact a False = Some c \<and> uint c = w + 2 ^ 24 * int n'"
proof -
  define m :: "32 word" where "m = (if n \<le> 3 then ucast (push_bit (8 * (3 - n)) (GetLow64 a))
      else ucast (GetLow64 (base_uint_shr a (8 * (n - 3)))))"
  have m: "uint m = mantissa (val a) n" unfolding m_def by (rule GetCompact_mantissa [OF assms(1,2)])
  have "val a < 2 ^ base_uint_bits a" by (rule val_less_bits)
  also have "\<dots> \<le> 2 ^ (8 * n)" unfolding n by (intro power_increasing CeilDiv_bounds) simp
  finally have lt: "uint m < 2 ^ 24" unfolding m by (intro mantissa_bound) simp_all
  have c: "m AND 0x00800000 \<noteq> 0 \<longleftrightarrow> carry"
    unfolding and_bit23 carry m [symmetric] by (rule bit23_less [OF lt])
  define k where "k = (if carry then drop_bit 8 m else m)"
  have k: "uint k = w"
    unfolding k_def w m [symmetric] by (simp add: uint_drop_bit32 [of 8, simplified])
  have wlt: "uint k < 2 ^ 23"
    using lt by (cases carry) (simp_all add: k w m carry div_less_iff_less_mult)
  have "base_uint_bits a \<le> 256" using base_uint_bits_le [of a] assms(1) by simp
  then have n32: "n' < 256" using CeilDiv_bounds(2) [of "base_uint_bits a"] by (auto simp: n' n)
  have "GetCompact a False = Some (k OR push_bit 24 (word_of_nat n'))"
    using c and_not_mask23 [OF wlt] n32
    by (cases carry)
      (simp_all add: GetCompact_def Let_def n [symmetric] m_def [symmetric] k_def n' del: push_bit_of_nat)
  then show ?thesis using size_mantissa_join [OF wlt n32] k by simp
qed

lemma mantissa_expand:
  assumes "0 \<le> v" "v < 2 ^ (8 * n)" "n = 0 \<or> 2 ^ (8 * (n - 1)) \<le> v"
    and carry: "carry \<longleftrightarrow> 2 ^ 23 \<le> mantissa v n"
    and w: "w = (if carry then mantissa v n div 2 ^ 8 else mantissa v n)"
    and n': "n' = (if carry then n + 1 else n)"
  shows "(if n' \<le> 3 then w div 2 ^ (8 * (3 - n')) else w * 2 ^ (8 * (n' - 3)))
      = v div 2 ^ (8 * (n' - 3)) * 2 ^ (8 * (n' - 3))"
    and "n' \<le> 3 \<or> 2 ^ (8 * (n' - 3) + 15) \<le> v"
proof -
  show "(if n' \<le> 3 then w div 2 ^ (8 * (3 - n')) else w * 2 ^ (8 * (n' - 3)))
      = v div 2 ^ (8 * (n' - 3)) * 2 ^ (8 * (n' - 3))"
  proof (cases carry)
    case False
    then show ?thesis by (simp add: w n' mantissa_def)
  next
    case c: True
    consider (low) "n < 3" | (mid) "n = 3" | (high) "3 < n" by linarith
    then show ?thesis
    proof cases
      case low
      then have "8 * (3 - n) = 8 * (2 - n) + 8" by simp
      then have "(2 :: int) ^ (8 * (3 - n)) = 2 ^ (8 * (2 - n)) * 2 ^ 8" by (simp only: power_add)
      then show ?thesis using low c by (simp add: w n' mantissa_def)
    next
      case mid
      then show ?thesis using c by (simp add: w n' mantissa_def)
    next
      case high
      then have "8 * (n - 2) = 8 * (n - 3) + 8" by simp
      then have "(2 :: int) ^ (8 * (n - 2)) = 2 ^ (8 * (n - 3)) * 2 ^ 8" by (simp only: power_add)
      then have "v div 2 ^ (8 * (n - 3)) div 2 ^ 8 = v div 2 ^ (8 * (n - 2))"
        using zdiv_zmult2_eq [of "2 ^ 8" v "2 ^ (8 * (n - 3))"] by simp
      then show ?thesis using high c by (simp add: w n' mantissa_def)
    qed
  qed
  show "n' \<le> 3 \<or> 2 ^ (8 * (n' - 3) + 15) \<le> v"
  proof (cases carry)
    case False
    show ?thesis
    proof (cases "n \<le> 3")
      case F: False
      then have "(2 :: int) ^ (8 * (n - 3) + 15) \<le> 2 ^ (8 * (n - 1))" by (intro power_increasing) simp_all
      moreover have "2 ^ (8 * (n - 1)) \<le> v" using F assms(3) by auto
      ultimately have "2 ^ (8 * (n - 3) + 15) \<le> v" by linarith
      then show ?thesis using False by (simp add: n')
    qed (simp add: n' False)
  next
    case c: True
    show ?thesis
    proof (cases "n \<le> 2")
      case F: False
      then have "2 ^ 23 * 2 ^ (8 * (n - 3)) \<le> v"
      proof (cases "n = 3")
        case T: False
        then have "2 ^ 23 * 2 ^ (8 * (n - 3)) \<le> v div 2 ^ (8 * (n - 3)) * 2 ^ (8 * (n - 3))"
          using c carry F by (simp add: mantissa_def)
        also have "\<dots> \<le> v" by (rule int_div_mult_le) simp
        finally show ?thesis .
      qed (use c carry in \<open>simp add: mantissa_def\<close>)
      moreover have "8 * (n' - 3) + 15 = 23 + 8 * (n - 3)" using F c by (simp add: n')
      ultimately have "2 ^ (8 * (n' - 3) + 15) \<le> v" by (simp only: power_add)
      then show ?thesis by simp
    qed (simp add: n' c)
  qed
qed

lemma GetCompact_roundtrip:
  assumes "length a = 8"
  shows "\<exists>c bn k. GetCompact a False = Some c \<and> SetCompact c = (bn, False, False) \<and> length bn = 8 \<and>
    val bn = val a div 2 ^ k * 2 ^ k \<and> (k = 0 \<or> 2 ^ (k + 15) \<le> val a)"
proof -
  define n where "n = CeilDiv (base_uint_bits a) 8"
  define carry where "carry \<longleftrightarrow> 2 ^ 23 \<le> mantissa (val a) n"
  define w where "w = (if carry then mantissa (val a) n div 2 ^ 8 else mantissa (val a) n)"
  define n' where "n' = (if carry then n + 1 else n)"
  have hi: "val a < 2 ^ (8 * n)"
  proof -
    have "(2 :: int) ^ base_uint_bits a \<le> 2 ^ (8 * n)"
      unfolding n_def by (intro power_increasing CeilDiv_bounds) simp
    then show ?thesis using val_less_bits [of a] by linarith
  qed
  have lo: "n = 0 \<or> 2 ^ (8 * (n - 1)) \<le> val a"
  proof (cases "val a = 0")
    case True
    then show ?thesis using base_uint_bits_zero [of a] by (simp add: n_def CeilDiv_def)
  next
    case False
    have "8 * (n - 1) \<le> base_uint_bits a - 1"
      using CeilDiv_bounds [of "base_uint_bits a"] by (simp add: n_def)
    then have "(2 :: int) ^ (8 * (n - 1)) \<le> 2 ^ (base_uint_bits a - 1)" by (intro power_increasing) simp_all
    then show ?thesis using val_ge_bits [OF False] by linarith
  qed
  note m = mantissa_bound [OF val_nonneg hi]
  note e = mantissa_expand [OF val_nonneg hi lo carry_def w_def n'_def]
  obtain c where c: "GetCompact a False = Some c" "uint c = w + 2 ^ 24 * int n'"
    using GetCompact_join [OF assms n_def carry_def w_def n'_def] by blast
  have w: "0 \<le> w" "w < 2 ^ 23"
    using m by (auto simp: w_def carry_def pos_imp_zdiv_nonneg_iff int_div_less)
  have n: "n \<le> 32"
    using CeilDiv_bounds(2) [of "base_uint_bits a"] base_uint_bits_le [of a] assms by (simp add: n_def)
  then have "n' \<le> 33" "n' = 33 \<longrightarrow> w < 2 ^ 16"
    using m by (auto simp: n'_def w_def int_div_less)
  from SetCompact_join [OF c(2) w this] obtain bn where bn:
    "SetCompact c = (bn, False, False)" "length bn = 8"
    "val bn = val a div 2 ^ (8 * (n' - 3)) * 2 ^ (8 * (n' - 3))" unfolding e(1) by blast
  moreover have "8 * (n' - 3) = 0 \<or> 2 ^ (8 * (n' - 3) + 15) \<le> val a" using e(2) by auto
  ultimately show ?thesis using c(1) by blast
qed

section \<open>Properties\<close>

text \<open>
  C9. \<open>GetCompact\<close> of any 256-bit number passes both assertions, and \<open>SetCompact\<close> of the result decodes,
  without sign or overflow, to the number with its low \<open>k\<close> bits cleared, where at least 16
  significant bits are kept whenever anything is cleared.
\<close>

theorem compact_roundtrip:
  assumes "length a = 8"
  shows "\<exists>c bn k. GetCompact a False = Some c \<and> SetCompact c = (bn, False, False) \<and> length bn = 8 \<and>
    val bn = val a div 2 ^ k * 2 ^ k \<and> (k = 0 \<or> 2 ^ (k + 15) \<le> val a)"
  using assms by (rule GetCompact_roundtrip)

theorem compact_roundtrip_witness:
  "\<exists>c bn k. GetCompact (replicate 8 0xffffffff) False = Some c \<and> SetCompact c = (bn, False, False) \<and>
     val bn = val (replicate 8 0xffffffff) div 2 ^ k * 2 ^ k"
  using compact_roundtrip [of "replicate 8 0xffffffff"] by auto

end
