(* ===== verification/Uint256.thy ===== *)
theory Uint256
  imports Bytes Compact
begin

text \<open>
  The 256-bit hash (\<open>uint256.h\<close>) as its 32 bytes, and its conversion to and from the numbers of
  \<open>arith_uint256.cpp\<close>.
\<close>

type_synonym uint256 = "byte list"

definition uint256_wf :: "uint256 \<Rightarrow> bool" where
  "uint256_wf a \<longleftrightarrow> length a = 32"

definition uint256_null :: uint256 where
  "uint256_null = replicate 32 0"

definition IsNull :: "uint256 \<Rightarrow> bool" where
  "IsNull a \<longleftrightarrow> list_all (\<lambda>val. val = 0) a"

definition UintToArith256 :: "uint256 \<Rightarrow> base_uint" where
  "UintToArith256 a = map (\<lambda>x. ReadLE32 (drop (x * 4) a)) [0..<WIDTH]"

definition ArithToUint256 :: "base_uint \<Rightarrow> uint256" where
  "ArithToUint256 a = concat (map (\<lambda>x. WriteLE32 (a ! x)) [0..<WIDTH])"

lemma length_UintToArith256 [simp]: "length (UintToArith256 a) = 8"
  by (simp add: UintToArith256_def WIDTH_def)

lemma le_val_split4:
  "4 \<le> length a \<Longrightarrow> le_val a = le_val (take 4 a) + 2 ^ 32 * le_val (drop 4 a)"
  using le_val_append [of "take 4 a" "drop 4 a"] by simp

lemma val_map_ReadLE32:
  "length a = 4 * n \<Longrightarrow> val (map (\<lambda>x. ReadLE32 (drop (x * 4) a)) [0..<n]) = le_val a"
proof (induction n arbitrary: a)
  case (Suc n)
  have "map (\<lambda>x. ReadLE32 (drop (x * 4) a)) [0..<Suc n] =
      ReadLE32 a # map (\<lambda>x. ReadLE32 (drop (x * 4) (drop 4 a))) [0..<n]"
    by (simp add: upt_conv_Cons map_Suc_upt [symmetric] add.commute del: upt_Suc)
  then show ?case
    using Suc.IH [of "drop 4 a"] Suc.prems le_val_split4 [of a] by (simp add: uint_ReadLE32)
qed simp

lemma val_UintToArith256: "uint256_wf a \<Longrightarrow> val (UintToArith256 a) = le_val a"
  using val_map_ReadLE32 [of a 8] by (simp add: UintToArith256_def uint256_wf_def WIDTH_def)

lemma UintToArith256_inject:
  assumes "uint256_wf a" "uint256_wf b"
  shows "UintToArith256 a = UintToArith256 b \<longleftrightarrow> a = b"
proof
  assume "UintToArith256 a = UintToArith256 b"
  then have "le_val a = le_val b" using assms by (metis val_UintToArith256)
  then show "a = b" using assms le_bytes_le_val [of a] le_bytes_le_val [of b] by (simp add: uint256_wf_def)
qed simp

lemma concat_WriteLE32:
  "length a = 4 * n \<Longrightarrow> concat (map (\<lambda>x. WriteLE32 (ReadLE32 (drop (x * 4) a))) [0..<n]) = a"
proof (induction n arbitrary: a)
  case (Suc n)
  have "map (\<lambda>x. WriteLE32 (ReadLE32 (drop (x * 4) a))) [0..<Suc n] =
      WriteLE32 (ReadLE32 a) # map (\<lambda>x. WriteLE32 (ReadLE32 (drop (x * 4) (drop 4 a)))) [0..<n]"
    by (simp add: upt_conv_Cons map_Suc_upt [symmetric] add.commute del: upt_Suc)
  moreover have "ReadLE32 a = ReadLE32 (take 4 a)" by (simp add: ReadLE32_def)
  ultimately show ?case
    using Suc.IH [of "drop 4 a"] Suc.prems WriteLE32_ReadLE32 [of "take 4 a"] by simp
qed simp

lemma ArithToUint256_roundtrip:
  assumes "uint256_wf a"
  shows "ArithToUint256 (UintToArith256 a) = a"
proof -
  have "ArithToUint256 (UintToArith256 a)
      = concat (map (\<lambda>x. WriteLE32 (ReadLE32 (drop (x * 4) a))) [0..<WIDTH])"
    unfolding ArithToUint256_def UintToArith256_def
    by (intro arg_cong [of _ _ concat] map_cong) (simp_all del: upt_Suc)
  then show ?thesis using concat_WriteLE32 [of a 8] assms by (simp add: uint256_wf_def WIDTH_def)
qed

end
