(* ===== verification/Arith256.thy ===== *)
theory Arith256
  imports Compact
begin

text \<open>
  What the consensus code relies on from \<open>arith_uint256\<close>, as an interface: unsigned numbers of a
  fixed bit width with wrap-around addition, subtraction and multiplication, truncating division
  that fails on zero, and comparison. The computations the difficulty and chain-work code builds
  from these operations are analysed once over the interface; the interpretation at the end
  discharges its laws for the digit lists of the implementation.
\<close>

locale modular_uint =
  fixes width :: nat
    and wf :: "'a \<Rightarrow> bool"
    and num :: "'a \<Rightarrow> int"
    and of64 :: "64 word \<Rightarrow> 'a"
    and add :: "'a \<Rightarrow> 'a \<Rightarrow> 'a"
    and sub :: "'a \<Rightarrow> 'a \<Rightarrow> 'a"
    and mul :: "'a \<Rightarrow> 'a \<Rightarrow> 'a"
    and mul32 :: "'a \<Rightarrow> 32 word \<Rightarrow> 'a"
    and compl :: "'a \<Rightarrow> 'a"
    and quot :: "'a \<Rightarrow> 'a \<Rightarrow> 'a option"
    and cmp :: "'a \<Rightarrow> 'a \<Rightarrow> int"
    and eq64 :: "'a \<Rightarrow> 64 word \<Rightarrow> bool"
  assumes width64: "64 \<le> width"
    and num_nonneg: "0 \<le> num a"
    and num_less: "wf a \<Longrightarrow> num a < 2 ^ width"
    and wf_of64: "wf (of64 w)"
    and num_of64: "num (of64 w) = uint w"
    and wf_add: "wf a \<Longrightarrow> wf b \<Longrightarrow> wf (add a b)"
    and num_add: "wf a \<Longrightarrow> wf b \<Longrightarrow> num (add a b) = (num a + num b) mod 2 ^ width"
    and wf_sub: "wf a \<Longrightarrow> wf b \<Longrightarrow> wf (sub a b)"
    and num_sub: "wf a \<Longrightarrow> wf b \<Longrightarrow> num (sub a b) = (num a - num b) mod 2 ^ width"
    and wf_mul: "wf a \<Longrightarrow> wf b \<Longrightarrow> wf (mul a b)"
    and num_mul: "wf a \<Longrightarrow> wf b \<Longrightarrow> num (mul a b) = num a * num b mod 2 ^ width"
    and wf_mul32: "wf a \<Longrightarrow> wf (mul32 a r)"
    and num_mul32: "wf a \<Longrightarrow> num (mul32 a r) = num a * uint r mod 2 ^ width"
    and wf_compl: "wf a \<Longrightarrow> wf (compl a)"
    and num_compl: "wf a \<Longrightarrow> num (compl a) = 2 ^ width - 1 - num a"
    and quot_zero: "num b = 0 \<Longrightarrow> quot a b = None"
    and num_quot: "wf a \<Longrightarrow> wf b \<Longrightarrow> num b \<noteq> 0 \<Longrightarrow>
      \<exists>q. quot a b = Some q \<and> wf q \<and> num q = num a div num b"
    and cmp_sgn: "wf a \<Longrightarrow> wf b \<Longrightarrow> cmp a b = sgn (num a - num b)"
    and eq64_iff: "wf a \<Longrightarrow> eq64 a w \<longleftrightarrow> num a = uint w"
begin

lemma cmp_iffs:
  assumes "wf a" "wf b"
  shows "cmp a b > 0 \<longleftrightarrow> num b < num a" "cmp a b < 0 \<longleftrightarrow> num a < num b" "cmp a b \<ge> 0 \<longleftrightarrow> num b \<le> num a"
  using assms by (simp_all add: cmp_sgn sgn_if)

lemma num_add_exact:
  "wf a \<Longrightarrow> wf b \<Longrightarrow> num a + num b < 2 ^ width \<Longrightarrow> num (add a b) = num a + num b"
  by (simp add: num_add num_nonneg)

text \<open>\<open>~t / (t + 1) + 1\<close> is \<open>2^width / (t + 1)\<close>, computed without leaving the width.\<close>

lemma inverse_plus_one:
  assumes "wf t" "0 < num t" "num t < 2 ^ width - 1"
  shows "\<exists>q. quot (compl t) (add t (of64 1)) = Some q \<and> wf (add q (of64 1)) \<and>
    num (add q (of64 1)) = 2 ^ width div (num t + 1) \<and> \<not> eq64 (add q (of64 1)) 0"
proof -
  have t1: "num (add t (of64 1)) = num t + 1"
    using assms by (intro num_add_exact [THEN trans]) (simp_all add: wf_of64 num_of64)
  obtain q where q: "quot (compl t) (add t (of64 1)) = Some q" "wf q"
    "num q = (2 ^ width - 1 - num t) div (num t + 1)"
    using num_quot [OF wf_compl wf_add [OF _ wf_of64], of t t 1] assms by (auto simp: t1 num_compl)
  have e: "(2 ^ width - 1 - num t) div (num t + 1) + 1 = 2 ^ width div (num t + 1)"
    using div_add_self2 [of "num t + 1" "2 ^ width - 1 - num t"] assms by simp
  have "2 ^ width div (num t + 1) < 2 ^ width" using assms by (intro int_div_less_self) simp_all
  then have n: "num (add q (of64 1)) = 2 ^ width div (num t + 1)"
    using q e num_add_exact [of q "of64 1"] by (simp add: wf_of64 num_of64)
  have "0 < 2 ^ width div (num t + 1)" using assms by (simp add: pos_imp_zdiv_pos_iff)
  then show ?thesis using q n by (simp add: eq64_iff wf_add wf_of64)
qed

text \<open>Scaling by a fraction; the product wraps, so the result is the fraction of the value only while it fits.\<close>

lemma scale:
  assumes "wf t" "s \<noteq> 0"
  shows "\<exists>q. quot (mul32 t r) (of64 s) = Some q \<and> wf q \<and>
    num q = (num t * uint r) mod 2 ^ width div uint s"
  using num_quot [OF wf_mul32 wf_of64, of t s r] assms
  by (simp add: num_of64 num_mul32 word_uint_eq_iff)

lemma clamp:
  assumes "wf t" "wf l"
    and c: "c = (if cmp t l > 0 then l else t)" and d: "d = (if eq64 c 0 then of64 1 else c)"
  shows "wf d" "num d = max 1 (min (num t) (num l))"
proof -
  have wc: "wf c" "num c = min (num t) (num l)" using assms(1,2) by (auto simp: c cmp_iffs)
  then show "wf d" by (simp add: d wf_of64)
  show "num d = max 1 (min (num t) (num l))"
    using wc num_nonneg [of t] num_nonneg [of l] by (auto simp: d eq64_iff num_of64)
qed

end

lemma val_div_8:
  assumes "length a = 8" "length b = 8" "val b \<noteq> 0"
  shows "\<exists>q. base_uint_div a b = Some q \<and> length q = 8 \<and> val q = val a div val b"
  using val_div [of a b] assms by simp

lemma val_less_8: "length a = 8 \<Longrightarrow> val a < 2 ^ 256"
  using val_less [of a] by simp

interpretation u256: modular_uint 256 "\<lambda>a. length a = 8" val arith_uint256 base_uint_add
  base_uint_sub base_uint_mul base_uint_mul32 base_uint_not base_uint_div CompareTo EqualTo
  by unfold_locales
    (simp_all add: val_less_8 [simplified] val_div_8 val_add val_sub val_mul val_mul32 base_uint_not_def val_map_NOT
      base_uint_div_None CompareTo_val EqualTo_val)

lemmas u256_lengths = u256.wf_of64 u256.wf_add u256.wf_sub u256.wf_mul u256.wf_mul32 u256.wf_compl

lemma length_SetCompact: "SetCompact c = (bn, neg, ovf) \<Longrightarrow> length bn = 8"
  by (auto simp: SetCompact_def Let_def split: if_splits)

end
