(* ===== verification/BlockIndex.thy ===== *)
theory BlockIndex
  imports Uint256 Arith256 "HOL-Library.Monad_Syntax"
begin

unbundle bit_operations_syntax

text \<open>
  The tree of block index entries (\<open>chain.h\<close>, \<open>chain.cpp\<close>, \<open>node/blockstorage.cpp\<close>): the entries,
  their validity level, the skip list behind \<open>GetAncestor\<close>, the work of a block, and
  \<open>AddToBlockIndex\<close>, which links a new header into the tree.

  The entries live in \<open>m_block_index\<close>, a map from block hash to entry whose elements never move.
  A pointer to an entry is therefore the hash it is stored under, \<open>nullptr\<close> is \<open>None\<close>, and a
  result \<open>None\<close> of an operation is a failed assertion or a null dereference.
\<close>

type_synonym ptr = "uint256 option"

record CBlockHeader =
  hdr_nVersion :: "32 word"
  hdr_hashPrevBlock :: uint256
  hdr_hashMerkleRoot :: uint256
  hdr_nTime :: "32 word"
  hdr_nBits :: "32 word"
  hdr_nNonce :: "32 word"

definition SEQ_ID_INIT_FROM_DISK :: int where
  "SEQ_ID_INIT_FROM_DISK = 1"

text \<open>The flags of \<open>enum BlockStatus\<close>.\<close>

definition BLOCK_VALID_TREE :: "32 word" where "BLOCK_VALID_TREE = 2"

definition BLOCK_VALID_MASK :: "32 word" where "BLOCK_VALID_MASK = 1 OR 2 OR 3 OR 4 OR 5"

definition BLOCK_HAVE_DATA :: "32 word" where "BLOCK_HAVE_DATA = 8"

definition BLOCK_HAVE_UNDO :: "32 word" where "BLOCK_HAVE_UNDO = 16"

definition BLOCK_FAILED_VALID :: "32 word" where "BLOCK_FAILED_VALID = 32"

record CBlockIndex =
  phashBlock :: ptr
  pprev :: ptr
  pskip :: ptr
  nHeight :: nat
  nChainWork :: base_uint
  nTx :: "32 word"
  nStatus :: "32 word"
  nVersion :: "32 word"
  hashMerkleRoot :: uint256
  nTime :: "32 word"
  nBits :: "32 word"
  nNonce :: "32 word"
  nSequenceId :: int
  nTimeMax :: "32 word"

type_synonym block_map = "uint256 \<Rightarrow> CBlockIndex option"

definition CBlockIndex_of_header :: "CBlockHeader \<Rightarrow> CBlockIndex" where
  "CBlockIndex_of_header block =
     \<lparr>phashBlock = None, pprev = None, pskip = None, nHeight = 0, nChainWork = arith_uint256 0,
      nTx = 0, nStatus = 0, nVersion = hdr_nVersion block,
      hashMerkleRoot = hdr_hashMerkleRoot block, nTime = hdr_nTime block, nBits = hdr_nBits block,
      nNonce = hdr_nNonce block, nSequenceId = SEQ_ID_INIT_FROM_DISK, nTimeMax = 0\<rparr>"

definition GetBlockTime :: "CBlockIndex \<Rightarrow> int" where
  "GetBlockTime b = uint (nTime b)"

definition GetBlockTimeMax :: "CBlockIndex \<Rightarrow> int" where
  "GetBlockTimeMax b = uint (nTimeMax b)"

definition IsValid :: "CBlockIndex \<Rightarrow> 32 word \<Rightarrow> bool option" where
  "IsValid b nUpTo =
     (if nUpTo AND NOT BLOCK_VALID_MASK \<noteq> 0 then None
      else if nStatus b AND BLOCK_FAILED_VALID \<noteq> 0 then Some False
      else Some (nStatus b AND BLOCK_VALID_MASK \<ge> nUpTo))"

definition RaiseValidity :: "CBlockIndex \<Rightarrow> 32 word \<Rightarrow> (CBlockIndex \<times> bool) option" where
  "RaiseValidity b nUpTo =
     (if nUpTo AND NOT BLOCK_VALID_MASK \<noteq> 0 then None
      else if nStatus b AND BLOCK_FAILED_VALID \<noteq> 0 then Some (b, False)
      else if nStatus b AND BLOCK_VALID_MASK < nUpTo
        then Some (b\<lparr>nStatus := (nStatus b AND NOT BLOCK_VALID_MASK) OR nUpTo\<rparr>, True)
      else Some (b, False))"

section \<open>The skip list\<close>

definition InvertLowestOne :: "nat \<Rightarrow> nat" where
  "InvertLowestOne n = n AND (n - 1)"

definition GetSkipHeight :: "nat \<Rightarrow> nat" where
  "GetSkipHeight height =
     (if height < 2 then 0
      else if height AND 1 \<noteq> 0 then InvertLowestOne (InvertLowestOne (height - 1)) + 1
      else InvertLowestOne height)"

lemma and_nat_le2: "a AND b \<le> (b :: nat)"
  using AND_upper2 [of "int b" "int a"] by (simp flip: of_nat_and_eq)

lemma InvertLowestOne_le: "InvertLowestOne n \<le> n - 1"
  by (simp add: InvertLowestOne_def and_nat_le2)

lemma GetSkipHeight_less: "0 < h \<Longrightarrow> GetSkipHeight h < h"
  using InvertLowestOne_le [of h] InvertLowestOne_le [of "h - 1"]
    InvertLowestOne_le [of "InvertLowestOne (h - 1)"]
  by (auto simp: GetSkipHeight_def)

text \<open>The loop of \<open>GetAncestor\<close>. It runs with \<open>0 <= height <= heightWalk\<close> only.\<close>

function ancestor_walk :: "block_map \<Rightarrow> nat \<Rightarrow> uint256 \<Rightarrow> nat \<Rightarrow> uint256 option" where
  "ancestor_walk m height pindexWalk heightWalk =
     (if heightWalk > height then
        case m pindexWalk of
          None \<Rightarrow> None
        | Some b \<Rightarrow>
            (let heightSkip = GetSkipHeight heightWalk;
                 heightSkipPrev = GetSkipHeight (heightWalk - 1);
                 follow = (heightSkip = height \<or>
                   (heightSkip > height \<and>
                    \<not> (heightSkipPrev + 2 < heightSkip \<and> heightSkipPrev \<ge> height)))
             in if pskip b \<noteq> None \<and> follow
                then ancestor_walk m height (the (pskip b)) heightSkip
                else case pprev b of
                       None \<Rightarrow> None
                     | Some q \<Rightarrow> ancestor_walk m height q (heightWalk - 1))
      else Some pindexWalk)"
  by pat_completeness auto
termination
  by (relation "measure (\<lambda>(m, height, p, heightWalk). heightWalk)") (auto simp: GetSkipHeight_less)

declare ancestor_walk.simps [simp del]

definition GetAncestor :: "block_map \<Rightarrow> uint256 \<Rightarrow> int \<Rightarrow> ptr option" where
  "GetAncestor m this height =
     (case m this of
        None \<Rightarrow> None
      | Some b \<Rightarrow>
          if height > int (nHeight b) \<or> height < 0 then Some None
          else map_option Some (ancestor_walk m (nat height) this (nHeight b)))"

definition BuildSkip :: "block_map \<Rightarrow> CBlockIndex \<Rightarrow> CBlockIndex option" where
  "BuildSkip m b =
     (case pprev b of
        None \<Rightarrow> Some b
      | Some q \<Rightarrow> map_option (\<lambda>s. b\<lparr>pskip := s\<rparr>) (GetAncestor m q (int (GetSkipHeight (nHeight b)))))"

section \<open>The work of a block\<close>

definition GetBitsProof :: "32 word \<Rightarrow> base_uint option" where
  "GetBitsProof bits =
     (let (bnTarget, fNegative, fOverflow) = SetCompact bits in
      if fNegative \<or> fOverflow \<or> EqualTo bnTarget 0 then Some (arith_uint256 0)
      else if CompareTo bnTarget (base_uint_not (arith_uint256 0)) \<ge> 0 then Some (arith_uint256 1)
      else do {
        q \<leftarrow> base_uint_div (base_uint_not bnTarget) (base_uint_add bnTarget (arith_uint256 1));
        let result = base_uint_add q (arith_uint256 1);
        Some (if EqualTo result 0 then arith_uint256 1 else result)
      })"

definition GetBlockProof :: "CBlockIndex \<Rightarrow> base_uint option" where
  "GetBlockProof block = GetBitsProof (nBits block)"

text \<open>\<open>sign * std::numeric_limits<int64_t>::max()\<close> where the quotient has more than 63 bits.\<close>

definition GetBlockProofEquivalentTime ::
  "CBlockIndex \<Rightarrow> CBlockIndex \<Rightarrow> CBlockIndex \<Rightarrow> 64 word \<Rightarrow> int option" where
  "GetBlockProofEquivalentTime to from tip nPowTargetSpacing =
     (let (r, sign) =
        (if CompareTo (nChainWork to) (nChainWork from) > 0
         then (base_uint_sub (nChainWork to) (nChainWork from), 1)
         else (base_uint_sub (nChainWork from) (nChainWork to), - 1))
      in do {
        proof \<leftarrow> GetBlockProof tip;
        r \<leftarrow> base_uint_div (base_uint_mul r (arith_uint256 nPowTargetSpacing)) proof;
        Some (if base_uint_bits r > 63 then sign * INT64_MAX else sign * uint (GetLow64 r))
      })"

section \<open>Linking a header into the tree\<close>

record BlockManager =
  m_block_index :: block_map
  m_dirty_blockindex :: "uint256 set"

text \<open>
  The hash of a header is an argument, \<open>GetHash\<close>. The new entry is in the map before its parent is
  looked up, as in the source. The last component of the result is the entry's address.
\<close>

definition AddToBlockIndex ::
  "(CBlockHeader \<Rightarrow> uint256) \<Rightarrow> BlockManager \<Rightarrow> CBlockHeader \<Rightarrow> ptr \<Rightarrow> (BlockManager \<times> ptr \<times> uint256) option" where
  "AddToBlockIndex GetHash bm block best_header =
     (let h = GetHash block; m = m_block_index bm in
      case m h of
        Some _ \<Rightarrow> Some (bm, best_header, h)
      | None \<Rightarrow> do {
          let new = (CBlockIndex_of_header block)\<lparr>nSequenceId := SEQ_ID_INIT_FROM_DISK, phashBlock := Some h\<rparr>;
          let m = m(h \<mapsto> new);
          new \<leftarrow> (case m (hdr_hashPrevBlock block) of
                    None \<Rightarrow> Some new
                  | Some prev \<Rightarrow>
                      let new = new\<lparr>pprev := Some (hdr_hashPrevBlock block), nHeight := nHeight prev + 1\<rparr>
                      in BuildSkip (m(h \<mapsto> new)) new);
          let m = m(h \<mapsto> new);
          let prev = Option.bind (pprev new) m;
          let new = new\<lparr>nTimeMax := (case prev of None \<Rightarrow> nTime new | Some p \<Rightarrow> max (nTimeMax p) (nTime new))\<rparr>;
          blockWork \<leftarrow> GetBlockProof new;
          let blockWork = (if EqualTo blockWork 0 then arith_uint256 1 else blockWork);
          let new = new\<lparr>nChainWork :=
            base_uint_add (case prev of None \<Rightarrow> arith_uint256 0 | Some p \<Rightarrow> nChainWork p) blockWork\<rparr>;
          let new = (case prev of
                       Some p \<Rightarrow> if CompareTo (nChainWork new) (nChainWork p) < 0
                                 then new\<lparr>nChainWork := base_uint_add (nChainWork p) blockWork\<rparr> else new
                     | None \<Rightarrow> new);
          (new, _) \<leftarrow> RaiseValidity new BLOCK_VALID_TREE;
          let m = m(h \<mapsto> new);
          best \<leftarrow> (case best_header of
                     None \<Rightarrow> Some (Some h)
                   | Some q \<Rightarrow> map_option
                       (\<lambda>bh. if CompareTo (nChainWork bh) (nChainWork new) < 0 then Some h else best_header) (m q));
          Some (bm\<lparr>m_block_index := m, m_dirty_blockindex := insert h (m_dirty_blockindex bm)\<rparr>, best, h)
        })"

section \<open>Ancestors, step by step\<close>

text \<open>The entry \<open>n\<close> parents above \<open>p\<close>: the reference for every walk through the tree.\<close>

fun up :: "block_map \<Rightarrow> nat \<Rightarrow> uint256 \<Rightarrow> uint256 option" where
  "up m 0 p = Some p"
| "up m (Suc n) p = (case m p of None \<Rightarrow> None | Some b \<Rightarrow> Option.bind (pprev b) (up m n))"

text \<open>
  A well-formed tree: a root has height 0 and no skip pointer; any other entry is one higher than
  its parent, and its skip pointer is the ancestor at the skip height.
\<close>

definition entry_wf :: "block_map \<Rightarrow> CBlockIndex \<Rightarrow> bool" where
  "entry_wf m b \<longleftrightarrow>
     (case pprev b of
        None \<Rightarrow> nHeight b = 0 \<and> pskip b = None
      | Some q \<Rightarrow> (case m q of
          None \<Rightarrow> False
        | Some c \<Rightarrow> nHeight b = Suc (nHeight c) \<and>
            pskip b = up m (nHeight c - GetSkipHeight (nHeight b)) q))"

definition block_map_wf :: "block_map \<Rightarrow> bool" where
  "block_map_wf m \<longleftrightarrow> (\<forall>p b. m p = Some b \<longrightarrow> entry_wf m b)"

lemma block_map_wfD: "block_map_wf m \<Longrightarrow> m p = Some b \<Longrightarrow> entry_wf m b"
  by (simp add: block_map_wf_def)

lemma wf_parent:
  assumes "block_map_wf m" "m p = Some b" "0 < nHeight b"
  obtains q c where "pprev b = Some q" "m q = Some c" "nHeight b = Suc (nHeight c)"
    "pskip b = up m (nHeight c - GetSkipHeight (nHeight b)) q"
  using block_map_wfD [OF assms(1,2)] assms(3)
  by (auto simp: entry_wf_def split: option.splits)

lemma wf_root:
  assumes "block_map_wf m" "m p = Some b" "nHeight b = 0"
  shows "pprev b = None" "pskip b = None"
  using block_map_wfD [OF assms(1,2)] assms(3)
  by (auto simp: entry_wf_def split: option.splits)

lemma up_add: "up m (a + n) p = Option.bind (up m a p) (up m n)"
proof (induction a arbitrary: p)
  case (Suc a)
  then show ?case by (cases "m p") (auto split: bind_split)
qed simp

lemma up_total:
  assumes "block_map_wf m" "m p = Some b" "n \<le> nHeight b"
  obtains q c where "up m n p = Some q" "m q = Some c" "nHeight c = nHeight b - n"
  using assms
proof (induction n arbitrary: p b thesis)
  case (Suc n)
  have "0 < nHeight b" using Suc.prems(4) by simp
  with Suc.prems(2,3) obtain q c where qc: "pprev b = Some q" "m q = Some c" "nHeight b = Suc (nHeight c)"
    by (rule wf_parent)
  obtain r d where "up m n q = Some r" "m r = Some d" "nHeight d = nHeight c - n"
    using Suc.IH [of q c] Suc.prems(2,4) qc by auto
  then show ?case using Suc.prems(1,3) qc by simp
qed simp

lemma up_None:
  assumes "block_map_wf m" "m p = Some b" "nHeight b < n"
  shows "up m n p = None"
proof -
  obtain q c where q: "up m (nHeight b) p = Some q" "m q = Some c" "nHeight c = 0"
    using up_total [OF assms(1,2), of "nHeight b"] by auto
  have "up m (Suc (n - nHeight b - 1)) q = None"
    using wf_root [OF assms(1) q(2,3)] q(2) by simp
  then show ?thesis
    using q(1) up_add [of m "nHeight b" "n - nHeight b" p] assms(3) by (simp add: Suc_diff_Suc)
qed

lemma wf_skip:
  assumes "block_map_wf m" "m p = Some b" "0 < nHeight b"
  shows "pskip b = up m (nHeight b - GetSkipHeight (nHeight b)) p"
proof -
  from assms obtain q c where "pprev b = Some q" "m q = Some c" "nHeight b = Suc (nHeight c)"
    "pskip b = up m (nHeight c - GetSkipHeight (nHeight b)) q" by (rule wf_parent)
  then show ?thesis
    using assms(2) GetSkipHeight_less [OF assms(3)] by (simp add: Suc_diff_le less_Suc_eq_le)
qed

lemma ancestor_walk_up:
  assumes "block_map_wf m" "m p = Some b" "nHeight b = k" "height \<le> k"
  shows "ancestor_walk m height p k = up m (k - height) p"
  using assms
proof (induction m height p k arbitrary: b rule: ancestor_walk.induct)
  case (1 m height p k)
  show ?case
  proof (cases "height < k")
    case False
    then show ?thesis using "1.prems" by (subst ancestor_walk.simps) simp
  next
    case True
    then have pos: "0 < nHeight b" using "1.prems" by simp
    from "1.prems"(1,2) pos obtain q c where
      qc: "pprev b = Some q" "m q = Some c" "nHeight b = Suc (nHeight c)" by (rule wf_parent)
    have prev: "ancestor_walk m height q (k - 1) = up m (k - height) p" if nf: "\<not> (pskip b \<noteq> None \<and>
        (GetSkipHeight k = height \<or> (GetSkipHeight k > height \<and>
          \<not> (GetSkipHeight (k - 1) + 2 < GetSkipHeight k \<and> GetSkipHeight (k - 1) \<ge> height))))"
    proof -
      have "ancestor_walk m height q (k - 1) = up m (k - 1 - height) q"
        using "1.IH"(2) [OF True "1.prems"(2) refl refl refl nf qc(1) "1.prems"(1) qc(2)] qc True "1.prems"(3)
        by simp
      moreover have "k - height = Suc (k - 1 - height)" using True by simp
      ultimately show ?thesis using "1.prems"(2) qc(1) by simp
    qed
    have skip: "ancestor_walk m height (the (pskip b)) (GetSkipHeight k) = up m (k - height) p"
      if f: "pskip b \<noteq> None \<and> (GetSkipHeight k = height \<or> (GetSkipHeight k > height \<and>
          \<not> (GetSkipHeight (k - 1) + 2 < GetSkipHeight k \<and> GetSkipHeight (k - 1) \<ge> height)))"
    proof -
      have le: "GetSkipHeight k \<le> k" "height \<le> GetSkipHeight k"
        using f GetSkipHeight_less [of k] True by auto
      obtain s d where s: "up m (k - GetSkipHeight k) p = Some s" "m s = Some d" "nHeight d = GetSkipHeight k"
        using up_total [OF "1.prems"(1,2), of "k - GetSkipHeight k"] "1.prems"(3) le(1) by auto
      have "pskip b = Some s" using wf_skip [OF "1.prems"(1,2) pos] "1.prems"(3) s(1) by simp
      then have "ancestor_walk m height (the (pskip b)) (GetSkipHeight k) = up m (GetSkipHeight k - height) s"
        using "1.IH"(1) [OF True "1.prems"(2) refl refl refl f "1.prems"(1)] s le by simp
      also have "\<dots> = up m (k - height) p"
        using up_add [of m "k - GetSkipHeight k" "GetSkipHeight k - height" p] s(1) le by simp
      finally show ?thesis .
    qed
    show ?thesis
      using True "1.prems"(2) qc(1) prev skip
      by (subst ancestor_walk.simps) (simp add: Let_def)
  qed
qed

lemma GetAncestor_eq:
  assumes "block_map_wf m" "m p = Some b"
  shows "GetAncestor m p height =
    Some (if 0 \<le> height \<and> height \<le> int (nHeight b) then up m (nHeight b - nat height) p else None)"
proof (cases "0 \<le> height \<and> height \<le> int (nHeight b)")
  case True
  then have "ancestor_walk m (nat height) p (nHeight b) = up m (nHeight b - nat height) p"
    using ancestor_walk_up [OF assms refl] by (simp add: nat_le_iff)
  moreover obtain q where "up m (nHeight b - nat height) p = Some q"
    using up_total [OF assms, of "nHeight b - nat height"] by auto
  ultimately show ?thesis using True assms(2) by (simp add: GetAncestor_def)
next
  case False
  then show ?thesis using assms(2) by (auto simp: GetAncestor_def)
qed

section \<open>What the work of a block is\<close>

lemma GetBitsProof_val:
  assumes "SetCompact bits = (t, neg, ovf)"
  shows "\<exists>r. GetBitsProof bits = Some r \<and> length r = 8 \<and>
    val r = (if neg \<or> ovf \<or> val t = 0 then 0 else 2 ^ 256 div (val t + 1))"
proof -
  have t: "length t = 8" using assms by (rule length_SetCompact)
  have M: "val (base_uint_not (arith_uint256 0)) = 2 ^ 256 - 1" by (simp add: u256.num_compl)
  have tz: "EqualTo t 0 \<longleftrightarrow> val t = 0" using t by (simp add: EqualTo_val)
  have tm: "CompareTo t (base_uint_not (arith_uint256 0)) \<ge> 0 \<longleftrightarrow> val t = 2 ^ 256 - 1"
    using t val_less_8 [OF t] M by (auto simp: u256.cmp_iffs u256.wf_compl)
  consider (none) "neg \<or> ovf \<or> val t = 0" | (max) "\<not> (neg \<or> ovf \<or> val t = 0)" "val t = 2 ^ 256 - 1"
    | (gen) "\<not> (neg \<or> ovf \<or> val t = 0)" "val t \<noteq> 2 ^ 256 - 1" by blast
  then show ?thesis
  proof cases
    case none
    then show ?thesis using assms tz by (auto simp: GetBitsProof_def)
  next
    case max
    then show ?thesis using assms tz tm by (simp add: GetBitsProof_def)
  next
    case gen
    have "0 < val t" "val t < 2 ^ 256 - 1"
      using gen val_nonneg [of t] val_less_8 [OF t] by linarith+
    from u256.inverse_plus_one [OF t this] obtain q where q:
      "base_uint_div (base_uint_not t) (base_uint_add t (arith_uint256 1)) = Some q"
      "length (base_uint_add q (arith_uint256 1)) = 8"
      "val (base_uint_add q (arith_uint256 1)) = 2 ^ 256 div (val t + 1)"
      "\<not> EqualTo (base_uint_add q (arith_uint256 1)) 0" by blast
    then show ?thesis using assms gen tz tm by (simp add: GetBitsProof_def Let_def)
  qed
qed

lemma GetBitsProof_total: "\<exists>r. GetBitsProof bits = Some r \<and> length r = 8"
  using GetBitsProof_val by (metis prod_cases3)

section \<open>Adding an entry keeps the tree well-formed\<close>

text \<open>
  The invariant of the tree: the links are well-formed, every entry knows its own hash, its chain
  work is a 256-bit number, and \<open>nTimeMax\<close> bounds its own time and its parent's \<open>nTimeMax\<close>.
\<close>

definition entry_inv :: "block_map \<Rightarrow> uint256 \<Rightarrow> CBlockIndex \<Rightarrow> bool" where
  "entry_inv m p b \<longleftrightarrow>
     entry_wf m b \<and> phashBlock b = Some p \<and> length (nChainWork b) = 8 \<and> nTime b \<le> nTimeMax b \<and>
     (case Option.bind (pprev b) m of None \<Rightarrow> True | Some c \<Rightarrow> nTimeMax c \<le> nTimeMax b)"

definition index_inv :: "block_map \<Rightarrow> bool" where
  "index_inv m \<longleftrightarrow> (\<forall>p b. m p = Some b \<longrightarrow> entry_inv m p b)"

lemma index_inv_wf: "index_inv m \<Longrightarrow> block_map_wf m"
  by (auto simp: index_inv_def block_map_wf_def entry_inv_def)

lemma index_invD: "index_inv m \<Longrightarrow> m p = Some b \<Longrightarrow> entry_inv m p b"
  by (simp add: index_inv_def)

lemma wf_closed:
  assumes "block_map_wf m" "m p = Some b"
  shows "pprev b = Some q \<Longrightarrow> \<exists>c. m q = Some c" "pskip b = Some q \<Longrightarrow> \<exists>c. m q = Some c"
proof -
  show "\<exists>c. m q = Some c" if "pprev b = Some q"
    using block_map_wfD [OF assms] that by (auto simp: entry_wf_def split: option.splits)
  show "\<exists>c. m q = Some c" if s: "pskip b = Some q"
  proof (cases "nHeight b")
    case 0
    then show ?thesis using wf_root [OF assms] s by simp
  next
    case (Suc n)
    then show ?thesis
      using wf_skip [OF assms] s
        up_total [OF assms, of "nHeight b - GetSkipHeight (nHeight b)"] by (metis diff_le_self option.inject zero_less_Suc)
  qed
qed

lemma up_extend:
  assumes "block_map_wf m" "m h = None" "m p = Some c"
  shows "up (m(h \<mapsto> b)) n p = up m n p"
  using assms(3)
proof (induction n arbitrary: p c)
  case (Suc n)
  then have "p \<noteq> h" using assms(2) by auto
  then show ?case
    using Suc.IH Suc.prems wf_closed(1) [OF assms(1) Suc.prems] by (cases "pprev c") auto
qed simp

lemma ancestor_walk_extend:
  assumes "block_map_wf m" "m h = None" "m p = Some c"
  shows "ancestor_walk (m(h \<mapsto> b)) height p k = ancestor_walk m height p k"
  using assms
proof (induction m height p k arbitrary: c rule: ancestor_walk.induct)
  case (1 m height p k)
  have p: "p \<noteq> h" using "1.prems" by auto
  note closed = wf_closed [OF "1.prems"(1,3)]
  show ?case
  proof (cases "height < k")
    case True
    let ?f = "pskip c \<noteq> None \<and> (GetSkipHeight k = height \<or> (GetSkipHeight k > height \<and>
          \<not> (GetSkipHeight (k - 1) + 2 < GetSkipHeight k \<and> GetSkipHeight (k - 1) \<ge> height)))"
    have s: "ancestor_walk (m(h \<mapsto> b)) height (the (pskip c)) (GetSkipHeight k)
        = ancestor_walk m height (the (pskip c)) (GetSkipHeight k)" if ?f
      using "1.IH"(1) [OF True "1.prems"(3) refl refl refl that "1.prems"(1,2)] closed(2) that by fastforce
    have q: "ancestor_walk (m(h \<mapsto> b)) height q (k - 1) = ancestor_walk m height q (k - 1)"
      if "\<not> ?f" "pprev c = Some q" for q
      using "1.IH"(2) [OF True "1.prems"(3) refl refl refl that "1.prems"(1,2)] closed(1) [OF that(2)] by blast
    note unf = ancestor_walk.simps [of "m(h \<mapsto> b)" height p k] ancestor_walk.simps [of m height p k]
    show ?thesis
    proof (cases ?f)
      case f: True
      show ?thesis unfolding unf using True p "1.prems"(3) f s [OF f] by (simp only: fun_upd_other Let_def) simp
    next
      case f: False
      show ?thesis unfolding unf using True p "1.prems"(3) f q [OF f]
        by (cases "pprev c") (simp_all only: fun_upd_other Let_def, auto)
    qed
  qed (simp add: ancestor_walk.simps [of _ height p k])
qed

lemma GetAncestor_extend:
  assumes "block_map_wf m" "m h = None" "m p = Some c"
  shows "GetAncestor (m(h \<mapsto> b)) p height = GetAncestor m p height"
proof -
  have "p \<noteq> h" using assms by auto
  then show ?thesis using assms ancestor_walk_extend [OF assms] by (simp add: GetAncestor_def)
qed

lemma entry_inv_extend:
  assumes "block_map_wf m" "m h = None" "entry_inv m p c"
  shows "entry_inv (m(h \<mapsto> b)) p c"
proof (cases "pprev c")
  case None
  then show ?thesis using assms(3) by (simp add: entry_inv_def entry_wf_def)
next
  case (Some q)
  then obtain d where d: "m q = Some d"
    using assms(3) by (auto simp: entry_inv_def entry_wf_def split: option.splits)
  then have "q \<noteq> h" using assms(2) by auto
  then show ?thesis
    using assms(3) Some d up_extend [OF assms(1,2) d] by (simp add: entry_inv_def entry_wf_def)
qed

lemma index_inv_extend:
  assumes "index_inv m" "m h = None" "entry_inv (m(h \<mapsto> b)) h b"
  shows "index_inv (m(h \<mapsto> b))"
  unfolding index_inv_def
  using assms entry_inv_extend [OF index_inv_wf [OF assms(1)] assms(2)] index_invD [OF assms(1)]
  by simp

text \<open>
  The entry \<open>AddToBlockIndex\<close> stores for a new header. Its chain work is the parent's plus the
  block's, modulo \<open>2^256\<close>: the branch that means to correct a wrapped sum recomputes the same sum.
\<close>

definition new_entry :: "uint256 \<Rightarrow> block_map \<Rightarrow> CBlockHeader \<Rightarrow> base_uint \<Rightarrow> CBlockIndex" where
  "new_entry h m block work =
     (let base = (CBlockIndex_of_header block)\<lparr>phashBlock := Some h, nStatus := BLOCK_VALID_TREE\<rparr> in
      case m (hdr_hashPrevBlock block) of
        None \<Rightarrow> base\<lparr>nTimeMax := hdr_nTime block, nChainWork := base_uint_add (arith_uint256 0) work\<rparr>
      | Some c \<Rightarrow> base\<lparr>pprev := Some (hdr_hashPrevBlock block), nHeight := Suc (nHeight c),
          pskip := up m (nHeight c - GetSkipHeight (Suc (nHeight c))) (hdr_hashPrevBlock block),
          nTimeMax := max (nTimeMax c) (hdr_nTime block),
          nChainWork := base_uint_add (nChainWork c) work\<rparr>)"

definition work_or_one :: "base_uint \<Rightarrow> base_uint" where
  "work_or_one w = (if EqualTo w 0 then arith_uint256 1 else w)"

lemma RaiseValidity_new:
  "nStatus b = 0 \<Longrightarrow> RaiseValidity b BLOCK_VALID_TREE = Some (b\<lparr>nStatus := BLOCK_VALID_TREE\<rparr>, True)"
  by (simp add: RaiseValidity_def BLOCK_VALID_TREE_def BLOCK_VALID_MASK_def)

lemma BuildSkip_new:
  assumes "block_map_wf m" "m h = None" "m q = Some c" "pprev b = Some q" "nHeight b = Suc (nHeight c)"
  shows "BuildSkip (m(h \<mapsto> b')) b = Some (b\<lparr>pskip := up m (nHeight c - GetSkipHeight (nHeight b)) q\<rparr>)"
proof -
  have "GetSkipHeight (nHeight b) \<le> nHeight c" using GetSkipHeight_less [of "nHeight b"] assms(5) by simp
  then show ?thesis
    using assms(4) GetAncestor_extend [OF assms(1-3)] GetAncestor_eq [OF assms(1,3)]
    by (simp add: BuildSkip_def)
qed

lemma AddToBlockIndex_new:
  assumes inv: "index_inv m" and m: "m = m_block_index bm" and h: "h = GetHash block" and new: "m h = None"
    and prev: "hdr_hashPrevBlock block \<noteq> h" and best: "\<forall>q. best_header = Some q \<longrightarrow> m q \<noteq> None"
    and w: "GetBitsProof (hdr_nBits block) = Some w" and b: "b = new_entry h m block (work_or_one w)"
  shows "AddToBlockIndex GetHash bm block best_header =
      Some (bm\<lparr>m_block_index := m(h \<mapsto> b), m_dirty_blockindex := insert h (m_dirty_blockindex bm)\<rparr>,
        (case best_header of None \<Rightarrow> Some h
         | Some q \<Rightarrow> if CompareTo (nChainWork (the (m q))) (nChainWork b) < 0 then Some h else best_header), h)"
proof (cases "m (hdr_hashPrevBlock block)")
  case None
  show ?thesis
    using None m h new prev w best
    by (cases best_header)
      (auto simp: AddToBlockIndex_def Let_def CBlockIndex_of_header_def GetBlockProof_def
        RaiseValidity_new b new_entry_def work_or_one_def)
next
  case (Some c)
  note bs = BuildSkip_new [OF index_inv_wf [OF inv] new Some, unfolded m h]
  show ?thesis
    using Some m h new prev w best
    by (cases best_header)
      (auto simp: AddToBlockIndex_def Let_def CBlockIndex_of_header_def GetBlockProof_def bs
        RaiseValidity_new b new_entry_def work_or_one_def)
qed

lemma new_entry_inv:
  assumes "index_inv m" "m h = None" "hdr_hashPrevBlock block \<noteq> h" "length w = 8" "b = new_entry h m block w"
  shows "entry_inv (m(h \<mapsto> b)) h b"
proof (cases "m (hdr_hashPrevBlock block)")
  case None
  then show ?thesis
    using assms(3-5) by (auto simp: new_entry_def entry_inv_def entry_wf_def u256.wf_add Let_def CBlockIndex_of_header_def)
next
  case (Some c)
  have "length (nChainWork c) = 8" using index_invD [OF assms(1) Some] by (simp add: entry_inv_def)
  then show ?thesis
    using assms(3-5) Some up_extend [OF index_inv_wf [OF assms(1)] assms(2) Some]
    by (simp add: new_entry_def entry_inv_def entry_wf_def u256.wf_add Let_def CBlockIndex_of_header_def)
qed

lemma length_work_or_one: "length w = 8 \<Longrightarrow> length (work_or_one w) = 8"
  by (simp add: work_or_one_def)

section \<open>Properties\<close>

text \<open>
  C4. In a well-formed tree \<open>GetAncestor\<close> never fails its assertion: for a height between 0 and the
  block's own it returns the entry reached by following \<open>pprev\<close> step by step, and \<open>nullptr\<close>
  otherwise.
\<close>

theorem get_ancestor_correct:
  assumes "block_map_wf m" "m p = Some b"
  shows "GetAncestor m p height =
    Some (if 0 \<le> height \<and> height \<le> int (nHeight b) then up m (nHeight b - nat height) p else None)"
  using assms by (rule GetAncestor_eq)

definition example_header :: "byte \<Rightarrow> byte \<Rightarrow> 32 word \<Rightarrow> CBlockHeader" where
  "example_header prev merkle t =
     \<lparr>hdr_nVersion = 1, hdr_hashPrevBlock = [prev], hdr_hashMerkleRoot = [merkle], hdr_nTime = t,
      hdr_nBits = 0x1d00ffff, hdr_nNonce = 0\<rparr>"

definition example_map :: block_map where
  "example_map =
     (let m0 = Map.empty([1] \<mapsto> new_entry [1] Map.empty (example_header 0 1 100) (arith_uint256 1));
          m1 = m0([2] \<mapsto> new_entry [2] m0 (example_header 1 2 220) (arith_uint256 1));
          m2 = m1([3] \<mapsto> new_entry [3] m1 (example_header 2 3 340) (arith_uint256 1))
      in m2([4] \<mapsto> new_entry [4] m2 (example_header 2 4 350) (arith_uint256 1)))"

lemma example_map_inv: "index_inv example_map"
proof -
  have "index_inv Map.empty" by (simp add: index_inv_def)
  then show ?thesis
    unfolding example_map_def Let_def
    by (intro index_inv_extend new_entry_inv [OF _ _ _ _ refl]) (simp_all add: example_header_def)
qed

lemma example_map_entries:
  "map_option nHeight (example_map [3]) = Some 2" "map_option pprev (example_map [3]) = Some (Some [2])"
  "map_option nHeight (example_map [4]) = Some 2" "map_option pprev (example_map [4]) = Some (Some [2])"
  "map_option nHeight (example_map [2]) = Some 1" "map_option pprev (example_map [2]) = Some (Some [1])"
  "map_option nHeight (example_map [1]) = Some 0" "map_option pprev (example_map [1]) = Some None"
  by (simp_all add: example_map_def Let_def new_entry_def example_header_def CBlockIndex_of_header_def)

theorem get_ancestor_correct_witness:
  "\<exists>b. example_map [3] = Some b \<and> GetAncestor example_map [3] 0 = Some (Some [1])"
proof -
  obtain b where b: "example_map [3] = Some b" "nHeight b = 2" "pprev b = Some [2]"
    using example_map_entries by auto
  obtain c where c: "example_map [2] = Some c" "pprev c = Some [1]"
    using example_map_entries by auto
  show ?thesis
    using get_ancestor_correct [OF index_inv_wf [OF example_map_inv] b(1), of 0] b c
    by (simp add: numeral_2_eq_2)
qed

text \<open>
  C5. \<open>AddToBlockIndex\<close> on a new header whose hash is not its own parent's never fails, and keeps
  the invariant of the tree: heights, skip pointers, \<open>nTimeMax\<close> and chain work of the new entry are
  those of its parent extended by the block, and no other entry changes.
\<close>

theorem add_to_block_index_inv:
  assumes "index_inv (m_block_index bm)" "m_block_index bm (GetHash block) = None"
    "hdr_hashPrevBlock block \<noteq> GetHash block" "\<forall>q. best_header = Some q \<longrightarrow> m_block_index bm q \<noteq> None"
  shows "\<exists>bm' best b w. AddToBlockIndex GetHash bm block best_header = Some (bm', best, GetHash block) \<and>
    m_block_index bm' = (m_block_index bm)(GetHash block \<mapsto> b) \<and> index_inv (m_block_index bm') \<and>
    (\<exists>q. best = Some q \<and> m_block_index bm' q \<noteq> None) \<and>
    GetBitsProof (hdr_nBits block) = Some w \<and> b = new_entry (GetHash block) (m_block_index bm) block (work_or_one w)"
proof -
  obtain w where w: "GetBitsProof (hdr_nBits block) = Some w" "length w = 8" using GetBitsProof_total by blast
  define b where "b = new_entry (GetHash block) (m_block_index bm) block (work_or_one w)"
  have "entry_inv ((m_block_index bm)(GetHash block \<mapsto> b)) (GetHash block) b"
    using new_entry_inv [OF assms(1-3) length_work_or_one [OF w(2)] b_def] .
  then have "index_inv ((m_block_index bm)(GetHash block \<mapsto> b))" by (rule index_inv_extend [OF assms(1,2)])
  then show ?thesis
    using AddToBlockIndex_new [where GetHash = GetHash and block = block, OF assms(1) refl refl assms(2-4) w(1) b_def] w(1) b_def assms(2,4)
    by (cases best_header) auto
qed

theorem add_to_block_index_inv_witness:
  "\<exists>bm' best. AddToBlockIndex (\<lambda>_. [5]) \<lparr>m_block_index = example_map, m_dirty_blockindex = {}\<rparr>
     (example_header 4 5 400) (Some [3]) = Some (bm', best, [5]) \<and> index_inv (m_block_index bm')"
proof -
  have "example_map [5] = None" "example_map [3] \<noteq> None"
    by (simp_all add: example_map_def Let_def)
  then show ?thesis
    using add_to_block_index_inv [of "\<lparr>m_block_index = example_map, m_dirty_blockindex = {}\<rparr>" "\<lambda>_. [5]"
      "example_header 4 5 400" "Some [3]"] example_map_inv
    by (auto simp: example_header_def)
qed

text \<open>
  C18. The work of a block is \<open>2^256 / (target + 1)\<close>, computed within 256 bits and without a division
  by zero, and 0 for a negative, overflowing or zero target.
\<close>

theorem get_bits_proof_value:
  "case SetCompact bits of (t, neg, ovf) \<Rightarrow>
     map_option val (GetBitsProof bits) =
       Some (if neg \<or> ovf \<or> val t = 0 then 0 else 2 ^ 256 div (val t + 1))"
proof (cases "SetCompact bits")
  case (fields t neg ovf)
  then show ?thesis using GetBitsProof_val [OF fields] by auto
qed

end
