(* ===== verification/Chain.thy ===== *)
theory Chain
  imports BlockIndex "HOL-Library.Multiset"
begin

text \<open>
  The active chain and the walks over the block tree (\<open>chain.h\<close>, \<open>chain.cpp\<close>): \<open>CChain\<close> with
  \<open>SetTip\<close>, \<open>FindFork\<close> and \<open>FindEarliestAtLeast\<close>, the median of the last block times, the block
  locator and \<open>LastCommonAncestor\<close>. Loops over parent pointers are partial functions: \<open>None\<close> is a
  null dereference or a loop that does not end, and the theorems show that neither happens in a
  well-formed tree.
\<close>

type_synonym CChain = "ptr list"

definition chain_Tip :: "CChain \<Rightarrow> ptr" where
  "chain_Tip vChain = (if length vChain > 0 then vChain ! (length vChain - 1) else None)"

definition chain_Genesis :: "CChain \<Rightarrow> ptr" where
  "chain_Genesis vChain = (if length vChain > 0 then vChain ! 0 else None)"

definition chain_Height :: "CChain \<Rightarrow> int" where
  "chain_Height vChain = int (length vChain) - 1"

definition chain_at :: "CChain \<Rightarrow> int \<Rightarrow> ptr" where
  "chain_at vChain h = (if h < 0 \<or> h \<ge> int (length vChain) then None else vChain ! nat h)"

definition Contains :: "block_map \<Rightarrow> CChain \<Rightarrow> uint256 \<Rightarrow> bool option" where
  "Contains m vChain p = map_option (\<lambda>b. chain_at vChain (int (nHeight b)) = Some p) (m p)"

definition chain_Next :: "block_map \<Rightarrow> CChain \<Rightarrow> uint256 \<Rightarrow> ptr option" where
  "chain_Next m vChain p = do {
     b \<leftarrow> m p;
     c \<leftarrow> Contains m vChain p;
     Some (if c then chain_at vChain (int (nHeight b) + 1) else None)
   }"

definition resize :: "nat \<Rightarrow> CChain \<Rightarrow> CChain" where
  "resize n xs = take n xs @ replicate (n - length xs) None"

partial_function (option) set_tip_loop :: "block_map \<Rightarrow> ptr \<Rightarrow> CChain \<Rightarrow> CChain option" where
  "set_tip_loop m pindex vChain =
     (case pindex of
        None \<Rightarrow> Some vChain
      | Some p \<Rightarrow> do {
          b \<leftarrow> m p;
          if nHeight b \<ge> length vChain then None
          else if vChain ! nHeight b \<noteq> pindex
          then set_tip_loop m (pprev b) (vChain[nHeight b := pindex])
          else Some vChain
        })"

definition SetTip :: "block_map \<Rightarrow> CChain \<Rightarrow> uint256 \<Rightarrow> CChain option" where
  "SetTip m vChain block = do {
     b \<leftarrow> m block;
     set_tip_loop m (Some block) (resize (nHeight b + 1) vChain)
   }"

partial_function (option) find_fork_loop :: "block_map \<Rightarrow> CChain \<Rightarrow> ptr \<Rightarrow> ptr option" where
  "find_fork_loop m vChain pindex =
     (case pindex of
        None \<Rightarrow> Some None
      | Some p \<Rightarrow> do {
          c \<leftarrow> Contains m vChain p;
          b \<leftarrow> m p;
          if c then Some pindex else find_fork_loop m vChain (pprev b)
        })"

definition FindFork :: "block_map \<Rightarrow> CChain \<Rightarrow> uint256 \<Rightarrow> ptr option" where
  "FindFork m vChain index = do {
     b \<leftarrow> m index;
     pindex \<leftarrow> (if int (nHeight b) > chain_Height vChain
                 then GetAncestor m index (chain_Height vChain) else Some (Some index));
     find_fork_loop m vChain pindex
   }"

text \<open>\<open>std::lower_bound\<close>: the binary search for the first element for which the comparison fails.\<close>

function lower_bound :: "('a \<Rightarrow> bool option) \<Rightarrow> 'a list \<Rightarrow> nat \<Rightarrow> nat \<Rightarrow> nat option" where
  "lower_bound before xs first len =
     (if len > 0 then
        let half = len div 2; middle = first + half in
        case before (xs ! middle) of
          None \<Rightarrow> None
        | Some c \<Rightarrow> if c then lower_bound before xs (middle + 1) (len - half - 1)
                    else lower_bound before xs first half
      else Some first)"
  by pat_completeness auto
termination by (relation "measure (\<lambda>(before, xs, first, len). len)") auto

declare lower_bound.simps [simp del]

definition FindEarliestAtLeast :: "block_map \<Rightarrow> CChain \<Rightarrow> int \<Rightarrow> int \<Rightarrow> ptr option" where
  "FindEarliestAtLeast m vChain t height = do {
     lower \<leftarrow> lower_bound (\<lambda>pBlock. do {
         p \<leftarrow> pBlock;
         b \<leftarrow> m p;
         Some (GetBlockTimeMax b < t \<or> int (nHeight b) < height)
       }) vChain 0 (length vChain);
     Some (if lower = length vChain then None else vChain ! lower)
   }"

definition nMedianTimeSpan :: nat where
  "nMedianTimeSpan = 11"

text \<open>The times written downwards from \<open>pmedian[11]\<close>: the oldest first.\<close>

fun median_times :: "block_map \<Rightarrow> nat \<Rightarrow> ptr \<Rightarrow> int list \<Rightarrow> int list option" where
  "median_times m 0 pindex pmedian = Some pmedian"
| "median_times m (Suc i) pindex pmedian =
     (case pindex of
        None \<Rightarrow> Some pmedian
      | Some p \<Rightarrow> do { b \<leftarrow> m p; median_times m i (pprev b) (GetBlockTime b # pmedian) })"

definition GetMedianTimePast :: "block_map \<Rightarrow> uint256 \<Rightarrow> int option" where
  "GetMedianTimePast m this =
     map_option (\<lambda>pmedian. sort pmedian ! (length pmedian div 2)) (median_times m nMedianTimeSpan (Some this) [])"

partial_function (option) locator_loop :: "block_map \<Rightarrow> ptr \<Rightarrow> int \<Rightarrow> uint256 list \<Rightarrow> uint256 list option" where
  "locator_loop m index step entries =
     (case index of
        None \<Rightarrow> Some entries
      | Some p \<Rightarrow> do {
          b \<leftarrow> m p;
          h \<leftarrow> phashBlock b;
          let entries = entries @ [h];
          if nHeight b = 0 then Some entries
          else do {
            index \<leftarrow> GetAncestor m p (max (int (nHeight b) - step) 0);
            locator_loop m index (if length entries > 10 then step * 2 else step) entries
          }
        })"

definition LocatorEntries :: "block_map \<Rightarrow> ptr \<Rightarrow> uint256 list option" where
  "LocatorEntries m index = locator_loop m index 1 []"

section \<open>The last common ancestor\<close>

text \<open>The inner loop: while the skip pointers differ, both blocks follow them.\<close>

partial_function (option) lca_skip :: "block_map \<Rightarrow> uint256 \<Rightarrow> uint256 \<Rightarrow> (uint256 \<times> uint256) option" where
  "lca_skip m pa pb = do {
     a \<leftarrow> m pa;
     b \<leftarrow> m pb;
     if pskip a \<noteq> pskip b
     then do { sa \<leftarrow> pskip a; sb \<leftarrow> pskip b; lca_skip m sa sb }
     else Some (pa, pb)
   }"

partial_function (option) lca_loop :: "block_map \<Rightarrow> ptr \<Rightarrow> ptr \<Rightarrow> ptr option" where
  "lca_loop m pa pb =
     (if pa \<noteq> pb then do {
        a \<leftarrow> pa;
        b \<leftarrow> pb;
        (a, b) \<leftarrow> lca_skip m a b;
        ia \<leftarrow> m a;
        ib \<leftarrow> m b;
        lca_loop m (pprev ia) (pprev ib)
      } else Some pa)"

definition LastCommonAncestor :: "block_map \<Rightarrow> uint256 \<Rightarrow> uint256 \<Rightarrow> ptr option" where
  "LastCommonAncestor m pa pb = do {
     a \<leftarrow> m pa;
     b \<leftarrow> m pb;
     if nHeight a > nHeight b
     then do { pa \<leftarrow> GetAncestor m pa (int (nHeight b)); lca_loop m pa (Some pb) }
     else if nHeight b > nHeight a
     then do { pb \<leftarrow> GetAncestor m pb (int (nHeight a)); lca_loop m (Some pa) pb }
     else lca_loop m (Some pa) (Some pb)
   }"

text \<open>Specification: \<open>x\<close> is an ancestor of \<open>p\<close> (or \<open>p\<close> itself); of both of two blocks.\<close>

definition anc :: "block_map \<Rightarrow> uint256 \<Rightarrow> uint256 \<Rightarrow> bool" where
  "anc m x p \<longleftrightarrow> (\<exists>n. up m n p = Some x)"

definition common :: "block_map \<Rightarrow> uint256 \<Rightarrow> uint256 \<Rightarrow> uint256 \<Rightarrow> bool" where
  "common m pa pb x \<longleftrightarrow> anc m x pa \<and> anc m x pb"

definition last_common :: "block_map \<Rightarrow> uint256 \<Rightarrow> uint256 \<Rightarrow> ptr \<Rightarrow> bool" where
  "last_common m pa pb r \<longleftrightarrow>
     (r = None \<longrightarrow> (\<forall>x. \<not> common m pa pb x)) \<and>
     (\<forall>x. r = Some x \<longrightarrow> common m pa pb x \<and> (\<forall>y. common m pa pb y \<longrightarrow> anc m y x))"

lemma anc_refl [simp]: "anc m p p"
  unfolding anc_def by (rule exI [of _ 0]) simp

lemma up_bound: "block_map_wf m \<Longrightarrow> m p = Some b \<Longrightarrow> up m n p = Some x \<Longrightarrow> n \<le> nHeight b"
  using up_None [of m p b n] by (cases "n \<le> nHeight b") auto

lemma up_height:
  assumes "block_map_wf m" "m p = Some b" "up m n p = Some x"
  obtains c where "m x = Some c" "nHeight c + n = nHeight b"
  using up_total [OF assms(1,2) up_bound [OF assms]] assms(3) up_bound [OF assms]
  by (metis le_add_diff_inverse2 option.inject)

lemma anc_up: "up m k p = Some q \<Longrightarrow> anc m x q \<Longrightarrow> anc m x p"
  unfolding anc_def by (metis bind.bind_lunit up_add)

lemma common_same_height:
  assumes "block_map_wf m" "m pa = Some a" "m pb = Some b" "nHeight a = nHeight b"
  shows "common m pa pb x \<longleftrightarrow> (\<exists>i. up m i pa = Some x \<and> up m i pb = Some x)"
proof
  assume "common m pa pb x"
  then obtain i j where ij: "up m i pa = Some x" "up m j pb = Some x" by (auto simp: common_def anc_def)
  from up_height [OF assms(1,2) ij(1)] obtain c where c: "m x = Some c" "nHeight c + i = nHeight a" .
  from up_height [OF assms(1,3) ij(2)] obtain d where "m x = Some d" "nHeight d + j = nHeight b" .
  with c assms(4) have "i = j" by simp
  with ij show "\<exists>i. up m i pa = Some x \<and> up m i pb = Some x" by auto
qed (auto simp: common_def anc_def)

text \<open>Going up \<open>k\<close> steps from two blocks of equal height that differ on the way loses no common ancestor.\<close>

lemma common_step:
  assumes "block_map_wf m" "m pa = Some a" "m pb = Some b" "nHeight a = nHeight b"
    "up m k pa = Some qa" "up m k pb = Some qb" "\<forall>i<k. up m i pa \<noteq> up m i pb"
  shows "common m qa qb x \<longleftrightarrow> common m pa pb x"
proof
  assume "common m qa qb x"
  then show "common m pa pb x"
    using anc_up [OF assms(5)] anc_up [OF assms(6)] by (simp add: common_def)
next
  assume "common m pa pb x"
  then obtain i where i: "up m i pa = Some x" "up m i pb = Some x"
    using common_same_height [OF assms(1-4)] by blast
  then have "k \<le> i" using assms(7) by (metis not_le_imp_less)
  then have "up m i pa = up m (i - k) qa" "up m i pb = up m (i - k) qb"
    using assms(5,6) up_add [of m k "i - k"] by simp_all
  then show "common m qa qb x" using i by (auto simp: common_def anc_def)
qed

lemma up_differ:
  assumes "up m k pa \<noteq> up m k pb" "i \<le> k"
  shows "up m i pa \<noteq> up m i pb"
  using assms up_add [of m i "k - i"] by auto

lemma lca_skip_spec:
  assumes "block_map_wf m" "m pa = Some a" "m pb = Some b" "nHeight a = nHeight b" "pa \<noteq> pb"
  shows "\<exists>qa qb a' b'. lca_skip m pa pb = Some (qa, qb) \<and> m qa = Some a' \<and> m qb = Some b' \<and>
    nHeight a' = nHeight b' \<and> nHeight a' \<le> nHeight a \<and> qa \<noteq> qb \<and> (\<forall>x. common m qa qb x \<longleftrightarrow> common m pa pb x)"
  using assms(2-5)
proof (induction "nHeight a" arbitrary: pa pb a b rule: less_induct)
  case less
  show ?case
  proof (cases "pskip a = pskip b")
    case True
    then show ?thesis using less.prems by (subst lca_skip.simps) auto
  next
    case False
    define k where "k = nHeight a - GetSkipHeight (nHeight a)"
    have pos: "0 < nHeight a"
      using False wf_root [OF assms(1)] less.prems by (metis gr0I)
    have skips: "pskip a = up m k pa" "pskip b = up m k pb"
      using wf_skip [OF assms(1)] less.prems pos by (simp_all add: k_def)
    obtain sa a' where sa: "up m k pa = Some sa" "m sa = Some a'" "nHeight a' = nHeight a - k"
      using up_total [OF assms(1) less.prems(1), of k] by (auto simp: k_def)
    obtain sb b' where sb: "up m k pb = Some sb" "m sb = Some b'" "nHeight b' = nHeight a - k"
      using up_total [OF assms(1) less.prems(2), of k] less.prems(3) by (auto simp: k_def)
    have "nHeight a' < nHeight a" using sa(3) GetSkipHeight_less [OF pos] pos by (simp add: k_def)
    from less.hyps [OF this sa(2) sb(2)] obtain qa qb a2 b2 where q:
      "lca_skip m sa sb = Some (qa, qb)" "m qa = Some a2" "m qb = Some b2" "nHeight a2 = nHeight b2"
      "nHeight a2 \<le> nHeight a'" "qa \<noteq> qb" "\<forall>x. common m qa qb x \<longleftrightarrow> common m sa sb x"
      using sa sb skips False by auto
    have "common m sa sb x \<longleftrightarrow> common m pa pb x" for x
      using up_differ [of m k pa pb] skips False
      by (intro common_step [OF assms(1) less.prems(1-3) sa(1) sb(1)]) simp
    then show ?thesis
      using q less.prems skips sa sb False \<open>nHeight a' < nHeight a\<close> by (subst lca_skip.simps) auto
  qed
qed

lemma lca_loop_spec:
  assumes "block_map_wf m" "m pa = Some a" "m pb = Some b" "nHeight a = nHeight b"
  shows "\<exists>r. lca_loop m (Some pa) (Some pb) = Some r \<and>
    last_common m pa pb r"
  using assms(2-4)
proof (induction "nHeight a" arbitrary: pa pb a b rule: less_induct)
  case less
  show ?case
  proof (cases "pa = pb")
    case True
    then show ?thesis by (subst lca_loop.simps) (simp add: last_common_def common_def)
  next
    case False
    from lca_skip_spec [OF assms(1) less.prems False] obtain qa qb a' b' where q:
      "lca_skip m pa pb = Some (qa, qb)" "m qa = Some a'" "m qb = Some b'" "nHeight a' = nHeight b'"
      "nHeight a' \<le> nHeight a" "qa \<noteq> qb" "\<forall>x. common m qa qb x \<longleftrightarrow> common m pa pb x" by blast
    have eq: "lca_loop m (Some pa) (Some pb) = lca_loop m (pprev a') (pprev b')"
      using False q by (subst lca_loop.simps) simp
    show ?thesis
    proof (cases "nHeight a'")
      case 0
      have "\<not> common m qa qb x" for x
      proof
        assume "common m qa qb x"
        then obtain i where i: "up m i qa = Some x" "up m i qb = Some x"
          using common_same_height [OF assms(1) q(2-4)] by blast
        then have "i = 0" using up_bound [OF assms(1) q(2)] 0 by auto
        then show False using i q(6) by simp
      qed
      then show ?thesis
        using eq q 0 wf_root [OF assms(1)] by (simp add: lca_loop.simps [of m None None] last_common_def)
    next
      case (Suc n)
      from assms(1) q(2) obtain ua c where u: "pprev a' = Some ua" "m ua = Some c" "nHeight a' = Suc (nHeight c)"
        by (rule wf_parent) (use Suc in simp)
      from assms(1) q(3) obtain ub d where v: "pprev b' = Some ub" "m ub = Some d" "nHeight b' = Suc (nHeight d)"
        by (rule wf_parent) (use Suc q(4) in simp)
      have "nHeight c < nHeight a" "nHeight c = nHeight d" using u v q by simp_all
      from less.hyps [OF this(1) u(2) v(2) this(2)] obtain r where r: "lca_loop m (Some ua) (Some ub) = Some r"
        "last_common m ua ub r" by blast
      have "common m ua ub x \<longleftrightarrow> common m pa pb x" for x
        using common_step [OF assms(1) q(2-4), of 1 ua ub] q u v by simp
      then show ?thesis using eq u(1) v(1) r by (simp add: last_common_def)
    qed
  qed
qed

lemma common_rewind:
  assumes "block_map_wf m" "m pa = Some a" "m pb = Some b" "nHeight b \<le> nHeight a"
    "up m (nHeight a - nHeight b) pa = Some qa"
  shows "common m qa pb x \<longleftrightarrow> common m pa pb x"
proof
  assume "common m qa pb x"
  then show "common m pa pb x" using anc_up [OF assms(5)] by (simp add: common_def)
next
  assume c: "common m pa pb x"
  then obtain i j where ij: "up m i pa = Some x" "up m j pb = Some x" by (auto simp: common_def anc_def)
  from up_height [OF assms(1,2) ij(1)] obtain d where d: "m x = Some d" "nHeight d + i = nHeight a" .
  from up_height [OF assms(1,3) ij(2)] obtain e where "m x = Some e" "nHeight e + j = nHeight b" .
  with d have "nHeight a - nHeight b \<le> i" by simp
  then have "up m (i - (nHeight a - nHeight b)) qa = Some x"
    using ij(1) assms(5) up_add [of m "nHeight a - nHeight b" "i - (nHeight a - nHeight b)" pa] by simp
  then show "common m qa pb x" using c by (auto simp: common_def anc_def)
qed

lemma common_sym: "common m pa pb x \<longleftrightarrow> common m pb pa x"
  by (auto simp: common_def)

lemma LastCommonAncestor_spec:
  assumes "block_map_wf m" "m pa = Some a" "m pb = Some b"
  shows "\<exists>r. LastCommonAncestor m pa pb = Some r \<and>
    last_common m pa pb r"
proof -
  consider "nHeight a > nHeight b" | "nHeight b > nHeight a" | "nHeight a = nHeight b" by linarith
  then show ?thesis
  proof cases
    case 1
    obtain qa c where q: "up m (nHeight a - nHeight b) pa = Some qa" "m qa = Some c" "nHeight c = nHeight b"
      using up_total [OF assms(1,2), of "nHeight a - nHeight b"] 1 by auto
    then show ?thesis
      using lca_loop_spec [OF assms(1) q(2) assms(3) q(3)] 1 assms(2,3)
        common_rewind [OF assms _ q(1)] GetAncestor_eq [OF assms(1,2), of "int (nHeight b)"]
      by (simp add: LastCommonAncestor_def last_common_def)
  next
    case 2
    obtain qb c where q: "up m (nHeight b - nHeight a) pb = Some qb" "m qb = Some c" "nHeight c = nHeight a"
      using up_total [OF assms(1,3), of "nHeight b - nHeight a"] 2 by auto
    have "common m pa qb x \<longleftrightarrow> common m pa pb x" for x
      using common_rewind [OF assms(1,3,2) _ q(1)] 2 common_sym by (metis less_imp_le)
    then show ?thesis
      using lca_loop_spec [OF assms(1,2) q(2) q(3) [symmetric]] 2 assms(2,3) q(1)
        GetAncestor_eq [OF assms(1,3), of "int (nHeight a)"]
      by (simp add: LastCommonAncestor_def last_common_def)
  next
    case 3
    then show ?thesis using lca_loop_spec [OF assms] assms(2,3) by (simp add: LastCommonAncestor_def)
  qed
qed

section \<open>The active chain\<close>

text \<open>
  The invariant of \<open>CChain\<close>: the vector holds, at every height, the ancestor of the tip at that
  height. \<open>path_to\<close> is the vector a given tip should have.
\<close>

definition path_to :: "block_map \<Rightarrow> uint256 \<Rightarrow> CBlockIndex \<Rightarrow> CChain" where
  "path_to m tip b = map (\<lambda>h. up m (nHeight b - h) tip) [0..<Suc (nHeight b)]"

definition chain_ok :: "block_map \<Rightarrow> CChain \<Rightarrow> bool" where
  "chain_ok m vChain \<longleftrightarrow> vChain = [] \<or> (\<exists>tip b. m tip = Some b \<and> vChain = path_to m tip b)"

text \<open>Within a vector, an entry's ancestors stand below it.\<close>

definition linked :: "block_map \<Rightarrow> CChain \<Rightarrow> bool" where
  "linked m vChain \<longleftrightarrow>
     (\<forall>j x. j < length vChain \<longrightarrow> vChain ! j = Some x \<longrightarrow> (\<forall>i\<le>j. vChain ! i = up m (j - i) x))"

lemma path_to_nth: "h \<le> nHeight b \<Longrightarrow> path_to m p b ! h = up m (nHeight b - h) p"
  by (simp add: path_to_def del: upt_Suc)

lemma length_path_to [simp]: "length (path_to m p b) = Suc (nHeight b)"
  by (simp add: path_to_def)

lemma linked_path_to: "linked m (path_to m p b)"
  unfolding linked_def
proof (intro allI impI)
  fix j x i assume j: "j < length (path_to m p b)" "path_to m p b ! j = Some x" and i: "i \<le> j"
  then have "up m (nHeight b - j) p = Some x" by (simp add: path_to_nth)
  moreover have "nHeight b - i = (nHeight b - j) + (j - i)" using i j by simp
  ultimately have "up m (nHeight b - i) p = up m (j - i) x" by (simp only: up_add) simp
  then show "path_to m p b ! i = up m (j - i) x" using i j by (simp add: path_to_nth)
qed

lemma linked_resize: "linked m xs \<Longrightarrow> linked m (resize n xs)"
  unfolding linked_def resize_def by (auto simp: nth_append)

lemma length_resize [simp]: "length (resize n xs) = n"
  by (simp add: resize_def)

text \<open>
  The loop: above the current block the vector is already right for the new tip; at and below it,
  it is still the old, linked one.
\<close>

lemma set_tip_loop_spec:
  assumes wf: "block_map_wf m" and tip: "m tip = Some t"
    and p: "up m k tip = Some p" "k \<le> nHeight t" and len: "length vs = Suc (nHeight t)"
    and above: "\<forall>h. nHeight t - k < h \<and> h \<le> nHeight t \<longrightarrow> vs ! h = up m (nHeight t - h) tip"
    and below: "\<forall>j\<le>nHeight t - k. \<forall>x. vs ! j = Some x \<longrightarrow> (\<forall>i\<le>j. vs ! i = up m (j - i) x)"
  shows "set_tip_loop m (Some p) vs = Some (path_to m tip t)"
  using p len above below
proof (induction "nHeight t - k" arbitrary: k p vs)
  case IH: 0
  then have k: "k = nHeight t" by simp
  from up_height [OF wf tip IH(2)] obtain b where b': "m p = Some b" "nHeight b + k = nHeight t" .
  then have b: "m p = Some b" "nHeight b = 0" using k by simp_all
  have "pprev b = None" using wf_root [OF wf b] by simp
  moreover have v: "vs[0 := Some p] = path_to m tip t"
  proof (rule nth_equalityI)
    fix i assume i: "i < length (vs[0 := Some p])"
    show "vs[0 := Some p] ! i = path_to m tip t ! i"
      using IH(2,4,5) k i by (cases i) (simp_all add: path_to_nth)
  qed (use IH(4) in simp)
  moreover have "vs = path_to m tip t" if "vs ! 0 = Some p"
    using v that by (metis list_update_id)
  moreover have "set_tip_loop m None w = Some w" for w by (subst set_tip_loop.simps) simp
  ultimately show ?case
    using b IH(4) by (subst set_tip_loop.simps) simp
next
  case IH: (Suc n)
  from up_height [OF wf tip IH(3)] obtain b where b': "m p = Some b" "nHeight b + k = nHeight t" .
  then have b: "m p = Some b" "nHeight b = nHeight t - k" by simp_all
  have "0 < nHeight b" using b(2) IH(2) by simp
  from wf b(1) this obtain q c where q: "pprev b = Some q" "m q = Some c" by (rule wf_parent)
  have upq: "up m (Suc k) tip = Some q"
    using up_add [of m k 1 tip] IH(3) b(1) q by simp
  show ?case
  proof (cases "vs ! nHeight b = Some p")
    case True
    have "vs ! h = up m (nHeight t - h) tip" if "h \<le> nHeight t" for h
    proof (cases "h \<le> nHeight t - k")
      case le: True
      have "vs ! h = up m (nHeight t - k - h) p" using IH(7) [rule_format, of "nHeight t - k" p h] True b(2) le by simp
      moreover have "nHeight t - h = k + (nHeight t - k - h)" using le IH(4) by linarith
      ultimately show ?thesis using IH(3) by (simp only: up_add) simp
    qed (use IH(6) that in auto)
    then have "vs = path_to m tip t"
      using IH(5) by (intro nth_equalityI) (simp_all add: path_to_nth)
    then show ?thesis using True b IH(5) by (subst set_tip_loop.simps) simp
  next
    case False
    have "set_tip_loop m (Some q) (vs[nHeight b := Some p]) = Some (path_to m tip t)"
    proof (rule IH(1))
      show "n = nHeight t - Suc k" using IH(2) by simp
      show "Suc k \<le> nHeight t" using IH(2) by simp
      show "\<forall>h. nHeight t - Suc k < h \<and> h \<le> nHeight t \<longrightarrow>
          vs[nHeight b := Some p] ! h = up m (nHeight t - h) tip"
        using IH(2-6) b(2) by (auto simp: nth_list_update)
      show "\<forall>j\<le>nHeight t - Suc k. \<forall>x. vs[nHeight b := Some p] ! j = Some x \<longrightarrow>
          (\<forall>i\<le>j. vs[nHeight b := Some p] ! i = up m (j - i) x)"
        using IH(2,7) b(2) by (auto simp: nth_list_update)
    qed (use upq IH(5) in simp_all)
    then show ?thesis using False b q IH(5) by (subst set_tip_loop.simps) simp
  qed
qed

lemma SetTip_spec:
  assumes "block_map_wf m" "chain_ok m vChain" "m tip = Some t"
  shows "SetTip m vChain tip = Some (path_to m tip t)"
proof -
  have "linked m vChain" using assms(2) linked_path_to by (auto simp: chain_ok_def linked_def)
  then have "linked m (resize (nHeight t + 1) vChain)" by (rule linked_resize)
  then have below: "\<forall>j\<le>nHeight t - 0. \<forall>x. resize (nHeight t + 1) vChain ! j = Some x \<longrightarrow>
      (\<forall>i\<le>j. resize (nHeight t + 1) vChain ! i = up m (j - i) x)"
    unfolding linked_def by simp
  have "set_tip_loop m (Some tip) (resize (nHeight t + 1) vChain) = Some (path_to m tip t)"
    by (rule set_tip_loop_spec [OF assms(1,3) _ _ _ _ below]) auto
  then show ?thesis using assms(3) by (simp add: SetTip_def)
qed

lemma Contains_path_to:
  assumes "block_map_wf m" "m tip = Some t" "m p = Some b"
  shows "Contains m (path_to m tip t) p = Some (anc m p tip)"
proof (cases "nHeight b \<le> nHeight t")
  case True
  have "up m (nHeight t - nHeight b) tip = Some p" if a: "anc m p tip"
  proof -
    obtain n where n: "up m n tip = Some p" using a by (auto simp: anc_def)
    from up_height [OF assms(1,2) n] obtain c where "m p = Some c" "nHeight c + n = nHeight t" .
    then have "n = nHeight t - nHeight b" using assms(3) by simp
    then show ?thesis using n by simp
  qed
  then show ?thesis
    using True assms(3) by (auto simp: Contains_def chain_at_def path_to_nth anc_def)
next
  case False
  have "\<not> anc m p tip"
  proof
    assume "anc m p tip"
    then obtain n where n: "up m n tip = Some p" by (auto simp: anc_def)
    from up_height [OF assms(1,2) n] obtain c where "m p = Some c" "nHeight c + n = nHeight t" .
    then show False using False assms(3) by simp
  qed
  then show ?thesis using False assms(3) by (simp add: Contains_def chain_at_def)
qed

lemma anc_cases:
  assumes "m p = Some b" "anc m x p"
  shows "x = p \<or> (\<exists>q. pprev b = Some q \<and> anc m x q)"
proof -
  obtain n where n: "up m n p = Some x" using assms(2) by (auto simp: anc_def)
  then show ?thesis using assms(1) by (cases n; cases "pprev b") (auto simp: anc_def)
qed

lemma find_fork_loop_spec:
  assumes "block_map_wf m" "m tip = Some t" "m p = Some b"
  shows "\<exists>r. find_fork_loop m (path_to m tip t) (Some p) = Some r \<and> last_common m p tip r"
  using assms(3)
proof (induction "nHeight b" arbitrary: p b)
  case 0
  have pp: "pprev b = None" using wf_root [OF assms(1) 0(2)] 0(1) by simp
  have none: "find_fork_loop m (path_to m tip t) None = Some None" by (subst find_fork_loop.simps) simp
  show ?case
  proof (cases "anc m p tip")
    case True
    then show ?thesis
      using 0(2) Contains_path_to [OF assms(1,2) 0(2)] by (subst find_fork_loop.simps) (simp add: last_common_def common_def)
  next
    case False
    have "\<not> common m p tip x" for x using anc_cases [where m = m and p = p and x = x, OF 0(2)] pp False by (auto simp: common_def)
    then show ?thesis
      using 0(2) Contains_path_to [OF assms(1,2) 0(2)] False pp none
      by (subst find_fork_loop.simps) (simp add: last_common_def)
  qed
next
  case (Suc n)
  have "0 < nHeight b" using Suc(2) by simp
  from assms(1) Suc(3) this obtain q c where q: "pprev b = Some q" "m q = Some c" "nHeight b = Suc (nHeight c)"
    by (rule wf_parent)
  show ?case
  proof (cases "anc m p tip")
    case True
    then show ?thesis
      using Suc(3) Contains_path_to [OF assms(1,2) Suc(3)]
      by (subst find_fork_loop.simps) (simp add: last_common_def common_def)
  next
    case False
    have "up m 1 p = Some q" using Suc(3) q(1) by simp
    then have "common m q tip x \<longleftrightarrow> common m p tip x" for x
      using anc_cases [where m = m and p = p and x = x, OF Suc(3)] q(1) False anc_up [of m 1 p q x] by (auto simp: common_def)
    moreover have "\<exists>r. find_fork_loop m (path_to m tip t) (Some q) = Some r \<and> last_common m q tip r"
      using Suc(1) [of c q] Suc(2) q by simp
    ultimately show ?thesis
      using Suc(3) Contains_path_to [OF assms(1,2) Suc(3)] False q(1)
      by (subst find_fork_loop.simps) (simp add: last_common_def)
  qed
qed

lemma FindFork_spec:
  assumes "block_map_wf m" "m tip = Some t" "m p = Some b"
  shows "\<exists>r. FindFork m (path_to m tip t) p = Some r \<and> last_common m p tip r"
proof (cases "nHeight b \<le> nHeight t")
  case True
  then show ?thesis
    using find_fork_loop_spec [OF assms] assms(3) by (simp add: FindFork_def chain_Height_def)
next
  case False
  obtain q c where q: "up m (nHeight b - nHeight t) p = Some q" "m q = Some c" "nHeight c = nHeight t"
    using up_total [OF assms(1,3), of "nHeight b - nHeight t"] False by auto
  have "common m q tip x \<longleftrightarrow> common m p tip x" for x
    using common_rewind [OF assms(1,3,2) _ q(1)] False by simp
  then show ?thesis
    using find_fork_loop_spec [OF assms(1,2) q(2)] assms(3) q False
      GetAncestor_eq [OF assms(1,3), of "int (nHeight t)"]
    by (simp add: FindFork_def chain_Height_def last_common_def)
qed

section \<open>Binary search over the chain\<close>

lemma lower_bound_partition:
  assumes "first \<le> k" "k \<le> first + len" "first + len \<le> length xs"
    "\<forall>i < length xs. before (xs ! i) = Some (i < k)"
  shows "lower_bound before xs first len = Some k"
  using assms
proof (induction before xs first len rule: lower_bound.induct)
  case (1 before xs first len)
  show ?case
  proof (cases "len = 0")
    case True
    then show ?thesis using "1.prems" by (subst lower_bound.simps) simp
  next
    case False
    define half where "half = len div 2"
    have mid: "before (xs ! (first + half)) = Some (first + half < k)"
      using "1.prems"(3,4) False by (simp add: half_def)
    show ?thesis
    proof (cases "first + half < k")
      case lt: True
      have "lower_bound before xs (first + half + 1) (len - half - 1) = Some k"
        using "1.IH"(1) [of half "first + half" True] "1.prems" False lt mid by (simp add: half_def)
      then show ?thesis using False mid lt by (subst lower_bound.simps) (simp add: half_def Let_def)
    next
      case ge: False
      have "lower_bound before xs first half = Some k"
        using "1.IH"(2) [of half "first + half" False] "1.prems" False ge mid by (simp add: half_def)
      then show ?thesis using False mid ge by (subst lower_bound.simps) (simp add: half_def Let_def)
    qed
  qed
qed

lemma TimeMax_ge: "index_inv m \<Longrightarrow> m p = Some b \<Longrightarrow> GetBlockTime b \<le> GetBlockTimeMax b"
  using index_invD [of m p b] by (simp add: entry_inv_def GetBlockTime_def GetBlockTimeMax_def word_le_def)

lemma TimeMax_up:
  assumes "index_inv m" "m p = Some b" "up m n p = Some q" "m q = Some c"
  shows "nTimeMax c \<le> nTimeMax b"
  using assms(2-4)
proof (induction n arbitrary: p b)
  case (Suc n)
  then obtain r where r: "pprev b = Some r" "up m n r = Some q" by (cases "pprev b") auto
  then obtain d where d: "m r = Some d" using wf_closed(1) [OF index_inv_wf [OF assms(1)] Suc.prems(1)] by blast
  have "nTimeMax d \<le> nTimeMax b"
    using index_invD [OF assms(1) Suc.prems(1)] r d by (simp add: entry_inv_def)
  then show ?case using Suc.IH [OF d r(2) Suc.prems(3)] by simp
qed simp

definition early :: "block_map \<Rightarrow> CChain \<Rightarrow> int \<Rightarrow> int \<Rightarrow> nat \<Rightarrow> bool" where
  "early m vs t height i \<longleftrightarrow>
     (case Option.bind (vs ! i) m of None \<Rightarrow> False | Some b \<Rightarrow> GetBlockTimeMax b < t \<or> int (nHeight b) < height)"

lemma path_to_entry:
  assumes "block_map_wf m" "m tip = Some b" "i \<le> nHeight b"
  shows "\<exists>q c. path_to m tip b ! i = Some q \<and> m q = Some c \<and> nHeight c = i \<and> up m (nHeight b - i) tip = Some q"
proof -
  obtain q c where "up m (nHeight b - i) tip = Some q" "m q = Some c" "nHeight c = nHeight b - (nHeight b - i)"
    using up_total [OF assms(1,2), of "nHeight b - i"] by auto
  then show ?thesis using assms(3) by (simp add: path_to_nth)
qed

lemma early_downward:
  assumes "index_inv m" "m tip = Some b" "early m (path_to m tip b) t height j" "i \<le> j" "j \<le> nHeight b"
  shows "early m (path_to m tip b) t height i"
proof -
  note wf = index_inv_wf [OF assms(1)]
  obtain q c where q: "path_to m tip b ! j = Some q" "m q = Some c" "nHeight c = j" "up m (nHeight b - j) tip = Some q"
    using path_to_entry [OF wf assms(2,5)] by blast
  have "i \<le> nHeight b" using assms(4,5) by simp
  then obtain r d where r: "path_to m tip b ! i = Some r" "m r = Some d" "nHeight d = i" "up m (nHeight b - i) tip = Some r"
    using path_to_entry [OF wf assms(2)] by blast
  have "up m (j - i) q = Some r"
    using up_add [of m "nHeight b - j" "j - i" tip] q(4) r(4) assms(4,5) by simp
  then have "nTimeMax d \<le> nTimeMax c" by (rule TimeMax_up [OF assms(1) q(2) _ r(2)])
  then show ?thesis
    using assms(3,4) q r by (auto simp: early_def GetBlockTimeMax_def word_le_def)
qed

lemma FindEarliestAtLeast_spec:
  assumes "index_inv m" "m tip = Some b" and vs: "vs = path_to m tip b"
  shows "\<exists>k \<le> length vs. FindEarliestAtLeast m vs t height = Some (if k = length vs then None else vs ! k) \<and>
    (\<forall>i < length vs. early m vs t height i \<longleftrightarrow> i < k)"
proof -
  define k where "k = (LEAST k. k = length vs \<or> k < length vs \<and> \<not> early m vs t height k)"
  have k: "k = length vs \<or> k < length vs \<and> \<not> early m vs t height k"
    unfolding k_def by (rule LeastI [of _ "length vs"]) simp
  then have le: "k \<le> length vs" by auto
  have part: "early m vs t height i \<longleftrightarrow> i < k" if i: "i < length vs" for i
  proof
    assume e: "early m vs t height i"
    show "i < k"
    proof (rule ccontr)
      assume "\<not> i < k"
      then show False using k early_downward [OF assms(1,2) e [unfolded vs], of k] i by (auto simp: vs)
    qed
  next
    assume "i < k"
    then show "early m vs t height i" using not_less_Least [of i] i unfolding k_def by blast
  qed
  have "lower_bound (\<lambda>pBlock. do { p \<leftarrow> pBlock; b \<leftarrow> m p;
      Some (GetBlockTimeMax b < t \<or> int (nHeight b) < height) }) vs 0 (length vs) = Some k"
  proof (rule lower_bound_partition)
    show "\<forall>i<length vs. (vs ! i \<bind> (\<lambda>p. m p \<bind> (\<lambda>b. Some (GetBlockTimeMax b < t \<or> int (nHeight b) < height)))) = Some (i < k)"
    proof (intro allI impI)
      fix i assume i: "i < length vs"
      then obtain q c where "vs ! i = Some q" "m q = Some c"
        using path_to_entry [OF index_inv_wf [OF assms(1)] assms(2), of i] by (auto simp: vs)
      then show "(vs ! i \<bind> (\<lambda>p. m p \<bind> (\<lambda>b. Some (GetBlockTimeMax b < t \<or> int (nHeight b) < height)))) = Some (i < k)"
        using part [OF i] by (simp add: early_def)
    qed
  qed (use le in simp_all)
  then show ?thesis using le part by (auto simp: FindEarliestAtLeast_def)
qed

section \<open>The median of the last block times\<close>

text \<open>The times of the last \<open>n\<close> blocks up to \<open>p\<close>, newest first.\<close>

fun recent_times :: "block_map \<Rightarrow> nat \<Rightarrow> ptr \<Rightarrow> int list" where
  "recent_times m 0 p = []"
| "recent_times m (Suc n) p =
     (case Option.bind p m of None \<Rightarrow> [] | Some b \<Rightarrow> GetBlockTime b # recent_times m n (pprev b))"

lemma median_times_eq:
  assumes "block_map_wf m" "\<forall>q. p = Some q \<longrightarrow> m q \<noteq> None"
  shows "median_times m n p acc = Some (rev (recent_times m n p) @ acc)"
  using assms(2)
proof (induction n arbitrary: p acc)
  case (Suc n)
  show ?case
  proof (cases p)
    case (Some q)
    then obtain b where b: "m q = Some b" using Suc.prems by auto
    then have "\<forall>r. pprev b = Some r \<longrightarrow> m r \<noteq> None" using wf_closed(1) [OF assms(1) b] by blast
    then show ?thesis using Suc.IH Some b by simp
  qed simp
qed simp

lemma recent_times_Suc:
  "recent_times m (Suc n) p = recent_times m n p \<or> (\<exists>x. recent_times m (Suc n) p = recent_times m n p @ [x])"
proof (induction n arbitrary: p)
  case 0
  then show ?case by (cases "Option.bind p m") auto
next
  case (Suc n)
  show ?case
  proof (cases "Option.bind p m")
    case (Some b)
    then show ?thesis using Suc.IH [of "pprev b"] by auto
  qed simp
qed

lemma length_recent_times: "length (recent_times m n p) \<le> n"
  by (induction n arbitrary: p) (auto split: option.splits)

lemma sorted_nth_ge:
  "sorted s \<Longrightarrow> k < length s \<Longrightarrow> M \<le> s ! k \<longleftrightarrow> length (filter (\<lambda>x. x < M) s) \<le> k" for M :: int
proof (induction s arbitrary: k)
  case (Cons a s)
  show ?case
  proof (cases "M \<le> a")
    case True
    then have "filter (\<lambda>x. x < M) (a # s) = []" using Cons.prems(1) by (fastforce simp: filter_empty_conv)
    moreover have "a \<le> (a # s) ! k" using Cons.prems by (cases k) simp_all
    ultimately show ?thesis using True by (metis le0 list.size(3) order_trans)
  next
    case False
    then show ?thesis using Cons by (cases k) simp_all
  qed
qed simp

lemma sort_nth_ge:
  "k < length xs \<Longrightarrow> M \<le> sort xs ! k \<longleftrightarrow> length (filter (\<lambda>x. x < M) xs) \<le> k" for M :: int
  using sorted_nth_ge [of "sort xs" k M] by (simp add: filter_sort)

lemma GetMedianTimePast_eq:
  assumes "block_map_wf m" "m p = Some b"
  shows "GetMedianTimePast m p =
    Some (sort (recent_times m 11 (Some p)) ! (length (recent_times m 11 (Some p)) div 2))"
proof -
  have "sort (rev xs) = sort xs" for xs :: "int list"
    by (rule properties_for_sort) simp_all
  then show ?thesis
    using median_times_eq [OF assms(1), of "Some p" 11 "[]"] assms(2)
    by (simp add: GetMedianTimePast_def nMedianTimeSpan_def)
qed

lemma recent_times_nonempty: "m p = Some b \<Longrightarrow> 0 < n \<Longrightarrow> recent_times m n (Some p) \<noteq> []"
  by (cases n) auto

lemma median_time_step:
  assumes "block_map_wf m" "m p = Some b" "m c = Some d" "pprev d = Some p"
    "GetMedianTimePast m p = Some t" "t < GetBlockTime d"
  shows "\<exists>t'. GetMedianTimePast m c = Some t' \<and> t \<le> t'"
proof -
  define old where "old = recent_times m 11 (Some p)"
  define new where "new = recent_times m 11 (Some c)"
  have ne: "old \<noteq> []" unfolding old_def using assms(2) by (simp add: recent_times_nonempty)
  have new: "new = GetBlockTime d # recent_times m 10 (Some p)"
    unfolding new_def using assms(3,4) by (simp add: numeral_eq_Suc)
  have drop: "old = recent_times m 10 (Some p) \<or> (\<exists>x. old = recent_times m 10 (Some p) @ [x])"
    unfolding old_def using recent_times_Suc [of m 10 "Some p"] by simp
  have t: "t = sort old ! (length old div 2)"
    using assms(5) GetMedianTimePast_eq [OF assms(1,2)] by (simp add: old_def)
  then have "length (filter (\<lambda>x. x < t) old) \<le> length old div 2"
    using sort_nth_ge [of "length old div 2" old t] ne by simp
  moreover have "length (filter (\<lambda>x. x < t) new) \<le> length (filter (\<lambda>x. x < t) old)"
    using drop assms(6) by (auto simp: new)
  moreover have "length old \<le> length new" using drop by (auto simp: new)
  ultimately have "length (filter (\<lambda>x. x < t) new) \<le> length new div 2"
    by (meson div_le_mono order_trans)
  then have "t \<le> sort new ! (length new div 2)"
    using sort_nth_ge [of "length new div 2" new t] by (simp add: new)
  then show ?thesis using GetMedianTimePast_eq [OF assms(1,3)] by (simp add: new_def)
qed

section \<open>The block locator\<close>

lemma locator_loop_spec:
  assumes "index_inv m" "m p = Some b" "1 \<le> step"
  shows "\<exists>es. locator_loop m (Some p) step acc = Some (acc @ es) \<and> es \<noteq> [] \<and> hd es = p \<and>
    up m (nHeight b) p = Some (last es) \<and> (\<forall>x\<in>set es. anc m x p)"
  using assms(2,3)
proof (induction "nHeight b" arbitrary: p b step acc rule: less_induct)
  case less
  note wf = index_inv_wf [OF assms(1)]
  have h: "phashBlock b = Some p" using index_invD [OF assms(1) less.prems(1)] by (simp add: entry_inv_def)
  show ?case
  proof (cases "nHeight b = 0")
    case True
    then show ?thesis using less.prems h by (subst locator_loop.simps) simp
  next
    case False
    define k where "k = nat (max (int (nHeight b) - step) 0)"
    have k: "k < nHeight b" "max (int (nHeight b) - step) 0 = int k" using False less.prems(2) by (auto simp: k_def)
    obtain q c where q: "up m (nHeight b - k) p = Some q" "m q = Some c" "nHeight c = k"
      using up_total [OF wf less.prems(1), of "nHeight b - k"] k(1) by auto
    define step' where "step' = (if length (acc @ [p]) > 10 then step * 2 else step)"
    have "1 \<le> step'" using less.prems(2) by (simp add: step'_def)
    then obtain es where es: "locator_loop m (Some q) step' (acc @ [p]) = Some ((acc @ [p]) @ es)" "es \<noteq> []"
      "up m (nHeight c) q = Some (last es)" "\<forall>x\<in>set es. anc m x q"
      using less.hyps [OF _ q(2), of step' "acc @ [p]"] k(1) q(3) by blast
    have anc: "GetAncestor m p (int k) = Some (Some q)"
      using GetAncestor_eq [OF wf less.prems(1), of "int k"] k(1) q(1) by simp
    have "locator_loop m (Some p) step acc = locator_loop m (Some q) step' (acc @ [p])"
      using less.prems(1) h False k(2) anc by (subst locator_loop.simps) (simp add: Let_def step'_def)
    moreover have "up m (nHeight b) p = Some (last (p # es))"
      using up_add [of m "nHeight b - k" k p] q es(2,3) k(1) by simp
    moreover have "\<forall>x\<in>set (p # es). anc m x p" using es(4) anc_up [OF q(1)] by simp
    ultimately show ?thesis using es(1) by (intro exI [of _ "p # es"]) simp
  qed
qed

section \<open>Properties\<close>

text \<open>
  C3. \<open>LastCommonAncestor\<close> always returns on two blocks of a well-formed tree: the result is an
  ancestor of both, every common ancestor is an ancestor of it, and it is \<open>nullptr\<close> exactly when
  the blocks share no ancestor.
\<close>

theorem last_common_ancestor_correct:
  assumes "block_map_wf m" "m pa = Some a" "m pb = Some b"
  shows "\<exists>r. LastCommonAncestor m pa pb = Some r \<and>
    (r = None \<longleftrightarrow> (\<forall>x. \<not> common m pa pb x)) \<and>
    (\<forall>x. r = Some x \<longrightarrow> common m pa pb x \<and> (\<forall>y. common m pa pb y \<longrightarrow> anc m y x))"
  using LastCommonAncestor_spec [OF assms] by (auto simp: last_common_def)

theorem last_common_ancestor_correct_witness:
  "\<exists>r. LastCommonAncestor example_map [3] [4] = Some r \<and> r \<noteq> None"
proof -
  obtain b where b: "example_map [3] = Some b" "pprev b = Some [2]" using example_map_entries by auto
  obtain d where d: "example_map [4] = Some d" "pprev d = Some [2]" using example_map_entries by auto
  have "up example_map 1 [3] = Some [2]" "up example_map 1 [4] = Some [2]" using b d by simp_all
  then have "common example_map [3] [4] [2]" unfolding common_def anc_def by blast
  then show ?thesis
    using last_common_ancestor_correct [OF index_inv_wf [OF example_map_inv] b(1) d(1)] by blast
qed

text \<open>
  C12. \<open>SetTip\<close> ends and leaves in the vector, at every height up to the tip's, the tip's ancestor at
  that height, whatever chain was active before.
\<close>

theorem set_tip_correct:
  assumes "block_map_wf m" "chain_ok m vChain" "m tip = Some t"
  shows "\<exists>vs. SetTip m vChain tip = Some vs \<and> chain_ok m vs \<and> length vs = nHeight t + 1 \<and>
    chain_Tip vs = Some tip \<and> (\<forall>h \<le> nHeight t. chain_at vs (int h) = up m (nHeight t - h) tip)"
proof -
  have "chain_Tip (path_to m tip t) = Some tip" by (simp add: chain_Tip_def path_to_nth)
  moreover have "chain_ok m (path_to m tip t)" using assms(3) unfolding chain_ok_def by blast
  ultimately show ?thesis using SetTip_spec [OF assms] by (simp add: chain_at_def path_to_nth)
qed

theorem set_tip_correct_witness:
  "\<exists>vs. SetTip example_map [Some [1], Some [2], Some [4]] [3] = Some vs \<and> chain_at vs 1 = Some [2] \<and> chain_at vs 2 = Some [3]"
proof -
  obtain b where b: "example_map [3] = Some b" "nHeight b = 2" "pprev b = Some [2]" using example_map_entries by auto
  obtain d where d: "example_map [4] = Some d" "nHeight d = 2" "pprev d = Some [2]" using example_map_entries by auto
  obtain c where c: "example_map [2] = Some c" "pprev c = Some [1]" using example_map_entries by auto
  have "path_to example_map [4] d = [Some [1], Some [2], Some [4]]"
    using c d by (simp add: path_to_def upt_conv_Cons numeral_2_eq_2)
  then have "chain_ok example_map [Some [1], Some [2], Some [4]]" using d(1) unfolding chain_ok_def by metis
  from set_tip_correct [OF index_inv_wf [OF example_map_inv] this b(1)] obtain vs where
    vs: "SetTip example_map [Some [1], Some [2], Some [4]] [3] = Some vs"
    "\<forall>h \<le> nHeight b. chain_at vs (int h) = up example_map (nHeight b - h) [3]" by blast
  then have "chain_at vs (int 1) = Some [2]" "chain_at vs (int 2) = Some [3]"
    using b vs(2) [rule_format, of 1] vs(2) [rule_format, of 2] by simp_all
  then show ?thesis using vs(1) by auto
qed

text \<open>
  C13. \<open>FindFork\<close> of any block against the chain of a tip ends and returns the last common ancestor of
  the block and the tip, or \<open>nullptr\<close> if there is none.
\<close>

theorem find_fork_correct:
  assumes "block_map_wf m" "m tip = Some t" "m p = Some b"
  shows "\<exists>r. FindFork m (path_to m tip t) p = Some r \<and> last_common m p tip r"
  using assms by (rule FindFork_spec)

theorem find_fork_correct_witness:
  "\<exists>t r. example_map [3] = Some t \<and> FindFork example_map (path_to example_map [3] t) [4] = Some r
     \<and> last_common example_map [4] [3] r"
proof -
  obtain b where b: "example_map [3] = Some b" using example_map_entries by auto
  obtain d where d: "example_map [4] = Some d" using example_map_entries by auto
  show ?thesis using find_fork_correct [OF index_inv_wf [OF example_map_inv] b d] b by blast
qed

text \<open>
  C14. \<open>FindEarliestAtLeast\<close> returns the lowest block of the chain whose running time maximum \<open>nTimeMax\<close> and whose height
  reach the given bounds, and \<open>nullptr\<close> when no block does: the running maximum makes the binary search sound. No block below the one
  returned has a timestamp and a height that reach the bounds.
\<close>

theorem find_earliest_at_least_correct:
  assumes "index_inv m" "m tip = Some b" and vs: "vs = path_to m tip b"
  shows "\<exists>k \<le> length vs. FindEarliestAtLeast m vs t height = Some (if k = length vs then None else vs ! k) \<and>
    (\<forall>i < length vs. early m vs t height i \<longleftrightarrow> i < k) \<and>
    (\<forall>i < k. \<exists>q c. vs ! i = Some q \<and> m q = Some c \<and> (GetBlockTime c < t \<or> int (nHeight c) < height))"
proof -
  obtain k where k: "k \<le> length vs" "FindEarliestAtLeast m vs t height = Some (if k = length vs then None else vs ! k)"
    "\<forall>i < length vs. early m vs t height i \<longleftrightarrow> i < k"
    using FindEarliestAtLeast_spec [OF assms, of t height] by blast
  have "\<exists>q c. vs ! i = Some q \<and> m q = Some c \<and> (GetBlockTime c < t \<or> int (nHeight c) < height)" if i: "i < k" for i
  proof -
    have "early m vs t height i" using k(1,3) i by simp
    then obtain q c where q: "vs ! i = Some q" "m q = Some c" "GetBlockTimeMax c < t \<or> int (nHeight c) < height"
      by (auto simp: early_def bind_eq_Some_conv split: option.splits)
    have "GetBlockTime c \<le> GetBlockTimeMax c" using TimeMax_ge [OF assms(1) q(2)] .
    then show ?thesis using q by auto
  qed
  then show ?thesis using k by blast
qed

lemma example_map_max_times:
  "map_option GetBlockTimeMax (example_map [1]) = Some 100" "map_option GetBlockTimeMax (example_map [2]) = Some 220"
  by (simp_all add: example_map_def Let_def new_entry_def example_header_def CBlockIndex_of_header_def GetBlockTimeMax_def)

theorem find_earliest_at_least_correct_witness:
  "\<exists>b. example_map [3] = Some b \<and> FindEarliestAtLeast example_map (path_to example_map [3] b) 200 0 = Some (Some [2])"
proof -
  obtain b where b: "example_map [3] = Some b" "nHeight b = 2" using example_map_entries by auto
  have up: "path_to example_map [3] b ! 0 = Some [1]" "path_to example_map [3] b ! Suc 0 = Some [2]"
    using b example_map_entries by (auto simp: path_to_nth numeral_2_eq_2)
  obtain k where k: "k \<le> 3" "FindEarliestAtLeast example_map (path_to example_map [3] b) 200 0 =
      Some (if k = 3 then None else path_to example_map [3] b ! k)"
    "\<forall>i < 3. early example_map (path_to example_map [3] b) 200 0 i \<longleftrightarrow> i < k"
    using find_earliest_at_least_correct [OF example_map_inv b(1) refl, of 200 0] b(2) by auto
  have "early example_map (path_to example_map [3] b) 200 0 0" "\<not> early example_map (path_to example_map [3] b) 200 0 (Suc 0)"
    using example_map_max_times by (auto simp: early_def up split: option.splits)
  then have "k = 1" using k(3) [rule_format, of 0] k(3) [rule_format, of "Suc 0"] by simp
  then show ?thesis using b(1) k(2) up(2) by simp
qed

text \<open>
  The block returned may itself be older than the time asked for: with block times 100, 500 and 200, asking for a block
  of time 300 at height 2 or above gives the one of time 200.
\<close>

definition skewed_map :: block_map where
  "skewed_map =
     (let m0 = Map.empty([1] \<mapsto> new_entry [1] Map.empty (example_header 0 1 100) (arith_uint256 1));
          m1 = m0([2] \<mapsto> new_entry [2] m0 (example_header 1 2 500) (arith_uint256 1))
      in m1([3] \<mapsto> new_entry [3] m1 (example_header 2 3 200) (arith_uint256 1)))"

lemma skewed_map_inv: "index_inv skewed_map"
proof -
  have "index_inv Map.empty" by (simp add: index_inv_def)
  then show ?thesis
    unfolding skewed_map_def Let_def
    by (intro index_inv_extend new_entry_inv [OF _ _ _ _ refl]) (simp_all add: example_header_def)
qed

lemma skewed_map_entries:
  "map_option (\<lambda>b. (nHeight b, GetBlockTime b, GetBlockTimeMax b)) (skewed_map [3]) = Some (2, 200, 500)"
  "map_option pprev (skewed_map [3]) = Some (Some [2])" "map_option pprev (skewed_map [2]) = Some (Some [1])"
  "map_option nHeight (skewed_map [2]) = Some 1" "map_option nHeight (skewed_map [1]) = Some 0"
  by (simp_all add: skewed_map_def Let_def new_entry_def example_header_def CBlockIndex_of_header_def GetBlockTimeMax_def GetBlockTime_def)

lemma find_earliest_older_than_asked:
  "\<exists>b. skewed_map [3] = Some b \<and> GetBlockTime b = 200 \<and>
     FindEarliestAtLeast skewed_map (path_to skewed_map [3] b) 300 2 = Some (Some [3])"
proof -
  obtain b where b: "skewed_map [3] = Some b" "nHeight b = 2" "GetBlockTime b = 200" "GetBlockTimeMax b = 500" using skewed_map_entries by auto
  let ?vs = "path_to skewed_map [3] b"
  have vs: "?vs ! 0 = Some [1]" "?vs ! Suc 0 = Some [2]" "?vs ! 2 = Some [3]"
    using b skewed_map_entries by (auto simp: path_to_nth numeral_2_eq_2)
  obtain k where k: "k \<le> 3" "FindEarliestAtLeast skewed_map ?vs 300 2 = Some (if k = 3 then None else ?vs ! k)"
    "\<forall>i < 3. early skewed_map ?vs 300 2 i \<longleftrightarrow> i < k"
    using FindEarliestAtLeast_spec [OF skewed_map_inv b(1) refl, of 300 2] b(2) by auto
  have "early skewed_map ?vs 300 2 (Suc 0)" "\<not> early skewed_map ?vs 300 2 2"
    using b skewed_map_entries(4) by (auto simp: early_def vs)
  then have "k = 2" using k(3) [rule_format, of "Suc 0"] k(3) [rule_format, of 2] by simp
  then show ?thesis using b k(2) vs(3) by simp
qed

text \<open>
  C15. The median time past never decreases along a chain: if a block's time is above the median of
  its parent, as the header check requires, its own median is at least its parent's.
\<close>

theorem median_time_past_monotone:
  assumes "block_map_wf m" "m p = Some b" "m c = Some d" "pprev d = Some p"
    "GetMedianTimePast m p = Some t" "t < GetBlockTime d"
  shows "\<exists>t'. GetMedianTimePast m c = Some t' \<and> t \<le> t'"
  using assms by (rule median_time_step)

lemma example_map_times:
  "map_option GetBlockTime (example_map [3]) = Some 340" "map_option GetBlockTime (example_map [2]) = Some 220"
  "map_option GetBlockTime (example_map [1]) = Some 100"
  by (simp_all add: example_map_def Let_def new_entry_def example_header_def CBlockIndex_of_header_def GetBlockTime_def)

theorem median_time_past_monotone_witness:
  "\<exists>t'. GetMedianTimePast example_map [3] = Some t' \<and> 220 \<le> t'"
proof -
  obtain b where b: "example_map [3] = Some b" "pprev b = Some [2]" "GetBlockTime b = 340"
    using example_map_entries example_map_times by auto
  obtain c where c: "example_map [2] = Some c" "pprev c = Some [1]" "GetBlockTime c = 220"
    using example_map_entries example_map_times by auto
  obtain a where a: "example_map [1] = Some a" "pprev a = None" "GetBlockTime a = 100"
    using example_map_entries example_map_times by auto
  have "GetMedianTimePast example_map [2] = Some 220"
    using a c by (simp add: GetMedianTimePast_def nMedianTimeSpan_def numeral_eq_Suc)
  then show ?thesis
    using median_time_past_monotone [OF index_inv_wf [OF example_map_inv] c(1) b(1,2)] b(3) by simp
qed

text \<open>
  C16. \<open>LocatorEntries\<close> ends for every block of the tree: the locator starts with the block's own hash,
  ends with the hash of its root, and holds hashes of its ancestors only.
\<close>

theorem locator_entries_correct:
  assumes "index_inv m" "m p = Some b"
  shows "\<exists>es. LocatorEntries m (Some p) = Some es \<and> es \<noteq> [] \<and> hd es = p \<and>
    up m (nHeight b) p = Some (last es) \<and> list_all (\<lambda>x. anc m x p) es"
  using locator_loop_spec [OF assms, of 1 "[]"] by (auto simp: LocatorEntries_def list_all_iff)

theorem locator_entries_correct_witness:
  "\<exists>es. LocatorEntries example_map (Some [3]) = Some es \<and> hd es = [3] \<and> last es = [1]"
proof -
  obtain b where b: "example_map [3] = Some b" "nHeight b = 2" "pprev b = Some [2]" using example_map_entries by auto
  obtain c where c: "example_map [2] = Some c" "pprev c = Some [1]" using example_map_entries by auto
  have "up example_map 2 [3] = Some [1]" using b c by (simp add: numeral_2_eq_2)
  then show ?thesis using locator_entries_correct [OF example_map_inv b(1)] b(2) by auto
qed

end
