(* ===== verification/Difficulty.thy ===== *)
theory Difficulty
  imports Chain
begin

unbundle bit_operations_syntax

text \<open>
  Difficulty adjustment and proof-of-work checks (\<open>pow/difficulty.cpp\<close>, \<open>pow.cpp\<close>, and
  \<open>ContextualCheckBlockHeader\<close> of \<open>validation.cpp\<close>). \<open>arith_uint256\<close> values are digit lists; the
  arithmetic laws used are those of the interpretation \<open>u256\<close>. The times are 32-bit, so the signed
  64-bit arithmetic of the window never overflows and is plain integer arithmetic here.
\<close>

record Params =
  hashGenesisBlock :: uint256
  BIP34Height :: int
  BIP65Height :: int
  BIP66Height :: int
  powLimit :: uint256
  fPowAllowMinDifficultyBlocks :: bool
  enforce_BIP94 :: bool
  fPowNoRetargeting :: bool
  nPowTargetSpacing :: int

definition TKN_DIFF_WINDOW :: nat where "TKN_DIFF_WINDOW = 12"

definition TKN_RATIO_SCALE :: int where [consts_defs]: "TKN_RATIO_SCALE = 1024"

definition TKN_RATIO_MIN :: int where [consts_defs]: "TKN_RATIO_MIN = 819"

definition TKN_RATIO_MAX :: int where [consts_defs]: "TKN_RATIO_MAX = 1229"

definition MAX_TIMEWARP :: int where "MAX_TIMEWARP = 600"

definition MAX_FUTURE_BLOCK_TIME :: int where "MAX_FUTURE_BLOCK_TIME = 2 * 60 * 60"

text \<open>The window loop; its first argument is \<open>TKN_DIFF_WINDOW - count\<close>.\<close>

fun window_loop :: "block_map \<Rightarrow> nat \<Rightarrow> ptr \<Rightarrow> int \<Rightarrow> int \<Rightarrow> (int \<times> int) option" where
  "window_loop m 0 p total_timespan n_blocks = Some (total_timespan, n_blocks)"
| "window_loop m (Suc n) p total_timespan n_blocks =
     (case p of
        None \<Rightarrow> Some (total_timespan, n_blocks)
      | Some a \<Rightarrow> do {
          b \<leftarrow> m a;
          case pprev b of
            None \<Rightarrow> Some (total_timespan, n_blocks)
          | Some q \<Rightarrow> do {
              c \<leftarrow> m q;
              window_loop m n (pprev b) (total_timespan + (GetBlockTime b - GetBlockTime c)) (n_blocks + 1)
            }
        })"

definition clamp_ratio :: "int \<Rightarrow> int" where
  "clamp_ratio ratio =
     (let ratio = (if ratio < TKN_RATIO_MIN then TKN_RATIO_MIN else ratio)
      in if ratio > TKN_RATIO_MAX then TKN_RATIO_MAX else ratio)"

definition ClampDifficulty :: "base_uint \<Rightarrow> base_uint \<Rightarrow> base_uint \<Rightarrow> base_uint" where
  "ClampDifficulty new_target parent_target pow_limit =
     (let clamped = (if CompareTo new_target pow_limit > 0 then pow_limit else new_target)
      in if EqualTo clamped 0 then arith_uint256 1 else clamped)"

text \<open>
  \<open>parent_target * (uint64_t)ratio\<close> selects the 32-bit overload of the product. The last two tests
  of the function are those of \<open>ClampDifficulty\<close>, written out in the source.
\<close>

definition CalculateNextDifficultyTarget :: "block_map \<Rightarrow> Params \<Rightarrow> ptr \<Rightarrow> base_uint option" where
  "CalculateNextDifficultyTarget m params pindexLast =
     (case pindexLast of
        None \<Rightarrow> Some (UintToArith256 (powLimit params))
      | Some p \<Rightarrow> do {
          tip \<leftarrow> m p;
          let parent_target = fst (SetCompact (nBits tip));
          if pprev tip = None then Some parent_target
          else do {
            let pow_limit = UintToArith256 (powLimit params);
            let target_spacing = nPowTargetSpacing params;
            (total_timespan, n_blocks) \<leftarrow> window_loop m TKN_DIFF_WINDOW pindexLast 0 0;
            if n_blocks = 0 then Some parent_target
            else if target_spacing = 0 then None
            else do {
              let avg_timespan = total_timespan sdiv n_blocks;
              let ratio = clamp_ratio ((avg_timespan * TKN_RATIO_SCALE) sdiv target_spacing);
              new_target \<leftarrow> base_uint_div (base_uint_mul32 parent_target (word_of_int ratio))
                               (arith_uint256 (word_of_int TKN_RATIO_SCALE));
              let new_target = (if CompareTo new_target pow_limit > 0 then pow_limit else new_target);
              Some (if EqualTo new_target 0 then arith_uint256 1 else new_target)
            }
          }
        })"

definition CalculateNextWorkRequired :: "block_map \<Rightarrow> Params \<Rightarrow> uint256 \<Rightarrow> 32 word option" where
  "CalculateNextWorkRequired m params pindexLast = do {
     b \<leftarrow> m pindexLast;
     if fPowNoRetargeting params then Some (nBits b)
     else do { t \<leftarrow> CalculateNextDifficultyTarget m params (Some pindexLast); GetCompact t False }
   }"

definition GetNextWorkRequired :: "block_map \<Rightarrow> Params \<Rightarrow> uint256 \<Rightarrow> CBlockHeader \<Rightarrow> 32 word option" where
  "GetNextWorkRequired m params pindexLast pblock = do {
     b \<leftarrow> m pindexLast;
     if fPowNoRetargeting params then Some (nBits b)
     else if fPowAllowMinDifficultyBlocks params
        \<and> uint (hdr_nTime pblock) > GetBlockTime b + nPowTargetSpacing params * 2
     then GetCompact (UintToArith256 (powLimit params)) False
     else do { t \<leftarrow> CalculateNextDifficultyTarget m params (Some pindexLast); GetCompact t False }
   }"

text \<open>\<open>None\<close> is the division by zero that cannot happen, the divisor being the constant 4.\<close>

definition PermittedDifficultyTransition :: "Params \<Rightarrow> 32 word \<Rightarrow> 32 word \<Rightarrow> bool option" where
  "PermittedDifficultyTransition params old_nbits new_nbits =
     (if fPowAllowMinDifficultyBlocks params then Some True
      else
        let pow_limit = UintToArith256 (powLimit params);
            new_target = fst (SetCompact new_nbits)
        in if CompareTo new_target pow_limit > 0 then Some False
        else do {
          let old_target = fst (SetCompact old_nbits);
          let max_target = base_uint_mul32 old_target 4;
          let max_target = (if CompareTo max_target pow_limit > 0 then pow_limit else max_target);
          min_target \<leftarrow> base_uint_div old_target (arith_uint256 4);
          let min_target = (if EqualTo min_target 0 then arith_uint256 1 else min_target);
          Some (\<not> CompareTo new_target max_target > 0 \<and> \<not> CompareTo new_target min_target < 0)
        })"

definition DeriveTarget :: "32 word \<Rightarrow> uint256 \<Rightarrow> base_uint option" where
  "DeriveTarget bits pow_limit =
     (let (bnTarget, fNegative, fOverflow) = SetCompact bits in
      if fNegative \<or> EqualTo bnTarget 0 \<or> fOverflow \<or> CompareTo bnTarget (UintToArith256 pow_limit) > 0
      then None else Some bnTarget)"

definition CheckProofOfWorkImpl :: "uint256 \<Rightarrow> 32 word \<Rightarrow> Params \<Rightarrow> bool" where
  "CheckProofOfWorkImpl hash bits params =
     (case DeriveTarget bits (powLimit params) of
        None \<Rightarrow> False
      | Some bnTarget \<Rightarrow> if CompareTo (UintToArith256 hash) bnTarget > 0 then False else True)"

text \<open>
  The two overloads. \<open>fuzz\<close> is \<open>EnableFuzzDeterminism()\<close>; \<open>GetHash\<close> and \<open>TKNCComputeHash\<close> are the
  identity hash and the proof-of-work hash of a header.
\<close>

definition CheckProofOfWork_hash :: "bool \<Rightarrow> uint256 \<Rightarrow> 32 word \<Rightarrow> Params \<Rightarrow> bool" where
  "CheckProofOfWork_hash fuzz hash bits params =
     (if hash = hashGenesisBlock params then True
      else if fuzz then (hash ! 31) AND 0x80 = 0
      else CheckProofOfWorkImpl hash bits params)"

definition CheckProofOfWork ::
  "bool \<Rightarrow> (CBlockHeader \<Rightarrow> uint256) \<Rightarrow> (CBlockHeader \<Rightarrow> uint256) \<Rightarrow> CBlockHeader \<Rightarrow> Params \<Rightarrow> bool" where
  "CheckProofOfWork fuzz GetHash TKNCComputeHash header params =
     (if GetHash header = hashGenesisBlock params then True
      else if fPowNoRetargeting params \<and> fuzz then (GetHash header ! 31) AND 0x80 = 0
      else case DeriveTarget (hdr_nBits header) (powLimit params) of
        None \<Rightarrow> False
      | Some bnTarget \<Rightarrow>
          if hdr_nTime header = 0 then False
          else if CompareTo (UintToArith256 (TKNCComputeHash header)) bnTarget > 0 then False
          else True)"

datatype header_error = bad_diffbits | time_too_old | time_timewarp_attack | time_too_new | bad_version

text \<open>
  \<open>now\<close> is \<open>NodeClock::now()\<close> in seconds. The outer \<open>None\<close> is a failed assertion, the inner one
  acceptance.
\<close>

definition ContextualCheckBlockHeader ::
  "block_map \<Rightarrow> Params \<Rightarrow> int \<Rightarrow> CBlockHeader \<Rightarrow> uint256 \<Rightarrow> header_error option option" where
  "ContextualCheckBlockHeader m params now block pindexPrev = do {
     prev \<leftarrow> m pindexPrev;
     bits \<leftarrow> GetNextWorkRequired m params pindexPrev block;
     mtp \<leftarrow> GetMedianTimePast m pindexPrev;
     let version = sint (hdr_nVersion block);
     let active = (\<lambda>height. int (nHeight prev) + 1 \<ge> height);
     Some (if hdr_nBits block \<noteq> bits then Some bad_diffbits
           else if uint (hdr_nTime block) \<le> mtp then Some time_too_old
           else if enforce_BIP94 params \<and> uint (hdr_nTime block) < GetBlockTime prev - MAX_TIMEWARP
             then Some time_timewarp_attack
           else if uint (hdr_nTime block) > now + MAX_FUTURE_BLOCK_TIME then Some time_too_new
           else if version < 2 \<and> active (BIP34Height params) \<or> version < 3 \<and> active (BIP66Height params)
               \<or> version < 4 \<and> active (BIP65Height params) then Some bad_version
           else None)
   }"

section \<open>The window and the ratio\<close>

lemma window_loop_spec:
  assumes "block_map_wf m" "m p = Some b"
  shows "\<exists>q d. up m (min n (nHeight b)) p = Some q \<and> m q = Some d \<and>
    window_loop m n (Some p) t c = Some (t + (GetBlockTime b - GetBlockTime d), c + int (min n (nHeight b)))"
  using assms(2)
proof (induction n arbitrary: p b t c)
  case (Suc n)
  show ?case
  proof (cases "nHeight b")
    case 0
    then show ?thesis using Suc.prems wf_root [OF assms(1) Suc.prems] by simp
  next
    case (Suc h)
    have "0 < nHeight b" using Suc by simp
    from assms(1) Suc.prems this obtain q e where q: "pprev b = Some q" "m q = Some e" "nHeight b = Suc (nHeight e)"
      by (rule wf_parent)
    then show ?thesis
      using Suc.IH [OF q(2), of "t + (GetBlockTime b - GetBlockTime e)" "c + 1"] Suc.prems by auto
  qed
qed simp

lemma clamp_ratio_bounds: "819 \<le> clamp_ratio r" "clamp_ratio r \<le> 1229"
  by (auto simp: clamp_ratio_def consts_defs Let_def)

lemma clamp_ratio_id: "819 \<le> r \<Longrightarrow> r \<le> 1229 \<Longrightarrow> clamp_ratio r = r"
  by (auto simp: clamp_ratio_def consts_defs Let_def)

lemma uint_clamp_ratio: "uint (word_of_int (clamp_ratio r) :: 32 word) = clamp_ratio r"
  using clamp_ratio_bounds [of r] by (simp add: uint_word_of_int)

text \<open>The ratio the code computes between the block \<open>b\<close> and the block \<open>d\<close> at the other end of the window.\<close>

definition window_ratio :: "Params \<Rightarrow> CBlockIndex \<Rightarrow> CBlockIndex \<Rightarrow> int" where
  "window_ratio params b d =
     clamp_ratio ((((GetBlockTime b - GetBlockTime d) sdiv int (min TKN_DIFF_WINDOW (nHeight b))) * 1024)
       sdiv nPowTargetSpacing params)"

definition compact_target :: "32 word \<Rightarrow> int" where
  "compact_target bits = val (fst (SetCompact bits))"

lemma length_compact: "length (fst (SetCompact bits)) = 8"
  using length_SetCompact by (metis prod.collapse)

lemma next_target_val:
  assumes "block_map_wf m" "m p = Some b" "0 < nHeight b" "nPowTargetSpacing params \<noteq> 0"
  shows "\<exists>q d r. up m (min TKN_DIFF_WINDOW (nHeight b)) p = Some q \<and> m q = Some d \<and>
    CalculateNextDifficultyTarget m params (Some p) = Some r \<and> length r = 8 \<and>
    val r = max 1 (min (compact_target (nBits b) * window_ratio params b d mod 2 ^ 256 div 1024)
                       (val (UintToArith256 (powLimit params))))"
proof -
  obtain q d where w: "up m (min TKN_DIFF_WINDOW (nHeight b)) p = Some q" "m q = Some d"
    "window_loop m TKN_DIFF_WINDOW (Some p) 0 0 = Some (GetBlockTime b - GetBlockTime d, int (min TKN_DIFF_WINDOW (nHeight b)))"
    using window_loop_spec [OF assms(1,2), of TKN_DIFF_WINDOW 0 0] by auto
  from assms(1-3) obtain u e where pp: "pprev b = Some u" "m u = Some e" by (rule wf_parent)
  have cnt: "int (min TKN_DIFF_WINDOW (nHeight b)) \<noteq> 0" using assms(3) by (simp add: TKN_DIFF_WINDOW_def)
  define T where "T = fst (SetCompact (nBits b))"
  define ratio where "ratio = window_ratio params b d"
  obtain nt where nt: "base_uint_div (base_uint_mul32 T (word_of_int ratio)) (arith_uint256 (word_of_int 1024)) = Some nt"
    "length nt = 8" "val nt = (val T * ratio) mod 2 ^ 256 div 1024"
    using u256.scale [of T "word_of_int 1024" "word_of_int ratio"] length_compact
    by (auto simp: T_def ratio_def window_ratio_def uint_clamp_ratio)
  define c where "c = (if CompareTo nt (UintToArith256 (powLimit params)) > 0 then UintToArith256 (powLimit params) else nt)"
  define r where "r = (if EqualTo c 0 then arith_uint256 1 else c)"
  note cl = u256.clamp [OF nt(2) length_UintToArith256 c_def r_def]
  have "CalculateNextDifficultyTarget m params (Some p) = Some r"
    using assms(2,4) pp(1) w(3) nt(1) cnt
    unfolding CalculateNextDifficultyTarget_def Let_def T_def ratio_def window_ratio_def r_def c_def TKN_RATIO_SCALE_def
    by (simp del: min_less_iff_conj of_nat_min of_nat_eq_0_iff neq0_conv add: int_eq_iff_numeral)
  moreover have "val r = max 1 (min (compact_target (nBits b) * window_ratio params b d mod 2 ^ 256 div 1024)
                       (val (UintToArith256 (powLimit params))))"
    using cl(2) unfolding nt(3) T_def ratio_def compact_target_def .
  ultimately show ?thesis using w(1,2) cl(1) by blast
qed

lemma GetCompact_positive:
  assumes "length r = 8" "0 < val r"
  shows "\<exists>c t. GetCompact r False = Some c \<and> SetCompact c = (t, False, False) \<and> length t = 8 \<and>
    0 < val t \<and> val t \<le> val r \<and> (val t = val r \<or> val r \<le> 2 * val t)"
proof -
  obtain c t k where c: "GetCompact r False = Some c" "SetCompact c = (t, False, False)" "length t = 8"
    "val t = val r div 2 ^ k * 2 ^ k" "k = 0 \<or> 2 ^ (k + 15) \<le> val r"
    using GetCompact_roundtrip [OF assms(1)] by blast
  have le: "val t \<le> val r" unfolding c(4) by (rule int_div_mult_le) simp
  have "val t = val r \<or> (val r \<le> 2 * val t \<and> 0 < val t)"
  proof (cases "k = 0")
    case False
    then have big: "2 ^ (k + 15) \<le> val r" using c(5) by simp
    have "(2 :: int) * 2 ^ k \<le> 2 ^ (k + 15)" by (simp add: power_add)
    then have two: "2 * 2 ^ k \<le> val r" using big by linarith
    have "val r = val t + val r mod 2 ^ k" unfolding c(4) by (simp only: div_mult_mod_eq)
    moreover have "val r mod 2 ^ k < 2 ^ k" by simp
    moreover have "(0 :: int) < 2 ^ k" by simp
    ultimately show ?thesis using two by linarith
  qed (simp add: c(4))
  then show ?thesis using c le assms(2) by auto
qed

section \<open>The bounds of one step\<close>

text \<open>While the product fits, the new target is within the ratio bounds of the old one.\<close>

lemma scaled_bounds:
  fixes T L ratio :: int
  assumes "0 < T" "T \<le> L" "T * 1229 < 2 ^ 256" "819 \<le> ratio" "ratio \<le> 1229"
  shows "T * 819 div 1024 \<le> max 1 (min (T * ratio mod 2 ^ 256 div 1024) L)"
    "max 1 (min (T * ratio mod 2 ^ 256 div 1024) L) \<le> max 1 (T * 1229 div 1024)"
    "max 1 (min (T * ratio mod 2 ^ 256 div 1024) L) \<le> L"
proof -
  have lo: "T * 819 \<le> T * ratio" and hi: "T * ratio \<le> T * 1229"
    using assms by (simp_all add: mult_left_mono)
  have e: "T * ratio mod 2 ^ 256 = T * ratio"
    using lo hi assms(1,3) by (intro mod_pos_pos_trivial) linarith+
  have "T * 819 div 1024 \<le> T" using int_div_mult_le [of 1024 "T * 819"] assms(1) by linarith
  moreover have "T * 819 div 1024 \<le> T * ratio div 1024" using lo by (intro zdiv_mono1) simp_all
  ultimately show "T * 819 div 1024 \<le> max 1 (min (T * ratio mod 2 ^ 256 div 1024) L)"
    unfolding e using assms(2) by linarith
  have "T * ratio div 1024 \<le> T * 1229 div 1024" using hi by (intro zdiv_mono1) simp_all
  then show "max 1 (min (T * ratio mod 2 ^ 256 div 1024) L) \<le> max 1 (T * 1229 div 1024)"
    unfolding e by linarith
  show "max 1 (min (T * ratio mod 2 ^ 256 div 1024) L) \<le> L" using assms(1,2) by linarith
qed

lemma window_ratio_bounds: "819 \<le> window_ratio params b d" "window_ratio params b d \<le> 1229"
  unfolding window_ratio_def by (rule clamp_ratio_bounds)+

lemma next_target_step:
  assumes "block_map_wf m" "m p = Some b" "0 < nHeight b" "nPowTargetSpacing params \<noteq> 0"
    and T: "T = compact_target (nBits b)" and L: "L = val (UintToArith256 (powLimit params))"
    and "0 < T" "T \<le> L" "T * 1229 < 2 ^ 256"
  shows "\<exists>r. CalculateNextDifficultyTarget m params (Some p) = Some r \<and> length r = 8 \<and>
    T * 819 div 1024 \<le> val r \<and> val r \<le> max 1 (T * 1229 div 1024) \<and> 1 \<le> val r \<and> val r \<le> L"
proof -
  from next_target_val [OF assms(1-4)] obtain q d r where
    r: "CalculateNextDifficultyTarget m params (Some p) = Some r" "length r = 8"
    "val r = max 1 (min (compact_target (nBits b) * window_ratio params b d mod 2 ^ 256 div 1024)
                       (val (UintToArith256 (powLimit params))))" by blast
  have e: "val r = max 1 (min (T * window_ratio params b d mod 2 ^ 256 div 1024) L)"
    using r(3) by (simp only: T L)
  note s = scaled_bounds [OF assms(7-9) window_ratio_bounds, of params b d, folded e]
  have "1 \<le> val r" unfolding e by (rule max.cobounded1)
  then show ?thesis using r(1,2) s by blast
qed

text \<open>The next target in compact form: the bits a following block must carry.\<close>

lemma permitted_of_bounds:
  fixes T L r t :: int
  assumes "0 < T" "T \<le> L" "T * 819 div 1024 \<le> r" "r \<le> max 1 (T * 1229 div 1024)" "1 \<le> r" "r \<le> L"
    "0 < t" "t \<le> r" "t = r \<or> r \<le> 2 * t"
  shows "t \<le> min (T * 4) L" "max 1 (T div 4) \<le> t"
proof -
  have "T * 1229 div 1024 \<le> T * 4" using int_div_mult_le [of 1024 "T * 1229"] assms(1) by linarith
  then show "t \<le> min (T * 4) L" using assms by linarith
  have "T div 2 \<le> r"
  proof -
    have "T * 512 div 1024 = T div 2" by simp
    moreover have "T * 512 div 1024 \<le> T * 819 div 1024" using assms(1) by (intro zdiv_mono1) simp_all
    ultimately show ?thesis using assms(3) by linarith
  qed
  moreover have "T div 4 * 2 \<le> T div 2" by presburger
  ultimately show "max 1 (T div 4) \<le> t" using assms(1,7-9) by linarith
qed

lemma PermittedDifficultyTransition_iff:
  assumes "\<not> fPowAllowMinDifficultyBlocks params" "SetCompact new_nbits = (t, neg, ovf)"
    and T: "T = compact_target old_nbits" and L: "L = val (UintToArith256 (powLimit params))"
    and "T * 4 < 2 ^ 256"
  shows "PermittedDifficultyTransition params old_nbits new_nbits =
    Some (val t \<le> min (T * 4) L \<and> max 1 (T div 4) \<le> val t)"
proof -
  define old where "old = fst (SetCompact old_nbits)"
  have old: "length old = 8" "val old = T" by (simp_all add: old_def length_compact T compact_target_def)
  have t: "length t = 8" using assms(2) by (rule length_SetCompact)
  have max: "length (base_uint_mul32 old 4) = 8" "val (base_uint_mul32 old 4) = T * 4"
    using assms(5) old val_nonneg [of old] by (simp_all add: u256.num_mul32)
  obtain q where q: "base_uint_div old (arith_uint256 4) = Some q" "length q = 8" "val q = T div 4"
    using val_div_8 [of old "arith_uint256 4"] old by auto
  show ?thesis
    using assms(1,2) t old max q val_nonneg [of t]
    by (auto simp: PermittedDifficultyTransition_def Let_def old_def [symmetric] u256.cmp_iffs EqualTo_val L)
qed

section \<open>Proof-of-work checks\<close>

lemma DeriveTarget_val:
  assumes "SetCompact bits = (t, neg, ovf)"
  shows "DeriveTarget bits pow_limit =
    (if \<not> neg \<and> \<not> ovf \<and> 0 < val t \<and> val t \<le> val (UintToArith256 pow_limit) then Some t else None)"
proof -
  have "0 < val t \<longleftrightarrow> val t \<noteq> 0" using val_nonneg [of t] by linarith
  then show ?thesis
    using assms length_SetCompact [OF assms] by (auto simp: DeriveTarget_def EqualTo_val u256.cmp_iffs)
qed

lemma DeriveTarget_length: "DeriveTarget bits pow_limit = Some t \<Longrightarrow> length t = 8"
  using length_SetCompact by (fastforce simp: DeriveTarget_def split: if_splits prod.splits)

text \<open>The bits required of the next block, and that they derive a target within the limit.\<close>

lemma next_work_required_step:
  assumes "block_map_wf m" "m p = Some b" "0 < nHeight b" "nPowTargetSpacing params \<noteq> 0"
    and T: "T = compact_target (nBits b)" and L: "L = val (UintToArith256 (powLimit params))"
    and "0 < T" "T \<le> L" "T * 1229 < 2 ^ 256"
    and "\<not> fPowNoRetargeting params" "\<not> fPowAllowMinDifficultyBlocks params"
  shows "\<exists>bits t r. GetNextWorkRequired m params p block = Some bits \<and>
    DeriveTarget bits (powLimit params) = Some t \<and>
    T * 819 div 1024 \<le> val r \<and> val r \<le> max 1 (T * 1229 div 1024) \<and> val t \<le> val r \<and>
    (val t = val r \<or> val r \<le> 2 * val t) \<and>
    PermittedDifficultyTransition params (nBits b) bits = Some True"
proof -
  from next_target_step [OF assms(1-9)] obtain r where r:
    "CalculateNextDifficultyTarget m params (Some p) = Some r" "length r = 8"
    "T * 819 div 1024 \<le> val r" "val r \<le> max 1 (T * 1229 div 1024)" "1 \<le> val r" "val r \<le> L" by blast
  from GetCompact_positive [OF r(2)] r(5) obtain c t where c: "GetCompact r False = Some c"
    "SetCompact c = (t, False, False)" "0 < val t" "val t \<le> val r" "val t = val r \<or> val r \<le> 2 * val t" by auto
  have "T * 4 < 2 ^ 256" using assms(7,9) by linarith
  note pt = PermittedDifficultyTransition_iff [OF assms(11) c(2) T L this]
    and pb = permitted_of_bounds [OF assms(7,8) r(3-6) c(3-5)]
  have "DeriveTarget c (powLimit params) = Some t"
    using c(3,4) r(6) by (simp add: DeriveTarget_val [OF c(2)] L)
  moreover have "GetNextWorkRequired m params p block = Some c"
    using assms(2,10,11) r(1) c(1) by (simp add: GetNextWorkRequired_def)
  moreover have "PermittedDifficultyTransition params (nBits b) c = Some True"
    unfolding pt using pb by blast
  ultimately show ?thesis using r(3,4) c(4,5) by blast
qed

lemma compact_target_eq:
  assumes "uint c = w + 2 ^ 24 * int n" "0 \<le> w" "w < 2 ^ 23" "n \<le> 33" "n = 33 \<longrightarrow> w < 2 ^ 16"
  shows "compact_target c = (if n \<le> 3 then w div 2 ^ (8 * (3 - n)) else w * 2 ^ (8 * (n - 3)))"
  using SetCompact_join [OF assms] by (auto simp: compact_target_def)

section \<open>Concrete chains\<close>

definition main_powLimit :: uint256 where
  "main_powLimit = replicate 31 0xff @ [0x7f]"

text \<open>The proof-of-work parameters of the main network (\<open>tknc_chainparams.cpp\<close>).\<close>

definition main_params :: "uint256 \<Rightarrow> Params" where
  "main_params genesis =
     \<lparr>hashGenesisBlock = genesis, BIP34Height = 1, BIP65Height = 1, BIP66Height = 1, powLimit = main_powLimit,
      fPowAllowMinDifficultyBlocks = False, enforce_BIP94 = True, fPowNoRetargeting = False, nPowTargetSpacing = 120\<rparr>"

lemma le_val_ones: "le_val (replicate n 0xff) = 2 ^ (8 * n) - 1"
  by (induction n) (simp_all add: power_add)

lemma val_main_powLimit: "val (UintToArith256 main_powLimit) = 2 ^ 255 - 1"
proof -
  have "uint256_wf main_powLimit" by (simp add: uint256_wf_def main_powLimit_def)
  then have "val (UintToArith256 main_powLimit) = le_val main_powLimit" by (rule val_UintToArith256)
  also have "\<dots> = 2 ^ 255 - 1" by (simp add: main_powLimit_def le_val_append le_val_ones)
  finally show ?thesis .
qed

lemma example_map_target: "example_map [3] = Some b \<Longrightarrow> compact_target (nBits b) = 0xffff * 2 ^ 208"
proof -
  assume "example_map [3] = Some b"
  then have "nBits b = 0x1d00ffff"
    by (auto simp: example_map_def Let_def new_entry_def example_header_def CBlockIndex_of_header_def)
  moreover have "compact_target 0x1d00ffff = 0xffff * 2 ^ 208"
    by (subst compact_target_eq [of _ "0xffff" 29]) simp_all
  ultimately show ?thesis by simp
qed

text \<open>
  Two blocks exactly one target spacing apart, both at the regression-test limit \<open>0x207fffff\<close>
  (\<open>CreateTKNCRegTestGenesisBlock\<close>).
\<close>

definition limit_map :: block_map where
  "limit_map =
     (let h = (\<lambda>prev n t. (example_header prev n t)\<lparr>hdr_nBits := 0x207fffff\<rparr>);
          m0 = Map.empty([1] \<mapsto> new_entry [1] Map.empty (h 0 1 100) (arith_uint256 1))
      in m0([2] \<mapsto> new_entry [2] m0 (h 1 2 220) (arith_uint256 1)))"

lemma limit_map_inv: "index_inv limit_map"
proof -
  have "index_inv Map.empty" by (simp add: index_inv_def)
  then show ?thesis
    unfolding limit_map_def Let_def
    by (intro index_inv_extend new_entry_inv [OF _ _ _ _ refl]) (simp_all add: example_header_def)
qed

lemma limit_map_entries:
  "map_option (\<lambda>b. (nHeight b, pprev b, nBits b, GetBlockTime b)) (limit_map [2]) = Some (1, Some [1], 0x207fffff, 220)"
  "map_option GetBlockTime (limit_map [1]) = Some 100"
  by (simp_all add: limit_map_def Let_def new_entry_def example_header_def CBlockIndex_of_header_def GetBlockTime_def)

section \<open>Properties\<close>

text \<open>
  C2. One difficulty step: if the parent's target is positive, within the limit and below \<open>2^256 / 1229\<close>,
  the next target exists, lies between 819/1024 and 1229/1024 of the parent's (rounded down, and at
  least 1), and does not exceed the limit, whatever the block times are. Above that bound, which targets near the limit exceed, the
  product wraps (C20).
\<close>

theorem next_target_within_bounds:
  assumes "block_map_wf m" "m p = Some b" "0 < nHeight b" "nPowTargetSpacing params \<noteq> 0"
    and "T = compact_target (nBits b)" and "L = val (UintToArith256 (powLimit params))"
    and "0 < T" "T \<le> L" "T * 1229 < 2 ^ 256"
  shows "\<exists>r. CalculateNextDifficultyTarget m params (Some p) = Some r \<and> length r = 8 \<and>
    T * 819 div 1024 \<le> val r \<and> val r \<le> max 1 (T * 1229 div 1024) \<and> 1 \<le> val r \<and> val r \<le> L"
  using assms by (rule next_target_step)

lemma example_target_bounds:
  "(0 :: int) < 0xffff * 2 ^ 208" "(0xffff * 2 ^ 208 :: int) \<le> 2 ^ 255 - 1" "(0xffff * 2 ^ 208) * 1229 < (2 ^ 256 :: int)"
  by simp_all

theorem next_target_within_bounds_witness:
  "\<exists>r. CalculateNextDifficultyTarget example_map (main_params [1]) (Some [3]) = Some r \<and>
     0xffff * 2 ^ 208 * 819 div 1024 \<le> val r"
proof -
  obtain b where b: "example_map [3] = Some b" "nHeight b = 2" using example_map_entries by auto
  have "0 < nHeight b" "nPowTargetSpacing (main_params [1]) \<noteq> 0" using b by (simp_all add: main_params_def)
  moreover have "2 ^ 255 - 1 = val (UintToArith256 (powLimit (main_params [1])))"
    by (simp add: main_params_def val_main_powLimit del: power_numeral)
  ultimately show ?thesis
    using next_target_within_bounds [OF index_inv_wf [OF example_map_inv] b(1) _ _
        example_map_target [OF b(1), symmetric] _ example_target_bounds, of "main_params [1]"] by blast
qed

text \<open>
  C8. On a chain that retargets and has no minimum-difficulty exception, and above a parent whose target is positive, within the limit and
  below \<open>2^256 / 1229\<close> (the others wrap, see C20), the bits required of the next block exist, decode to a target that is accepted by
  \<open>DeriveTarget\<close>, lie within the step's bounds up to the precision of the compact form, and pass
  \<open>PermittedDifficultyTransition\<close>.
\<close>

theorem next_work_required_valid:
  assumes "block_map_wf m" "m p = Some b" "0 < nHeight b" "nPowTargetSpacing params \<noteq> 0"
    and "T = compact_target (nBits b)" and "L = val (UintToArith256 (powLimit params))"
    and "0 < T" "T \<le> L" "T * 1229 < 2 ^ 256"
    and "\<not> fPowNoRetargeting params" "\<not> fPowAllowMinDifficultyBlocks params"
  shows "\<exists>bits t r. GetNextWorkRequired m params p block = Some bits \<and>
    DeriveTarget bits (powLimit params) = Some t \<and>
    T * 819 div 1024 \<le> val r \<and> val r \<le> max 1 (T * 1229 div 1024) \<and> val t \<le> val r \<and>
    (val t = val r \<or> val r \<le> 2 * val t) \<and>
    PermittedDifficultyTransition params (nBits b) bits = Some True"
  using assms by (rule next_work_required_step)

theorem next_work_required_valid_witness:
  "\<exists>bits. GetNextWorkRequired example_map (main_params [1]) [3] (example_header 3 5 460) = Some bits \<and>
     PermittedDifficultyTransition (main_params [1]) 0x1d00ffff bits = Some True"
proof -
  obtain b where b: "example_map [3] = Some b" "nHeight b = 2" "nBits b = 0x1d00ffff"
    using example_map_entries by (auto simp: example_map_def Let_def new_entry_def example_header_def CBlockIndex_of_header_def)
  have "0 < nHeight b" "nPowTargetSpacing (main_params [1]) \<noteq> 0" "\<not> fPowNoRetargeting (main_params [1])"
    "\<not> fPowAllowMinDifficultyBlocks (main_params [1])" using b by (simp_all add: main_params_def)
  moreover have "2 ^ 255 - 1 = val (UintToArith256 (powLimit (main_params [1])))"
    by (simp add: main_params_def val_main_powLimit del: power_numeral)
  ultimately show ?thesis
    using next_work_required_valid [OF index_inv_wf [OF example_map_inv] b(1) _ _
        example_map_target [OF b(1), symmetric] _ example_target_bounds, of "main_params [1]" "example_header 3 5 460"]
      b(3) by metis
qed

text \<open>
  C20. Near the limit the 256-bit product wraps: from the target \<open>0x207fffff\<close>, blocks that arrive exactly
  on schedule give a next target of \<open>0x3fff * 2^232\<close>, about a 512th of the parent's
  \<open>0x7fffff * 2^232\<close>, where no adjustment was due.
\<close>

theorem next_target_wraps_at_limit:
  assumes "block_map_wf m" "m p = Some b" "0 < nHeight b" "nBits b = 0x207fffff"
    "nPowTargetSpacing params = 120" "powLimit params = main_powLimit"
    "up m (min TKN_DIFF_WINDOW (nHeight b)) p = Some q" "m q = Some d"
    "GetBlockTime b - GetBlockTime d = 120 * int (min TKN_DIFF_WINDOW (nHeight b))"
  shows "compact_target (nBits b) = 0x7fffff * 2 ^ 232 \<and>
    map_option val (CalculateNextDifficultyTarget m params (Some p)) = Some (0x3fff * 2 ^ 232)"
proof -
  define n where "n = int (min TKN_DIFF_WINDOW (nHeight b))"
  have n: "0 < n" using assms(3) by (simp add: n_def TKN_DIFF_WINDOW_def)
  have T: "compact_target (nBits b) = 0x7fffff * 2 ^ 232"
    unfolding assms(4) by (subst compact_target_eq [of _ "0x7fffff" 32]) simp_all
  have "120 * n sdiv n = 120" using n by (simp add: sdiv_nonneg)
  then have "window_ratio params b d = clamp_ratio (120 * 1024 sdiv 120)"
    using assms(9) by (simp add: window_ratio_def assms(5) n_def)
  then have ratio: "window_ratio params b d = 1024" by (simp add: sdiv_nonneg clamp_ratio_id)
  have sp: "nPowTargetSpacing params \<noteq> 0" using assms(5) by simp
  obtain q' d' r where r: "up m (min TKN_DIFF_WINDOW (nHeight b)) p = Some q'" "m q' = Some d'"
    "CalculateNextDifficultyTarget m params (Some p) = Some r"
    "val r = max 1 (min (compact_target (nBits b) * window_ratio params b d' mod 2 ^ 256 div 1024)
                       (val (UintToArith256 (powLimit params))))"
    using next_target_val [OF assms(1-3) sp] by blast
  have "d' = d" using r(1,2) assms(7,8) by simp
  then have "val r = max 1 (min (0x7fffff * 2 ^ 232 * 1024 mod 2 ^ 256 div 1024) (2 ^ 255 - 1))"
    using r(4) by (simp only: T ratio assms(6) val_main_powLimit)
  then have "val r = 0x3fff * 2 ^ 232" by simp
  then show ?thesis using T r(3) by simp
qed

theorem next_target_wraps_at_limit_witness:
  "map_option val (CalculateNextDifficultyTarget limit_map (main_params [1]) (Some [2])) = Some (0x3fff * 2 ^ 232)"
proof -
  obtain b where b: "limit_map [2] = Some b" "nHeight b = 1" "pprev b = Some [1]" "nBits b = 0x207fffff" "GetBlockTime b = 220"
    using limit_map_entries(1) by auto
  obtain d where d: "limit_map [1] = Some d" "GetBlockTime d = 100" using limit_map_entries(2) by auto
  show ?thesis
    by (rule next_target_wraps_at_limit [THEN conjunct2, OF index_inv_wf [OF limit_map_inv] b(1) _ b(4) _ _ _ d(1)])
      (use b d in \<open>simp_all add: main_params_def TKN_DIFF_WINDOW_def\<close>)
qed

lemma CheckProofOfWork_iff:
  assumes "GetHash header \<noteq> hashGenesisBlock params" "uint256_wf (powLimit params)"
    "uint256_wf (PowHash header)" "SetCompact (hdr_nBits header) = (t, neg, ovf)"
  shows "CheckProofOfWork False GetHash PowHash header params \<longleftrightarrow>
    \<not> neg \<and> \<not> ovf \<and> 0 < val t \<and> val t \<le> le_val (powLimit params) \<and> hdr_nTime header \<noteq> 0 \<and>
    le_val (PowHash header) \<le> val t"
  using assms(1) length_SetCompact [OF assms(4)]
  by (simp add: CheckProofOfWork_def DeriveTarget_val [OF assms(4)] val_UintToArith256 assms(2,3) u256.cmp_iffs not_less)

text \<open>
  C17. Outside the genesis block a header passes the proof-of-work check exactly when its bits decode,
  without sign or overflow, to a positive target within the limit, its time is not 0, and its
  proof-of-work hash, read as a little-endian number, is at most that target.
\<close>

theorem check_proof_of_work_iff:
  assumes "GetHash header \<noteq> hashGenesisBlock params" "uint256_wf (powLimit params)"
    "uint256_wf (PowHash header)" "SetCompact (hdr_nBits header) = (t, neg, ovf)"
  shows "CheckProofOfWork False GetHash PowHash header params \<longleftrightarrow>
    \<not> neg \<and> \<not> ovf \<and> 0 < val t \<and> val t \<le> le_val (powLimit params) \<and> hdr_nTime header \<noteq> 0 \<and>
    le_val (PowHash header) \<le> val t"
  using assms by (rule CheckProofOfWork_iff)

theorem check_proof_of_work_iff_witness:
  "CheckProofOfWork False (\<lambda>_. [9]) (\<lambda>_. replicate 32 0) (example_header 0 1 100) (main_params [1])"
proof -
  have wf: "uint256_wf (powLimit (main_params [1]))" "uint256_wf (replicate 32 0)"
    by (simp_all add: main_params_def main_powLimit_def uint256_wf_def)
  obtain t where t: "SetCompact 0x1d00ffff = (t, False, False)" "val t = 0xffff * 2 ^ 208"
    using SetCompact_join [of "0x1d00ffff" "0xffff" 29] by auto
  have L: "le_val (powLimit (main_params [1])) = 2 ^ 255 - 1"
    using val_main_powLimit val_UintToArith256 [OF wf(1)] by (simp add: main_params_def del: power_numeral)
  have Z: "le_val (replicate n 0) = 0" for n by (induction n) simp_all
  show ?thesis
    using check_proof_of_work_iff [of "\<lambda>_. [9]" "example_header 0 1 100" "main_params [1]" "\<lambda>_. replicate 32 0" t False False]
      wf t L Z by (simp add: main_params_def example_header_def)
qed

end
