(* ===== verification/Serialize.thy ===== *)
theory Serialize
  imports Uint256 "HOL-Library.Monad_Syntax"
begin

text \<open>
  Serialization (\<open>serialize.h\<close>): fixed-width integers, \<open>CompactSize\<close>, \<open>VarInt\<close>, byte strings and
  vectors. A stream is the list of bytes still to be read; a reader returns the value and the rest
  of the stream, and \<open>None\<close> where the source throws \<open>std::ios_base::failure\<close>. The interface of a
  type that can be written and read back is the locale \<open>codec\<close>.
\<close>

type_synonym stream = "byte list"

type_synonym 'a reader = "stream \<Rightarrow> ('a \<times> stream) option"

definition MAX_SIZE :: nat where
  "MAX_SIZE = 0x02000000"

text \<open>\<open>s.read\<close> of a given number of bytes.\<close>

definition read_bytes :: "nat \<Rightarrow> byte list reader" where
  "read_bytes n s = (if length s < n then None else Some (take n s, drop n s))"

definition ser_writedata8 :: "byte \<Rightarrow> stream" where "ser_writedata8 obj = [obj]"

definition ser_writedata16 :: "16 word \<Rightarrow> stream" where "ser_writedata16 obj = WriteLE16 obj"

definition ser_writedata32 :: "32 word \<Rightarrow> stream" where "ser_writedata32 obj = WriteLE32 obj"

definition ser_writedata64 :: "64 word \<Rightarrow> stream" where "ser_writedata64 obj = WriteLE64 obj"

definition ser_readdata8 :: "byte reader" where
  "ser_readdata8 s = map_option (apfst hd) (read_bytes 1 s)"

definition ser_readdata16 :: "16 word reader" where
  "ser_readdata16 s = map_option (apfst ReadLE16) (read_bytes 2 s)"

definition ser_readdata32 :: "32 word reader" where
  "ser_readdata32 s = map_option (apfst ReadLE32) (read_bytes 4 s)"

definition ser_readdata64 :: "64 word reader" where
  "ser_readdata64 s = map_option (apfst ReadLE64) (read_bytes 8 s)"

definition GetSizeOfCompactSize :: "64 word \<Rightarrow> nat" where
  "GetSizeOfCompactSize nSize =
     (if nSize < 253 then 1 else if nSize \<le> 0xffff then 1 + 2 else if nSize \<le> 0xffffffff then 1 + 4 else 1 + 8)"

definition WriteCompactSize :: "64 word \<Rightarrow> stream" where
  "WriteCompactSize nSize =
     (if nSize < 253 then ser_writedata8 (ucast nSize)
      else if nSize \<le> 0xffff then ser_writedata8 253 @ ser_writedata16 (ucast nSize)
      else if nSize \<le> 0xffffffff then ser_writedata8 254 @ ser_writedata32 (ucast nSize)
      else ser_writedata8 255 @ ser_writedata64 nSize)"

definition ReadCompactSize :: "bool \<Rightarrow> 64 word reader" where
  "ReadCompactSize range_check s = do {
     (chSize, s) \<leftarrow> ser_readdata8 s;
     (nSizeRet, s) \<leftarrow>
       (if chSize < 253 then Some (ucast chSize, s)
        else if chSize = 253 then do {
          (n, s) \<leftarrow> ser_readdata16 s;
          if ucast n < (253 :: 64 word) then None else Some (ucast n, s) }
        else if chSize = 254 then do {
          (n, s) \<leftarrow> ser_readdata32 s;
          if ucast n < (0x10000 :: 64 word) then None else Some (ucast n, s) }
        else do {
          (n, s) \<leftarrow> ser_readdata64 s;
          if n < 0x100000000 then None else Some (n, s) });
     if range_check \<and> unat nSizeRet > MAX_SIZE then None else Some (nSizeRet, s)
   }"

text \<open>
  \<open>VarInt\<close> of an unsigned type with largest value \<open>limit\<close>. The writer fills \<open>tmp\<close> from the last
  byte and then emits it backwards, so \<open>tmp\<close> is kept here in emission order.
\<close>

function write_varint_loop :: "nat \<Rightarrow> bool \<Rightarrow> stream \<Rightarrow> stream" where
  "write_varint_loop n more tmp =
     (let tmp = word_of_nat (n mod 128 + (if more then 128 else 0)) # tmp in
      if n \<le> 0x7F then tmp else write_varint_loop (n div 128 - 1) True tmp)"
  by pat_completeness auto
termination by (relation "measure (\<lambda>(n, more, tmp). n)") auto

declare write_varint_loop.simps [simp del]

definition WriteVarInt :: "nat \<Rightarrow> stream" where
  "WriteVarInt n = write_varint_loop n False []"

function GetSizeOfVarInt :: "nat \<Rightarrow> nat" where
  "GetSizeOfVarInt n = (if n \<le> 0x7F then 1 else 1 + GetSizeOfVarInt (n div 128 - 1))"
  by pat_completeness auto
termination by (relation "measure id") auto

declare GetSizeOfVarInt.simps [simp del]

fun read_varint_loop :: "nat \<Rightarrow> nat \<Rightarrow> nat reader" where
  "read_varint_loop limit n [] = None"
| "read_varint_loop limit n (chData # s) =
     (if n > limit div 128 then None
      else
        let n = n * 128 + unat chData mod 128 in
        if unat chData \<ge> 128 then if n = limit then None else read_varint_loop limit (n + 1) s
        else Some (n, s))"

definition ReadVarInt :: "nat \<Rightarrow> nat reader" where
  "ReadVarInt limit s = read_varint_loop limit 0 s"

text \<open>Signed 64-bit values are written as their unsigned image.\<close>

definition ser_i64 :: "int \<Rightarrow> stream" where
  "ser_i64 a = ser_writedata64 (word_of_int a)"

definition unser_i64 :: "int reader" where
  "unser_i64 s = map_option (apfst sint) (ser_readdata64 s)"

definition ser_i32 :: "int \<Rightarrow> stream" where
  "ser_i32 a = ser_writedata32 (word_of_int a)"

definition unser_i32 :: "int reader" where
  "unser_i32 s = map_option (apfst sint) (ser_readdata32 s)"

text \<open>Vectors of bytes, in blocks of at most 5000000, and strings.\<close>

function read_blocks :: "nat \<Rightarrow> nat \<Rightarrow> byte list \<Rightarrow> byte list reader" where
  "read_blocks nSize i v s =
     (if i < nSize then
        let blk = min (nSize - i) (1 + 4999999) in
        case read_bytes blk s of
          None \<Rightarrow> None
        | Some (bs, s) \<Rightarrow> read_blocks nSize (i + blk) (v @ bs) s
      else Some (v, s))"
  by pat_completeness auto
termination by (relation "measure (\<lambda>(nSize, i, v, s). nSize - i)") auto

declare read_blocks.simps [simp del]

definition ser_byte_vector :: "byte list \<Rightarrow> stream" where
  "ser_byte_vector v = WriteCompactSize (word_of_nat (length v)) @ v"

definition unser_byte_vector :: "byte list reader" where
  "unser_byte_vector s = do {
     (nSize, s) \<leftarrow> ReadCompactSize True s;
     read_blocks (unat nSize) 0 [] s
   }"

definition byte_of_char :: "char \<Rightarrow> byte" where "byte_of_char c = word_of_nat (of_char c)"

definition char_of_byte :: "byte \<Rightarrow> char" where "char_of_byte b = char_of (unat b)"

definition ser_string :: "string \<Rightarrow> stream" where
  "ser_string str = WriteCompactSize (word_of_nat (length str)) @ map byte_of_char str"

definition unser_string :: "string reader" where
  "unser_string s = do {
     (nSize, s) \<leftarrow> ReadCompactSize True s;
     (bs, s) \<leftarrow> read_bytes (unat nSize) s;
     Some (map char_of_byte bs, s)
   }"

text \<open>\<open>VectorFormatter\<close>: the elements one after the other behind their number.\<close>

definition ser_vector :: "('a \<Rightarrow> stream) \<Rightarrow> 'a list \<Rightarrow> stream" where
  "ser_vector ser v = WriteCompactSize (word_of_nat (length v)) @ concat (map ser v)"

fun unser_many :: "'a reader \<Rightarrow> nat \<Rightarrow> 'a list reader" where
  "unser_many unser 0 s = Some ([], s)"
| "unser_many unser (Suc n) s = do {
     (x, s) \<leftarrow> unser s;
     (xs, s) \<leftarrow> unser_many unser n s;
     Some (x # xs, s)
   }"

definition unser_vector :: "'a reader \<Rightarrow> 'a list reader" where
  "unser_vector unser s = do {
     (nSize, s) \<leftarrow> ReadCompactSize True s;
     unser_many unser (unat nSize) s
   }"

section \<open>Fixed-width integers\<close>

lemma read_bytes_append [simp]: "length bs = n \<Longrightarrow> read_bytes n (bs @ s) = Some (bs, s)"
  by (simp add: read_bytes_def)

lemma read_bytes_SomeD: "read_bytes n s = Some (bs, t) \<Longrightarrow> s = bs @ t \<and> length bs = n"
  by (auto simp: read_bytes_def split: if_splits)

lemma ser_readdata_writedata [simp]:
  "ser_readdata8 (ser_writedata8 b @ s) = Some (b, s)"
  "ser_readdata16 (ser_writedata16 x @ s) = Some (x, s)"
  "ser_readdata32 (ser_writedata32 y @ s) = Some (y, s)"
  "ser_readdata64 (ser_writedata64 z @ s) = Some (z, s)"
  using ReadLE_WriteLE(1) [of x "[]"] ReadLE_WriteLE(2) [of y "[]"] ReadLE_WriteLE(3) [of z "[]"]
  by (simp_all add: ser_readdata8_def ser_readdata16_def ser_readdata32_def ser_readdata64_def ser_writedata8_def
      ser_writedata16_def ser_writedata32_def ser_writedata64_def read_bytes_def)

lemma uint_ReadLE:
  "uint (ReadLE16 p) = le_val (take 2 p)" "uint (ReadLE64 q) = le_val (take 8 q)"
proof -
  have "2 ^ (8 * length (take 2 p)) \<le> (2 ^ 16 :: int)" by (intro power_increasing) simp_all
  then have "le_val (take 2 p) < 2 ^ 16" using le_val_less [of "take 2 p"] by linarith
  then show "uint (ReadLE16 p) = le_val (take 2 p)" by (simp add: ReadLE16_def uint_word_of_int)
  have "2 ^ (8 * length (take 8 q)) \<le> (2 ^ 64 :: int)" by (intro power_increasing) simp_all
  then have "le_val (take 8 q) < 2 ^ 64" using le_val_less [of "take 8 q"] by linarith
  then show "uint (ReadLE64 q) = le_val (take 8 q)" by (simp add: ReadLE64_def uint_word_of_int)
qed

lemma ser_readdata_SomeD:
  "ser_readdata8 s = Some (b, t) \<Longrightarrow> s = ser_writedata8 b @ t"
  "ser_readdata16 s = Some (x, t) \<Longrightarrow> s = ser_writedata16 x @ t"
  "ser_readdata32 s = Some (y, t) \<Longrightarrow> s = ser_writedata32 y @ t"
  "ser_readdata64 s = Some (z, t) \<Longrightarrow> s = ser_writedata64 z @ t"
proof -
  show "s = ser_writedata8 b @ t" if "ser_readdata8 s = Some (b, t)"
    using that by (cases s) (auto simp: ser_readdata8_def ser_writedata8_def read_bytes_def split: if_splits)
  show "s = ser_writedata16 x @ t" if r: "ser_readdata16 s = Some (x, t)"
  proof -
    obtain bs where bs: "s = bs @ t" "length bs = 2" "x = ReadLE16 bs"
      using r by (auto simp: ser_readdata16_def dest!: read_bytes_SomeD)
    then show ?thesis using le_bytes_le_val [of bs] by (simp add: ser_writedata16_def WriteLE16_def uint_ReadLE)
  qed
  show "s = ser_writedata32 y @ t" if r: "ser_readdata32 s = Some (y, t)"
  proof -
    obtain bs where bs: "s = bs @ t" "length bs = 4" "y = ReadLE32 bs"
      using r by (auto simp: ser_readdata32_def dest!: read_bytes_SomeD)
    then show ?thesis using WriteLE32_ReadLE32 [of bs] by (simp add: ser_writedata32_def)
  qed
  show "s = ser_writedata64 z @ t" if r: "ser_readdata64 s = Some (z, t)"
  proof -
    obtain bs where bs: "s = bs @ t" "length bs = 8" "z = ReadLE64 bs"
      using r by (auto simp: ser_readdata64_def dest!: read_bytes_SomeD)
    then show ?thesis using le_bytes_le_val [of bs] by (simp add: ser_writedata64_def WriteLE64_def uint_ReadLE)
  qed
qed

section \<open>CompactSize\<close>

lemma uint_ucast_up:
  "uint (ucast (b :: byte) :: 64 word) = uint b" "uint (ucast (x :: 16 word) :: 64 word) = uint x"
  "uint (ucast (y :: 32 word) :: 64 word) = uint y"
proof -
  have "uint b < 256" "uint x < 65536" "uint y < 4294967296"
    using uint_lt2p [of b] uint_lt2p [of x] uint_lt2p [of y] by simp_all
  then show "uint (ucast b :: 64 word) = uint b" "uint (ucast x :: 64 word) = uint x"
    "uint (ucast y :: 64 word) = uint y"
    by (simp_all add: unsigned_ucast_eq take_bit_int_eq_self)
qed

lemma uint_ucast_down:
  fixes n :: "64 word"
  shows "uint (ucast n :: byte) = uint n mod 256" "uint (ucast n :: 16 word) = uint n mod 65536"
    "uint (ucast n :: 32 word) = uint n mod 4294967296"
  by (simp_all add: unsigned_ucast_eq take_bit_eq_mod)

lemmas uint_ucast_simps = uint_ucast_up uint_ucast_down word_uint_eq_iff word_less_def word_le_def

lemma ucast_small:
  fixes n :: "64 word"
  shows "n < 253 \<Longrightarrow> ucast (ucast n :: byte) = n" "n < 253 \<Longrightarrow> (ucast n :: byte) < 253"
    "n \<le> 0xffff \<Longrightarrow> ucast (ucast n :: 16 word) = n" "n \<le> 0xffffffff \<Longrightarrow> ucast (ucast n :: 32 word) = n"
  by (simp_all add: uint_ucast_simps)

lemma ucast_ucast_up:
  "ucast (ucast (b :: byte) :: 64 word) = b" "ucast (ucast (x :: 16 word) :: 64 word) = x"
  "ucast (ucast (y :: 32 word) :: 64 word) = y"
  by (simp_all add: word_uint_eq_iff uint_ucast_up uint_ucast_down del: ucast_up_ucast_id)

lemma ReadCompactSize_Write [simp]:
  "ReadCompactSize range_check (WriteCompactSize n @ s) =
     (if range_check \<and> unat n > MAX_SIZE then None else Some (n, s))"
proof -
  have "\<not> n < 253 \<Longrightarrow> n \<le> 0xffff \<Longrightarrow> \<not> ucast (ucast n :: 16 word) < (253 :: 64 word)"
    "\<not> n \<le> 0xffff \<Longrightarrow> \<not> n < 0x10000" "\<not> n \<le> 0xffffffff \<Longrightarrow> \<not> n < 0x100000000"
    by (simp_all add: ucast_small word_less_def word_le_def)
  then show ?thesis
    by (auto simp: ReadCompactSize_def WriteCompactSize_def ucast_small)
qed

lemma word8_cases: "\<not> c < 253 \<Longrightarrow> c \<noteq> 253 \<Longrightarrow> c \<noteq> 254 \<Longrightarrow> c = (255 :: byte)"
proof -
  assume "\<not> c < 253" "c \<noteq> 253" "c \<noteq> 254"
  moreover have "uint c < 256" using uint_lt2p [of c] by simp
  ultimately show ?thesis by (simp add: word_uint_eq_iff word_less_def)
qed

lemma ReadCompactSize_SomeD:
  assumes "ReadCompactSize range_check s = Some (n, t)"
  shows "s = WriteCompactSize n @ t"
proof -
  obtain c u where c: "ser_readdata8 s = Some (c, u)"
    using assms by (auto simp: ReadCompactSize_def bind_eq_Some_conv)
  have s: "s = ser_writedata8 c @ u" by (rule ser_readdata_SomeD(1) [OF c])
  consider "c < 253" | "c = 253" | "c = 254" | "c = 255" using word8_cases by blast
  then show ?thesis
  proof cases
    case 1
    then have "n = ucast c" "t = u" using assms c by (auto simp: ReadCompactSize_def split: if_splits)
    then show ?thesis using 1 s by (simp add: WriteCompactSize_def word_less_def uint_ucast_up ucast_ucast_up)
  next
    case 2
    then obtain x where x: "ser_readdata16 u = Some (x, t)" "n = ucast x" "\<not> n < 253"
      using assms c by (auto simp: ReadCompactSize_def bind_eq_Some_conv split: if_splits)
    have "uint x < 65536" using uint_lt2p [of x] by simp
    then show ?thesis
      using 2 s x ser_readdata_SomeD(2) [OF x(1)] by (simp add: WriteCompactSize_def word_le_def uint_ucast_up ucast_ucast_up)
  next
    case 3
    then obtain x where x: "ser_readdata32 u = Some (x, t)" "n = ucast x" "\<not> n < 0x10000"
      using assms c by (auto simp: ReadCompactSize_def bind_eq_Some_conv split: if_splits)
    have "uint x < 4294967296" using uint_lt2p [of x] by simp
    then show ?thesis
      using 3 s x ser_readdata_SomeD(3) [OF x(1)]
      by (simp add: WriteCompactSize_def word_le_def word_less_def uint_ucast_up ucast_ucast_up)
  next
    case 4
    then have x: "ser_readdata64 u = Some (n, t)" "\<not> n < 0x100000000"
      using assms c by (auto simp: ReadCompactSize_def bind_eq_Some_conv split: if_splits)
    then show ?thesis
      using 4 s ser_readdata_SomeD(4) [OF x(1)] by (simp add: WriteCompactSize_def word_le_def word_less_def)
  qed
qed

lemma length_WriteCompactSize: "length (WriteCompactSize n) = GetSizeOfCompactSize n"
  by (simp add: WriteCompactSize_def GetSizeOfCompactSize_def ser_writedata8_def ser_writedata16_def
      ser_writedata32_def ser_writedata64_def)

section \<open>VarInt\<close>

lemma write_varint_loop_append: "write_varint_loop n more (xs @ ys) = write_varint_loop n more xs @ ys"
proof (induction n arbitrary: more xs rule: less_induct)
  case (less n)
  show ?case
  proof (cases "n \<le> 127")
    case True
    then show ?thesis by (simp add: write_varint_loop.simps [of n] Let_def)
  next
    case False
    then have "n div 128 - 1 < n" by simp
    from less [OF this, of True "word_of_nat (n mod 128 + (if more then 128 else 0)) # xs"] False
    show ?thesis by (simp add: write_varint_loop.simps [of n] Let_def)
  qed
qed

text \<open>The bytes of a number before its last byte is known: those that \<open>n\<close> continues.\<close>

definition varint_prefix :: "nat \<Rightarrow> stream" where
  "varint_prefix n = (if n = 0 then [] else write_varint_loop (n - 1) True [])"

lemma varint_prefix_simps [simp]: "varint_prefix 0 = []" "varint_prefix (Suc k) = write_varint_loop k True []"
  by (simp_all add: varint_prefix_def)

lemma write_varint_loop_prefix:
  "write_varint_loop n more [] = varint_prefix (n div 128) @ [word_of_nat (n mod 128 + (if more then 128 else 0))]"
proof (cases "n \<le> 127")
  case True
  then show ?thesis by (simp add: write_varint_loop.simps [of n] varint_prefix_def)
next
  case False
  then have "n div 128 \<noteq> 0" by (simp add: div_eq_0_iff)
  then show ?thesis
    using False
      write_varint_loop_append [of "n div 128 - 1" True "[]" "[word_of_nat (n mod 128 + (if more then 128 else 0))]"]
    by (simp add: write_varint_loop.simps [of n more] varint_prefix_def Let_def)
qed

lemma varint_byte: "r < 128 \<Longrightarrow> unat (word_of_nat (r + (if more then 128 else 0)) :: byte) = r + (if more then 128 else 0)"
  by (simp add: unat_of_nat del: of_nat_add)

lemma read_varint_prefix: "n \<le> limit \<Longrightarrow> read_varint_loop limit 0 (varint_prefix n @ s) = read_varint_loop limit n s"
proof (induction n arbitrary: s rule: less_induct)
  case (less n)
  show ?case
  proof (cases n)
    case (Suc k)
    have q: "k div 128 < n" "k div 128 \<le> limit" "k div 128 \<le> limit div 128" "k \<noteq> limit"
      using Suc less.prems by (auto intro: div_le_mono order_trans [OF div_le_dividend])
    define c :: byte where "c = word_of_nat (k mod 128 + (if True then 128 else 0))"
    have c: "unat c = k mod 128 + 128" unfolding c_def by (subst varint_byte) simp_all
    have "varint_prefix n = varint_prefix (k div 128) @ [c]"
      using write_varint_loop_prefix [of k True, folded c_def] Suc by simp
    then have "read_varint_loop limit 0 (varint_prefix n @ s) = read_varint_loop limit (k div 128) (c # s)"
      using less.IH [OF q(1,2)] by simp
    also have "\<dots> = read_varint_loop limit n s" using q(3,4) Suc by (simp add: c Let_def)
    finally show ?thesis .
  qed simp
qed

lemma ReadVarInt_Write:
  assumes "n \<le> limit"
  shows "ReadVarInt limit (WriteVarInt n @ s) = Some (n, s)"
proof -
  have d: "n div 128 \<le> limit" using assms by (meson div_le_dividend le_trans)
  define c :: byte where "c = word_of_nat (n mod 128 + (if False then 128 else 0))"
  have c: "unat c = n mod 128" unfolding c_def by (subst varint_byte) simp_all
  have lt: "\<not> 128 \<le> unat c" "unat c mod 128 = n mod 128" unfolding c by (simp_all add: not_le)
  have "ReadVarInt limit (WriteVarInt n @ s) = read_varint_loop limit (n div 128) (c # s)"
    using read_varint_prefix [OF d] write_varint_loop_prefix [of n False, folded c_def]
    by (simp add: ReadVarInt_def WriteVarInt_def)
  also have "\<dots> = Some (n, s)"
    using div_le_mono [OF assms, of 128] lt by (simp add: Let_def)
  finally show ?thesis .
qed

lemma varint_step:
  "varint_prefix n @ [c] = write_varint_loop (n * 128 + unat c mod 128) (unat c \<ge> 128) []"
proof -
  have "unat c < 256" using unsigned_less [of c] by simp
  then have "unat c mod 128 + (if unat c \<ge> 128 then 128 else 0) = unat c" by (simp add: le_mod_geq)
  then have "word_of_nat ((n * 128 + unat c mod 128) mod 128 + (if unat c \<ge> 128 then 128 else 0)) = c"
    by (simp only: mod_mult_self3 mod_mod_trivial) simp
  moreover have "(n * 128 + unat c mod 128) div 128 = n" by simp
  ultimately show ?thesis by (simp only: write_varint_loop_prefix)
qed

lemma read_varint_loop_SomeD:
  "limit mod 128 = 127 \<Longrightarrow> read_varint_loop limit n s = Some (v, t) \<Longrightarrow> varint_prefix n @ s = WriteVarInt v @ t \<and> v \<le> limit"
proof (induction limit n s rule: read_varint_loop.induct)
  case (2 limit n c s)
  define k where "k = n * 128 + unat c mod 128"
  have n: "n \<le> limit div 128" using "2.prems"(2) by (simp split: if_splits)
  show ?case
  proof (cases "unat c \<ge> 128")
    case True
    then have r: "k \<noteq> limit" "read_varint_loop limit (k + 1) s = Some (v, t)"
      using "2.prems"(2) n by (simp_all add: k_def Let_def split: if_splits)
    then have "varint_prefix (k + 1) @ s = WriteVarInt v @ t \<and> v \<le> limit"
      using "2.IH" [OF _ k_def True] "2.prems"(1) n by simp
    moreover have "varint_prefix (k + 1) = varint_prefix n @ [c]"
      using varint_step [of n c, folded k_def] True by simp
    ultimately show ?thesis by simp
  next
    case False
    then have "v = k" "t = s" using "2.prems"(2) n by (simp_all add: k_def Let_def)
    moreover have "k \<le> limit"
    proof -
      have "n * 128 + 127 \<le> limit div 128 * 128 + limit mod 128" using n "2.prems"(1) by simp
      moreover have "unat c mod 128 \<le> 127" by simp
      ultimately show ?thesis unfolding k_def by (simp only: div_mult_mod_eq)
    qed
    ultimately show ?thesis using varint_step [of n c, folded k_def] False by (simp add: WriteVarInt_def)
  qed
qed simp

lemma length_write_varint: "length (write_varint_loop n more []) = GetSizeOfVarInt n"
proof (induction n arbitrary: more rule: less_induct)
  case (less n)
  show ?case
  proof (cases "n \<le> 127")
    case True
    then show ?thesis by (simp add: write_varint_loop.simps [of n] GetSizeOfVarInt.simps [of n])
  next
    case False
    then have "n div 128 - 1 < n" "n div 128 \<noteq> 0" by (simp_all add: div_eq_0_iff)
    then show ?thesis
      using less [of "n div 128 - 1" True] False write_varint_loop_prefix [of n more]
      by (simp add: GetSizeOfVarInt.simps [of n] varint_prefix_def)
  qed
qed

section \<open>Writing and reading back\<close>

text \<open>
  The interface of a serializable type: reading what was written gives the value back and leaves the
  rest of the stream. \<open>ok\<close> is the set of values the format can carry.
\<close>

locale codec =
  fixes ser :: "'a \<Rightarrow> stream" and unser :: "'a reader" and ok :: "'a \<Rightarrow> bool"
  assumes roundtrip: "ok x \<Longrightarrow> unser (ser x @ s) = Some (x, s)"
begin

lemma roundtrip_nil: "ok x \<Longrightarrow> unser (ser x) = Some (x, [])"
  using roundtrip [of x "[]"] by simp

lemma prefix_free: "ok x \<Longrightarrow> ok y \<Longrightarrow> ser x @ s = ser y @ t \<Longrightarrow> x = y \<and> s = t"
  by (metis option.inject prod.inject roundtrip)

lemma ser_inject: "ok x \<Longrightarrow> ok y \<Longrightarrow> ser x = ser y \<longleftrightarrow> x = y"
  using prefix_free [of x y "[]" "[]"] by auto

lemma many_roundtrip:
  "list_all ok xs \<Longrightarrow> unser_many unser (length xs) (concat (map ser xs) @ s) = Some (xs, s)"
  by (induction xs) (simp_all add: roundtrip)

lemma vector_roundtrip:
  assumes "list_all ok xs" "length xs \<le> MAX_SIZE"
  shows "unser_vector unser (ser_vector ser xs @ s) = Some (xs, s)"
proof -
  have "unat (word_of_nat (length xs) :: 64 word) = length xs"
    using assms(2) by (simp add: unat_of_nat MAX_SIZE_def)
  then show ?thesis
    using many_roundtrip [OF assms(1)] assms(2) by (simp add: unser_vector_def ser_vector_def)
qed

end

lemma unat_size: "n \<le> MAX_SIZE \<Longrightarrow> unat (word_of_nat n :: 64 word) = n"
  by (simp add: unat_of_nat MAX_SIZE_def)

lemma read_blocks_append:
  "i \<le> nSize \<Longrightarrow> length w = nSize - i \<Longrightarrow> read_blocks nSize i v (w @ s) = Some (v @ w, s)"
proof (induction "nSize - i" arbitrary: i v w rule: less_induct)
  case less
  show ?case
  proof (cases "i < nSize")
    case True
    define blk where "blk = min (nSize - i) (1 + 4999999)"
    have blk: "0 < blk" "i + blk \<le> nSize" "blk \<le> length w" using True less.prems by (auto simp: blk_def)
    have "read_bytes blk (w @ s) = Some (take blk w, drop blk w @ s)" using blk(3) by (simp add: read_bytes_def)
    moreover have "read_blocks nSize (i + blk) (v @ take blk w) (drop blk w @ s) = Some ((v @ take blk w) @ drop blk w, s)"
      using blk less.prems True by (intro less.hyps) auto
    ultimately show ?thesis
      using True by (subst read_blocks.simps) (simp add: Let_def blk_def)
  next
    case False
    then show ?thesis using less.prems by (subst read_blocks.simps) simp
  qed
qed

lemma char_of_byte_of_char [simp]: "char_of_byte (byte_of_char c) = c"
  by (simp add: char_of_byte_def byte_of_char_def unat_of_nat)

lemma sint64: "int64_range a \<Longrightarrow> sint (word_of_int a :: 64 word) = a"
  by (simp add: int64_range_def INT64_MIN_def INT64_MAX_def int_word_sint)

definition int32_range :: "int \<Rightarrow> bool" where
  "int32_range x \<longleftrightarrow> - 2147483648 \<le> x \<and> x \<le> 2147483647"

lemma sint32: "int32_range a \<Longrightarrow> sint (word_of_int a :: 32 word) = a"
  by (simp add: int32_range_def int_word_sint)

interpretation u8: codec ser_writedata8 ser_readdata8 "\<lambda>_. True"
  by unfold_locales simp

interpretation u32: codec ser_writedata32 ser_readdata32 "\<lambda>_. True"
  by unfold_locales simp

interpretation u64: codec ser_writedata64 ser_readdata64 "\<lambda>_. True"
  by unfold_locales simp

interpretation i64: codec ser_i64 unser_i64 int64_range
  by unfold_locales (simp add: ser_i64_def unser_i64_def sint64)

interpretation i32: codec ser_i32 unser_i32 int32_range
  by unfold_locales (simp add: ser_i32_def unser_i32_def sint32)

interpretation byte_vector: codec ser_byte_vector unser_byte_vector "\<lambda>v. length v \<le> MAX_SIZE"
  by unfold_locales (simp add: ser_byte_vector_def unser_byte_vector_def unat_size read_blocks_append)

interpretation str: codec ser_string unser_string "\<lambda>str. length str \<le> MAX_SIZE"
  by unfold_locales (simp add: ser_string_def unser_string_def unat_size comp_def)

lemmas codec_roundtrips = u8.roundtrip u32.roundtrip u64.roundtrip i64.roundtrip i32.roundtrip
  byte_vector.roundtrip str.roundtrip

text \<open>
  C23. \<open>CompactSize\<close> is a bijective encoding: reading what was written returns the number and the rest of
  the stream, anything the reader accepts is exactly what the writer produces for the number
  returned, and \<open>GetSizeOfCompactSize\<close> is the length written.
\<close>

theorem compact_size_canonical:
  "ReadCompactSize False (WriteCompactSize n @ s) = Some (n, s) \<and>
   (ReadCompactSize range_check t = Some (n, s) \<longrightarrow> t = WriteCompactSize n @ s) \<and>
   length (WriteCompactSize n) = GetSizeOfCompactSize n"
  using ReadCompactSize_SomeD [of range_check t n s] by (simp add: length_WriteCompactSize)

theorem compact_size_canonical_witness:
  "ReadCompactSize True [253, 0xfd, 0x00, 7] = Some (253, [7]) \<and> [253, 0xfd, 0x00, 7] = WriteCompactSize 253 @ [7]"
proof -
  have "le_bytes 2 v = [word_of_int v, word_of_int (v div 256)]" for v by (simp add: numeral_2_eq_2)
  then have "WriteCompactSize 253 @ [7] = [253, 0xfd, 0x00, 7]"
    by (simp add: WriteCompactSize_def ser_writedata8_def ser_writedata16_def WriteLE16_def)
  then have "ReadCompactSize True [253, 0xfd, 0x00, 7] = Some (253, [7])"
    using ReadCompactSize_Write [of True 253 "[7]"] by (simp add: MAX_SIZE_def)
  then show ?thesis using compact_size_canonical [of 253 "[7]" True "[253, 0xfd, 0x00, 7]"] by blast
qed

text \<open>
  C24. \<open>VarInt\<close> over a type whose largest value is \<open>2^k - 1\<close> with \<open>k\<close> at least 7 is a bijective encoding as
  well: every number up to the largest value is read back, and an accepted byte sequence is the one
  the writer produces.
\<close>

theorem varint_canonical:
  assumes "limit mod 128 = 127"
  shows "(n \<le> limit \<longrightarrow> ReadVarInt limit (WriteVarInt n @ s) = Some (n, s)) \<and>
    (ReadVarInt limit t = Some (n, s) \<longrightarrow> t = WriteVarInt n @ s \<and> n \<le> limit) \<and>
    length (WriteVarInt n) = GetSizeOfVarInt n"
  using ReadVarInt_Write [of n limit s] read_varint_loop_SomeD [OF assms, of 0 t n s]
  by (simp add: ReadVarInt_def WriteVarInt_def length_write_varint)

theorem varint_canonical_witness:
  "ReadVarInt 4294967295 (WriteVarInt 16511 @ [9]) = Some (16511, [9])"
  using varint_canonical [of 4294967295 16511 "[9]"] by simp

end
