(* ===== verification/Transaction.thy ===== *)
theory Transaction
  imports Serialize Amount
begin

unbundle bit_operations_syntax

text \<open>
  Transactions (\<open>primitives/transaction.h\<close>, \<open>primitives/transaction.cpp\<close>): outpoints, inputs, outputs,
  the basic and the extended (witness) serialization, and the sum of the outputs.
\<close>

record COutPoint =
  op_hash :: uint256
  op_n :: "32 word"

definition NULL_INDEX :: "32 word" where
  "NULL_INDEX = 0xffffffff"

definition OutPoint_IsNull :: "COutPoint \<Rightarrow> bool" where
  "OutPoint_IsNull p \<longleftrightarrow> IsNull (op_hash p) \<and> op_n p = NULL_INDEX"

record CTxIn =
  prevout :: COutPoint
  scriptSig :: "byte list"
  nSequence :: "32 word"
  scriptWitness :: "byte list list"

record CTxOut =
  nValue :: CAmount
  scriptPubKey :: "byte list"

record CTransaction =
  vin :: "CTxIn list"
  vout :: "CTxOut list"
  version :: "32 word"
  nLockTime :: "32 word"

definition HasWitness :: "CTxIn list \<Rightarrow> bool" where
  "HasWitness ins \<longleftrightarrow> list_ex (\<lambda>i. scriptWitness i \<noteq> []) ins"

definition IsCoinBase :: "CTransaction \<Rightarrow> bool" where
  "IsCoinBase tx \<longleftrightarrow> length (vin tx) = 1 \<and> OutPoint_IsNull (prevout (vin tx ! 0))"

section \<open>Serialization\<close>

definition ser_uint256 :: "uint256 \<Rightarrow> stream" where "ser_uint256 a = a"

definition unser_uint256 :: "uint256 reader" where "unser_uint256 s = read_bytes 32 s"

definition ser_outpoint :: "COutPoint \<Rightarrow> stream" where
  "ser_outpoint obj = ser_uint256 (op_hash obj) @ ser_writedata32 (op_n obj)"

definition unser_outpoint :: "COutPoint reader" where
  "unser_outpoint s = do {
     (h, s) \<leftarrow> unser_uint256 s;
     (n, s) \<leftarrow> ser_readdata32 s;
     Some (\<lparr>op_hash = h, op_n = n\<rparr>, s)
   }"

definition ser_txin :: "CTxIn \<Rightarrow> stream" where
  "ser_txin obj = ser_outpoint (prevout obj) @ ser_byte_vector (scriptSig obj) @ ser_writedata32 (nSequence obj)"

definition unser_txin :: "CTxIn reader" where
  "unser_txin s = do {
     (p, s) \<leftarrow> unser_outpoint s;
     (sig, s) \<leftarrow> unser_byte_vector s;
     (sq, s) \<leftarrow> ser_readdata32 s;
     Some (\<lparr>prevout = p, scriptSig = sig, nSequence = sq, scriptWitness = []\<rparr>, s)
   }"

definition ser_txout :: "CTxOut \<Rightarrow> stream" where
  "ser_txout obj = ser_i64 (nValue obj) @ ser_byte_vector (scriptPubKey obj)"

definition unser_txout :: "CTxOut reader" where
  "unser_txout s = do {
     (v, s) \<leftarrow> unser_i64 s;
     (p, s) \<leftarrow> unser_byte_vector s;
     Some (\<lparr>nValue = v, scriptPubKey = p\<rparr>, s)
   }"

definition SerializeTransaction :: "bool \<Rightarrow> CTransaction \<Rightarrow> stream" where
  "SerializeTransaction fAllowWitness tx =
     (let flags = (if fAllowWitness \<and> HasWitness (vin tx) then 1 else 0 :: byte) in
      ser_writedata32 (version tx) @
      (if flags \<noteq> 0 then ser_vector ser_txin [] @ ser_writedata8 flags else []) @
      ser_vector ser_txin (vin tx) @ ser_vector ser_txout (vout tx) @
      (if flags AND 1 \<noteq> 0 then concat (map (\<lambda>i. ser_vector ser_byte_vector (scriptWitness i)) (vin tx)) else []) @
      ser_writedata32 (nLockTime tx))"

definition UnserializeTransaction :: "bool \<Rightarrow> CTransaction reader" where
  "UnserializeTransaction fAllowWitness s = do {
     (ver, s) \<leftarrow> ser_readdata32 s;
     (ins, s) \<leftarrow> unser_vector unser_txin s;
     (flags, ins, outs, s) \<leftarrow>
       (if length ins = 0 \<and> fAllowWitness then do {
          (flags, s) \<leftarrow> ser_readdata8 s;
          if flags \<noteq> 0 then do {
            (ins, s) \<leftarrow> unser_vector unser_txin s;
            (outs, s) \<leftarrow> unser_vector unser_txout s;
            Some (flags, ins, outs, s)
          } else Some (flags, ins, [], s)
        } else do {
          (outs, s) \<leftarrow> unser_vector unser_txout s;
          Some (0, ins, outs, s)
        });
     (flags, ins, s) \<leftarrow>
       (if flags AND 1 \<noteq> 0 \<and> fAllowWitness then do {
          (stacks, s) \<leftarrow> unser_many (unser_vector unser_byte_vector) (length ins) s;
          let ins = map2 (\<lambda>i w. i\<lparr>scriptWitness := w\<rparr>) ins stacks;
          if \<not> HasWitness ins then None else Some (flags XOR 1, ins, s)
        } else Some (flags, ins, s));
     if flags \<noteq> 0 then None
     else do {
       (lock, s) \<leftarrow> ser_readdata32 s;
       Some (\<lparr>vin = ins, vout = outs, version = ver, nLockTime = lock\<rparr>, s)
     }
   }"

section \<open>The sum of the outputs\<close>

text \<open>\<open>None\<close> is the exception of the source.\<close>

fun value_out_loop :: "CAmount \<Rightarrow> CTxOut list \<Rightarrow> CAmount option" where
  "value_out_loop nValueOut [] = Some nValueOut"
| "value_out_loop nValueOut (tx_out # outs) =
     (if \<not> MoneyRange (nValue tx_out) \<or> \<not> MoneyRange (nValueOut + nValue tx_out) then None
      else value_out_loop (nValueOut + nValue tx_out) outs)"

definition GetValueOut :: "CTransaction \<Rightarrow> CAmount option" where
  "GetValueOut tx = (case value_out_loop 0 (vout tx) of
     None \<Rightarrow> None | Some v \<Rightarrow> if MoneyRange v then Some v else None)"

definition CalculateOutputValue :: "CTransaction \<Rightarrow> CAmount" where
  "CalculateOutputValue tx = fold (\<lambda>txout acc. acc + nValue txout) (vout tx) 0"

definition ComputeTotalSize :: "CTransaction \<Rightarrow> nat" where
  "ComputeTotalSize tx = length (SerializeTransaction True tx)"

section \<open>Round trip\<close>

definition outpoint_ok :: "COutPoint \<Rightarrow> bool" where
  "outpoint_ok p \<longleftrightarrow> uint256_wf (op_hash p)"

definition txin_ok :: "CTxIn \<Rightarrow> bool" where
  "txin_ok i \<longleftrightarrow> outpoint_ok (prevout i) \<and> length (scriptSig i) \<le> MAX_SIZE"

definition txout_ok :: "CTxOut \<Rightarrow> bool" where
  "txout_ok out \<longleftrightarrow> int64_range (nValue out) \<and> length (scriptPubKey out) \<le> MAX_SIZE"

definition stack_ok :: "byte list list \<Rightarrow> bool" where
  "stack_ok w \<longleftrightarrow> list_all (\<lambda>v. length v \<le> MAX_SIZE) w \<and> length w \<le> MAX_SIZE"

definition strip_witness :: "CTxIn \<Rightarrow> CTxIn" where
  "strip_witness i = i\<lparr>scriptWitness := []\<rparr>"

interpretation outpoint: codec ser_outpoint unser_outpoint outpoint_ok
  by unfold_locales
    (simp add: ser_outpoint_def unser_outpoint_def ser_uint256_def unser_uint256_def outpoint_ok_def uint256_wf_def)

interpretation txin: codec ser_txin unser_txin "\<lambda>i. txin_ok i \<and> scriptWitness i = []"
  by unfold_locales
    (simp add: ser_txin_def unser_txin_def txin_ok_def outpoint.roundtrip byte_vector.roundtrip)

interpretation txout: codec ser_txout unser_txout txout_ok
  by unfold_locales
    (simp add: ser_txout_def unser_txout_def txout_ok_def i64.roundtrip byte_vector.roundtrip)

interpretation wstack: codec "ser_vector ser_byte_vector" "unser_vector unser_byte_vector" stack_ok
  by unfold_locales (simp add: stack_ok_def byte_vector.vector_roundtrip)

lemma ser_txin_strip [simp]: "ser_txin (strip_witness i) = ser_txin i"
  by (simp add: ser_txin_def strip_witness_def)

lemma vin_roundtrip:
  assumes "list_all txin_ok ins" "length ins \<le> MAX_SIZE"
  shows "unser_vector unser_txin (ser_vector ser_txin ins @ s) = Some (map strip_witness ins, s)"
proof -
  have "ser_vector ser_txin (map strip_witness ins) = ser_vector ser_txin ins"
    by (simp add: ser_vector_def comp_def)
  moreover have "list_all (\<lambda>i. txin_ok i \<and> scriptWitness i = []) (map strip_witness ins)"
    using assms(1) by (simp add: list_all_iff strip_witness_def txin_ok_def)
  ultimately show ?thesis using txin.vector_roundtrip [of "map strip_witness ins" s] assms(2) by simp
qed

lemma witness_restore: "map2 (\<lambda>i w. i\<lparr>scriptWitness := w\<rparr>) (map strip_witness ins) (map scriptWitness ins) = ins"
  by (induction ins) (simp_all add: strip_witness_def)

lemma strip_no_witness: "\<not> HasWitness ins \<Longrightarrow> map strip_witness ins = ins"
  by (induction ins) (auto simp: HasWitness_def strip_witness_def)

definition tx_ok :: "CTransaction \<Rightarrow> bool" where
  "tx_ok tx \<longleftrightarrow> list_all txin_ok (vin tx) \<and> list_all (\<lambda>i. stack_ok (scriptWitness i)) (vin tx) \<and>
     list_all txout_ok (vout tx) \<and> length (vin tx) \<le> MAX_SIZE \<and> length (vout tx) \<le> MAX_SIZE"

lemma ser_vector_nil: "ser_vector ser [] = ser_writedata8 0"
  by (simp add: ser_vector_def WriteCompactSize_def)

lemma tx_roundtrip_witness:
  assumes "tx_ok tx" "HasWitness (vin tx)"
  shows "UnserializeTransaction True (SerializeTransaction True tx @ s) = Some (tx, s)"
proof -
  have "unser_many (unser_vector unser_byte_vector) (length (vin tx))
      (concat (map (\<lambda>i. ser_vector ser_byte_vector (scriptWitness i)) (vin tx)) @ t) = Some (map scriptWitness (vin tx), t)" for t
    using wstack.many_roundtrip [of "map scriptWitness (vin tx)" t] assms(1)
    by (simp add: tx_ok_def list_all_iff comp_def)
  moreover have "unser_vector unser_txin (ser_vector ser_txin [] @ t) = Some ([], t)" for t
    using vin_roundtrip [of "[]" t] by simp
  ultimately show ?thesis
    using assms vin_roundtrip [of "vin tx"] txout.vector_roundtrip [of "vout tx"]
    by (simp add: UnserializeTransaction_def SerializeTransaction_def tx_ok_def witness_restore)
qed

lemma tx_roundtrip_plain:
  assumes "tx_ok tx" "allow \<longrightarrow> \<not> HasWitness (vin tx) \<and> (vin tx \<noteq> [] \<or> vout tx = [])"
  shows "UnserializeTransaction allow (SerializeTransaction allow tx @ s)
    = Some (tx\<lparr>vin := map strip_witness (vin tx)\<rparr>, s)"
proof (cases "vin tx = [] \<and> allow")
  case True
  then have e: "vin tx = []" "vout tx = []" "allow" using assms(2) by auto
  have "SerializeTransaction allow tx @ s =
      ser_writedata32 (version tx) @ ser_vector ser_txin [] @ ser_writedata8 0 @ ser_writedata32 (nLockTime tx) @ s"
    using e by (simp add: SerializeTransaction_def HasWitness_def ser_vector_nil)
  then show ?thesis
    using e vin_roundtrip [of "[]"] by (simp add: UnserializeTransaction_def)
next
  case False
  then have "\<not> (length (vin tx) = 0 \<and> allow)" by simp
  then show ?thesis
    using assms vin_roundtrip [of "vin tx"] txout.vector_roundtrip [of "vout tx"]
    by (auto simp: UnserializeTransaction_def SerializeTransaction_def tx_ok_def Let_def)
qed

lemma HasWitness_nil [simp]: "\<not> HasWitness []"
  by (simp add: HasWitness_def)

text \<open>
  C26. Reading back a serialized transaction returns the transaction, in both formats: with the witness
  format every field comes back, without it the witnesses are dropped and everything else comes back.
  The one exception is a transaction with no input but with an output, whose serialization the extended
  format takes over for its marker.
\<close>

theorem transaction_roundtrip:
  assumes "tx_ok tx" "allow \<longrightarrow> vin tx \<noteq> [] \<or> vout tx = []"
  shows "UnserializeTransaction allow (SerializeTransaction allow tx @ s)
    = Some (if allow then tx else tx\<lparr>vin := map strip_witness (vin tx)\<rparr>, s)"
proof (cases "allow \<and> HasWitness (vin tx)")
  case True
  then show ?thesis using tx_roundtrip_witness [OF assms(1)] by simp
next
  case False
  then have "allow \<longrightarrow> \<not> HasWitness (vin tx) \<and> (vin tx \<noteq> [] \<or> vout tx = [])" using assms(2) by blast
  from tx_roundtrip_plain [OF assms(1) this] show ?thesis
    using False strip_no_witness [of "vin tx"] by (cases allow) auto
qed

definition example_tx :: CTransaction where
  "example_tx = \<lparr>vin = [\<lparr>prevout = \<lparr>op_hash = replicate 32 7, op_n = 1\<rparr>, scriptSig = [], nSequence = 0xfffffffe,
       scriptWitness = [[1, 2], [3]]\<rparr>],
     vout = [\<lparr>nValue = 5000, scriptPubKey = [0x51]\<rparr>], version = 2, nLockTime = 17\<rparr>"

lemma example_tx_ok: "tx_ok example_tx"
  by (simp add: example_tx_def tx_ok_def txin_ok_def outpoint_ok_def uint256_wf_def txout_ok_def stack_ok_def
      MAX_SIZE_def int64_range_def INT64_MIN_def INT64_MAX_def)

theorem transaction_roundtrip_witness:
  "UnserializeTransaction True (SerializeTransaction True example_tx @ [9]) = Some (example_tx, [9])"
  using transaction_roundtrip [of example_tx True "[9]", OF example_tx_ok] by (simp add: example_tx_def)

section \<open>The sum of the outputs\<close>

lemma value_out_loop_eq:
  assumes "MoneyRange a"
  shows "value_out_loop a outs =
    (if list_all (\<lambda>out. MoneyRange (nValue out)) outs \<and> a + sum_list (map nValue outs) \<le> MAX_MONEY
     then Some (a + sum_list (map nValue outs)) else None)"
  using assms
proof (induction outs arbitrary: a)
  case Nil
  then show ?case by (simp add: MoneyRange_def)
next
  case (Cons out outs)
  have nonneg: "list_all (\<lambda>out. MoneyRange (nValue out)) outs \<Longrightarrow> 0 \<le> sum_list (map nValue outs)"
    by (rule sum_list_nonneg) (auto simp: list_all_iff MoneyRange_def)
  show ?case
  proof (cases "MoneyRange (nValue out) \<and> MoneyRange (a + nValue out)")
    case True
    then show ?thesis using Cons.IH [of "a + nValue out"] by (simp add: add.assoc)
  next
    case False
    then show ?thesis using Cons.prems nonneg by (auto simp: MoneyRange_def)
  qed
qed

lemma MoneyRange_0 [simp]: "MoneyRange 0"
  by (simp add: MoneyRange_def less_imp_le)

lemma GetValueOut_eq:
  "GetValueOut tx =
    (if list_all (\<lambda>out. MoneyRange (nValue out)) (vout tx) \<and> sum_list (map nValue (vout tx)) \<le> MAX_MONEY
     then Some (sum_list (map nValue (vout tx))) else None)"
proof -
  have "list_all (\<lambda>out. MoneyRange (nValue out)) (vout tx) \<Longrightarrow> 0 \<le> sum_list (map nValue (vout tx))"
    by (rule sum_list_nonneg) (auto simp: list_all_iff MoneyRange_def)
  then show ?thesis unfolding GetValueOut_def value_out_loop_eq [OF MoneyRange_0] by (auto simp: MoneyRange_def)
qed

lemma GetValueOut_range: "GetValueOut tx = Some v \<Longrightarrow> MoneyRange v"
  by (auto simp: GetValueOut_def split: option.splits if_splits)

lemma CalculateOutputValue_eq: "CalculateOutputValue tx = sum_list (map nValue (vout tx))"
proof -
  have "fold (\<lambda>txout acc. acc + nValue txout) outs a = a + sum_list (map nValue outs)" for a and outs :: "CTxOut list"
    by (induction outs arbitrary: a) simp_all
  then show ?thesis by (simp add: CalculateOutputValue_def)
qed

end
