(* ===== verification/TxCheck.thy ===== *)
theory TxCheck
  imports Transaction
begin

text \<open>
  Context-free transaction checks (\<open>consensus/tx_check.cpp\<close>) and the reasons for which a transaction
  or a block is rejected (\<open>consensus/validation.h\<close>). A check that sets an invalid state and returns
  false is an \<open>Inl\<close> with the result and the reject reason.
\<close>

datatype TxValidationResult =
    TX_RESULT_UNSET | TX_CONSENSUS | TX_INPUTS_NOT_STANDARD | TX_NOT_STANDARD | TX_MISSING_INPUTS
  | TX_PREMATURE_SPEND | TX_WITNESS_MUTATED | TX_WITNESS_STRIPPED | TX_CONFLICT | TX_MEMPOOL_POLICY
  | TX_NO_MEMPOOL | TX_RECONSIDERABLE | TX_UNKNOWN

type_synonym 'a tx_validated = "(TxValidationResult \<times> string) + 'a"

definition MAX_BLOCK_WEIGHT :: nat where "MAX_BLOCK_WEIGHT = 4000000"

definition WITNESS_SCALE_FACTOR :: nat where "WITNESS_SCALE_FACTOR = 4"

definition GetTransactionWeight :: "CTransaction \<Rightarrow> nat" where
  "GetTransactionWeight tx = length (SerializeTransaction False tx) * (WITNESS_SCALE_FACTOR - 1)
     + length (SerializeTransaction True tx)"

fun check_outputs_loop :: "CAmount \<Rightarrow> CTxOut list \<Rightarrow> string option" where
  "check_outputs_loop nValueOut [] = None"
| "check_outputs_loop nValueOut (txout # outs) =
     (if nValue txout < 0 then Some ''bad-txns-vout-negative''
      else if nValue txout > MAX_MONEY then Some ''bad-txns-vout-toolarge''
      else if \<not> MoneyRange (nValueOut + nValue txout) then Some ''bad-txns-txouttotal-toolarge''
      else check_outputs_loop (nValueOut + nValue txout) outs)"

fun duplicate_inputs_loop :: "COutPoint list \<Rightarrow> CTxIn list \<Rightarrow> bool" where
  "duplicate_inputs_loop vInOutPoints [] = False"
| "duplicate_inputs_loop vInOutPoints (txin # ins) =
     (if List.member vInOutPoints (prevout txin) then True
      else duplicate_inputs_loop (prevout txin # vInOutPoints) ins)"

definition CheckTransaction :: "CTransaction \<Rightarrow> unit tx_validated" where
  "CheckTransaction tx =
     (if vin tx = [] then Inl (TX_CONSENSUS, ''bad-txns-vin-empty'')
      else if vout tx = [] then Inl (TX_CONSENSUS, ''bad-txns-vout-empty'')
      else if length (SerializeTransaction False tx) * WITNESS_SCALE_FACTOR > MAX_BLOCK_WEIGHT
        then Inl (TX_CONSENSUS, ''bad-txns-oversize'')
      else case check_outputs_loop 0 (vout tx) of
        Some reason \<Rightarrow> Inl (TX_CONSENSUS, reason)
      | None \<Rightarrow>
        if duplicate_inputs_loop [] (vin tx) then Inl (TX_CONSENSUS, ''bad-txns-inputs-duplicate'')
        else if IsCoinBase tx then
          (if length (scriptSig (vin tx ! 0)) < 2 \<or> length (scriptSig (vin tx ! 0)) > 100
           then Inl (TX_CONSENSUS, ''bad-cb-length'') else Inr ())
        else if list_ex (\<lambda>txin. OutPoint_IsNull (prevout txin)) (vin tx)
          then Inl (TX_CONSENSUS, ''bad-txns-prevout-null'')
        else Inr ())"

section \<open>Correctness\<close>

lemma check_outputs_loop_iff:
  "check_outputs_loop a outs = None \<longleftrightarrow> value_out_loop a outs \<noteq> None"
  by (induction outs arbitrary: a) (auto simp: MoneyRange_def)

lemma check_outputs_iff: "check_outputs_loop 0 (vout tx) = None \<longleftrightarrow> GetValueOut tx \<noteq> None"
  unfolding check_outputs_loop_iff GetValueOut_eq value_out_loop_eq [OF MoneyRange_0] by simp

lemma duplicate_inputs_loop_iff:
  "duplicate_inputs_loop seen ins \<longleftrightarrow>
    \<not> (distinct (map prevout ins) \<and> set (map prevout ins) \<inter> set seen = {})"
  by (induction ins arbitrary: seen) auto

lemma CheckTransaction_InrD:
  assumes "CheckTransaction tx = Inr ()"
  shows "vin tx \<noteq> []" "vout tx \<noteq> []" "GetValueOut tx \<noteq> None" "distinct (map prevout (vin tx))"
    "\<not> IsCoinBase tx \<Longrightarrow> \<not> list_ex (\<lambda>i. OutPoint_IsNull (prevout i)) (vin tx)"
  using assms check_outputs_iff [of tx] duplicate_inputs_loop_iff [of "[]" "vin tx"]
  by (auto simp: CheckTransaction_def split: if_splits option.splits)

text \<open>
  C25. A transaction passes the context-free checks exactly when it has inputs and outputs, its
  stripped size times four fits in a block, the sum of its outputs is well defined (so
  \<open>GetValueOut\<close>, called later, does not throw), no outpoint is spent twice, and its coinbase script has
  2 to 100 bytes or, when it is no coinbase, none of its inputs is null.
\<close>

theorem check_transaction_iff:
  "CheckTransaction tx = Inr () \<longleftrightarrow>
    vin tx \<noteq> [] \<and> vout tx \<noteq> [] \<and> length (SerializeTransaction False tx) * 4 \<le> 4000000 \<and>
    GetValueOut tx \<noteq> None \<and> distinct (map prevout (vin tx)) \<and>
    (if IsCoinBase tx then length (scriptSig (hd (vin tx))) \<in> {2..100}
     else list_all (\<lambda>i. \<not> OutPoint_IsNull (prevout i)) (vin tx))"
proof -
  have hd: "vin tx \<noteq> [] \<Longrightarrow> vin tx ! 0 = hd (vin tx)" by (simp add: hd_conv_nth)
  have ex: "\<not> list_ex (\<lambda>i. OutPoint_IsNull (prevout i)) (vin tx) \<longleftrightarrow>
      list_all (\<lambda>i. \<not> OutPoint_IsNull (prevout i)) (vin tx)"
    by (simp add: list_all_iff list_ex_iff)
  show ?thesis
  proof (cases "check_outputs_loop 0 (vout tx)")
    case None
    then have "GetValueOut tx \<noteq> None" using check_outputs_iff by blast
    then show ?thesis using None duplicate_inputs_loop_iff [of "[]" "vin tx"] hd ex
      by (auto simp: CheckTransaction_def WITNESS_SCALE_FACTOR_def MAX_BLOCK_WEIGHT_def not_less not_le)
  next
    case (Some reason)
    then have "GetValueOut tx = None" using check_outputs_iff by force
    then show ?thesis using Some by (auto simp: CheckTransaction_def)
  qed
qed

end
