(* ===== verification/Script.thy ===== *)
theory Script
  imports Serialize
begin

text \<open>
  Scripts as byte sequences (\<open>script/script.h\<close>, \<open>script/script.cpp\<close>): reading one operation, pushing
  data and numbers, the encoding of script numbers, the script templates and the counting of signature
  operations. An iterator into a script is the rest of the script from it; a failed \<open>GetOp\<close>, after which the
  callers stop, is \<open>None\<close>.
\<close>

section \<open>Operations\<close>

definition OP_0 :: byte where "OP_0 = 0x00"
definition OP_PUSHDATA1 :: byte where "OP_PUSHDATA1 = 0x4c"
definition OP_PUSHDATA2 :: byte where "OP_PUSHDATA2 = 0x4d"
definition OP_PUSHDATA4 :: byte where "OP_PUSHDATA4 = 0x4e"
definition OP_1 :: byte where "OP_1 = 0x51"
definition OP_16 :: byte where "OP_16 = 0x60"
definition OP_RETURN :: byte where "OP_RETURN = 0x6a"
definition OP_DUP :: byte where "OP_DUP = 0x76"
definition OP_EQUAL :: byte where "OP_EQUAL = 0x87"
definition OP_EQUALVERIFY :: byte where "OP_EQUALVERIFY = 0x88"
definition OP_HASH160 :: byte where "OP_HASH160 = 0xa9"
definition OP_CHECKSIG :: byte where "OP_CHECKSIG = 0xac"
definition OP_CHECKSIGVERIFY :: byte where "OP_CHECKSIGVERIFY = 0xad"
definition OP_CHECKMULTISIG :: byte where "OP_CHECKMULTISIG = 0xae"
definition OP_CHECKMULTISIGVERIFY :: byte where "OP_CHECKMULTISIGVERIFY = 0xaf"
definition OP_NOP10 :: byte where "OP_NOP10 = 0xb9"
definition OP_INVALIDOPCODE :: byte where "OP_INVALIDOPCODE = 0xff"

definition MAX_OPCODE :: byte where "MAX_OPCODE = OP_NOP10"

definition MAX_SCRIPT_ELEMENT_SIZE :: nat where "MAX_SCRIPT_ELEMENT_SIZE = 520"

definition MAX_PUBKEYS_PER_MULTISIG :: int where "MAX_PUBKEYS_PER_MULTISIG = 20"

definition MAX_SCRIPT_SIZE :: nat where "MAX_SCRIPT_SIZE = 10000"

lemmas opcode_defs = OP_0_def OP_PUSHDATA1_def OP_PUSHDATA2_def OP_PUSHDATA4_def OP_1_def OP_16_def OP_RETURN_def
  OP_DUP_def OP_EQUAL_def OP_EQUALVERIFY_def OP_HASH160_def OP_CHECKSIG_def OP_CHECKSIGVERIFY_def
  OP_CHECKMULTISIG_def OP_CHECKMULTISIGVERIFY_def OP_NOP10_def OP_INVALIDOPCODE_def

definition GetScriptOp :: "byte list \<Rightarrow> (byte \<times> byte list \<times> byte list) option" where
  "GetScriptOp pc = (case pc of
     [] \<Rightarrow> None
   | opcode # pc \<Rightarrow>
     if opcode \<le> OP_PUSHDATA4 then do {
       (nSize, pc) \<leftarrow>
         (if opcode < OP_PUSHDATA1 then Some (unat opcode, pc)
          else if opcode = OP_PUSHDATA1 then
            (if length pc < 1 then None else Some (unat (pc ! 0), drop 1 pc))
          else if opcode = OP_PUSHDATA2 then
            (if length pc < 2 then None else Some (unat (ReadLE16 pc), drop 2 pc))
          else
            (if length pc < 4 then None else Some (unat (ReadLE32 pc), drop 4 pc)));
       if length pc < nSize then None else Some (opcode, take nSize pc, drop nSize pc)
     }
     else Some (opcode, [], pc))"

lemma GetScriptOp_shorter: "GetScriptOp pc = Some (opcode, vch, rest) \<Longrightarrow> length rest < length pc"
  by (auto simp: GetScriptOp_def bind_eq_Some_conv split: list.splits if_splits)

definition AppendDataSize :: "nat \<Rightarrow> byte list" where
  "AppendDataSize n =
     (if n < unat OP_PUSHDATA1 then [word_of_nat n]
      else if n \<le> 0xff then [OP_PUSHDATA1, word_of_nat n]
      else if n \<le> 0xffff then OP_PUSHDATA2 # WriteLE16 (word_of_nat n)
      else OP_PUSHDATA4 # WriteLE32 (word_of_nat n))"

definition push_data :: "byte list \<Rightarrow> byte list \<Rightarrow> byte list" where
  "push_data script b = script @ AppendDataSize (length b) @ b"

definition DecodeOP_N :: "byte \<Rightarrow> int option" where
  "DecodeOP_N opcode =
     (if opcode = OP_0 then Some 0
      else if opcode \<ge> OP_1 \<and> opcode \<le> OP_16 then Some (uint opcode - uint (OP_1 - 1)) else None)"

definition EncodeOP_N :: "int \<Rightarrow> byte option" where
  "EncodeOP_N n =
     (if n \<ge> 0 \<and> n \<le> 16 then (if n = 0 then Some OP_0 else Some (word_of_int (uint OP_1 + n - 1))) else None)"

section \<open>Script numbers\<close>

function abs_bytes :: "nat \<Rightarrow> byte list" where
  "abs_bytes absvalue = (if absvalue = 0 then [] else word_of_nat (absvalue mod 256) # abs_bytes (absvalue div 256))"
  by auto
termination by (relation "measure id") simp_all

declare abs_bytes.simps [simp del]

definition scriptnum_serialize :: "int \<Rightarrow> byte list" where
  "scriptnum_serialize value =
     (if value = 0 then []
      else
        let neg = value < 0;
            absvalue = (if neg then nat ((- value) mod 2 ^ 64) else nat value);
            result = abs_bytes absvalue in
        if last result AND 0x80 \<noteq> 0 then result @ [if neg then 0x80 else 0]
        else if neg then butlast result @ [last result OR 0x80]
        else result)"

fun set_vch_loop :: "nat \<Rightarrow> byte list \<Rightarrow> 64 word \<Rightarrow> 64 word" where
  "set_vch_loop i [] result = result"
| "set_vch_loop i (b # vch) result = set_vch_loop (i + 1) vch (result OR push_bit (8 * i) (ucast b))"

definition set_vch :: "byte list \<Rightarrow> int" where
  "set_vch vch =
     (if vch = [] then 0
      else
        let result = set_vch_loop 0 vch 0 in
        if last vch AND 0x80 \<noteq> 0 then - sint (result AND NOT (push_bit (8 * (length vch - 1)) 0x80))
        else sint result)"

definition mk_CScriptNum :: "byte list \<Rightarrow> bool \<Rightarrow> nat \<Rightarrow> string + int" where
  "mk_CScriptNum vch fRequireMinimal nMaxNumSize =
     (if length vch > nMaxNumSize then Inl ''script number overflow''
      else if fRequireMinimal \<and> length vch > 0 \<and> last vch AND 0x7f = 0 \<and>
        (length vch \<le> 1 \<or> vch ! (length vch - 2) AND 0x80 = 0) then Inl ''non-minimally encoded script number''
      else Inr (set_vch vch))"

definition push_int64 :: "byte list \<Rightarrow> int \<Rightarrow> byte list" where
  "push_int64 script n =
     (if n = -1 \<or> (n \<ge> 1 \<and> n \<le> 16) then script @ [word_of_int (n + (uint OP_1 - 1))]
      else if n = 0 then script @ [OP_0]
      else push_data script (scriptnum_serialize n))"

section \<open>Templates\<close>

definition IsPayToAnchor :: "byte list \<Rightarrow> bool" where
  "IsPayToAnchor s \<longleftrightarrow> length s = 4 \<and> s ! 0 = OP_1 \<and> s ! 1 = 0x02 \<and> s ! 2 = 0x4e \<and> s ! 3 = 0x73"

definition IsPayToScriptHash :: "byte list \<Rightarrow> bool" where
  "IsPayToScriptHash s \<longleftrightarrow> length s = 23 \<and> s ! 0 = OP_HASH160 \<and> s ! 1 = 0x14 \<and> s ! 22 = OP_EQUAL"

definition IsPayToWitnessScriptHash :: "byte list \<Rightarrow> bool" where
  "IsPayToWitnessScriptHash s \<longleftrightarrow> length s = 34 \<and> s ! 0 = OP_0 \<and> s ! 1 = 0x20"

definition IsPayToTaproot :: "byte list \<Rightarrow> bool" where
  "IsPayToTaproot s \<longleftrightarrow> length s = 34 \<and> s ! 0 = OP_1 \<and> s ! 1 = 0x20"

text \<open>The outer \<open>None\<close> is the failed assertion of \<open>DecodeOP_N\<close>, the inner one the answer no.\<close>

definition IsWitnessProgram :: "byte list \<Rightarrow> (int \<times> byte list) option option" where
  "IsWitnessProgram s =
     (if length s < 4 \<or> length s > 42 then Some None
      else if s ! 0 \<noteq> OP_0 \<and> (s ! 0 < OP_1 \<or> s ! 0 > OP_16) then Some None
      else if unat (s ! 1) + 2 = length s then do {
        version \<leftarrow> DecodeOP_N (s ! 0);
        Some (Some (version, drop 2 s))
      }
      else Some None)"

function IsPushOnly :: "byte list \<Rightarrow> bool" where
  "IsPushOnly pc =
     (if pc = [] then True
      else case GetScriptOp pc of
        None \<Rightarrow> False
      | Some (opcode, vch, pc) \<Rightarrow> if opcode > OP_16 then False else IsPushOnly pc)"
  by auto
termination by (relation "measure length") (auto dest: GetScriptOp_shorter)

function HasValidOps :: "byte list \<Rightarrow> bool" where
  "HasValidOps it =
     (if it = [] then True
      else case GetScriptOp it of
        None \<Rightarrow> False
      | Some (opcode, item, it) \<Rightarrow>
          if opcode > MAX_OPCODE \<or> length item > MAX_SCRIPT_ELEMENT_SIZE then False else HasValidOps it)"
  by auto
termination by (relation "measure length") (auto dest: GetScriptOp_shorter)

declare IsPushOnly.simps [simp del] HasValidOps.simps [simp del]

definition IsUnspendable :: "byte list \<Rightarrow> bool" where
  "IsUnspendable script \<longleftrightarrow>
     (length script > 0 \<and> script ! 0 = OP_RETURN) \<or> length script > MAX_SCRIPT_SIZE"

definition CheckMinimalPush :: "byte list \<Rightarrow> byte \<Rightarrow> bool option" where
  "CheckMinimalPush data opcode =
     (if \<not> opcode \<le> OP_PUSHDATA4 then None
      else Some
       (if length data = 0 then opcode = OP_0
        else if length data = 1 \<and> data ! 0 \<ge> 1 \<and> data ! 0 \<le> 16 then False
        else if length data = 1 \<and> data ! 0 = 0x81 then False
        else if length data \<le> 75 then unat opcode = length data
        else if length data \<le> 255 then opcode = OP_PUSHDATA1
        else if length data \<le> 65535 then opcode = OP_PUSHDATA2
        else True))"

section \<open>Signature operations\<close>

text \<open>The count is an \<open>unsigned int\<close>; \<open>None\<close> is the failed assertion of \<open>DecodeOP_N\<close>.\<close>

function sigop_loop :: "bool \<Rightarrow> byte list \<Rightarrow> byte \<Rightarrow> 32 word \<Rightarrow> 32 word option" where
  "sigop_loop fAccurate pc lastOpcode n =
     (if pc = [] then Some n
      else case GetScriptOp pc of
        None \<Rightarrow> Some n
      | Some (opcode, vch, pc) \<Rightarrow> do {
          n \<leftarrow> (if opcode = OP_CHECKSIG \<or> opcode = OP_CHECKSIGVERIFY then Some (n + 1)
               else if opcode = OP_CHECKMULTISIG \<or> opcode = OP_CHECKMULTISIGVERIFY then
                 (if fAccurate \<and> lastOpcode \<ge> OP_1 \<and> lastOpcode \<le> OP_16
                  then map_option (\<lambda>k. n + word_of_int k) (DecodeOP_N lastOpcode)
                  else Some (n + word_of_int MAX_PUBKEYS_PER_MULTISIG))
               else Some n);
          sigop_loop fAccurate pc opcode n
        })"
  by auto
termination by (relation "measure (\<lambda>(_, pc, _). length pc)") (auto dest: GetScriptOp_shorter)

declare sigop_loop.simps [simp del]

definition GetSigOpCount :: "bool \<Rightarrow> byte list \<Rightarrow> 32 word option" where
  "GetSigOpCount fAccurate script = sigop_loop fAccurate script OP_INVALIDOPCODE 0"

function last_push :: "byte list \<Rightarrow> byte list \<Rightarrow> byte list option" where
  "last_push pc vData =
     (if pc = [] then Some vData
      else case GetScriptOp pc of
        None \<Rightarrow> None
      | Some (opcode, vData, pc) \<Rightarrow> if opcode > OP_16 then None else last_push pc vData)"
  by auto
termination by (relation "measure (length \<circ> fst)") (auto dest: GetScriptOp_shorter)

declare last_push.simps [simp del]

definition GetSigOpCount_p2sh :: "byte list \<Rightarrow> byte list \<Rightarrow> 32 word option" where
  "GetSigOpCount_p2sh script scriptSig =
     (if \<not> IsPayToScriptHash script then GetSigOpCount True script
      else case last_push scriptSig [] of
        None \<Rightarrow> Some 0
      | Some subscript \<Rightarrow> GetSigOpCount True subscript)"

definition WITNESS_V0_KEYHASH_SIZE :: nat where "WITNESS_V0_KEYHASH_SIZE = 20"

definition WITNESS_V0_SCRIPTHASH_SIZE :: nat where "WITNESS_V0_SCRIPTHASH_SIZE = 32"

definition WitnessSigOps :: "int \<Rightarrow> byte list \<Rightarrow> byte list list \<Rightarrow> nat option" where
  "WitnessSigOps witversion witprogram witness =
     (if witversion = 0 \<and> length witprogram = WITNESS_V0_KEYHASH_SIZE then Some 1
      else if witversion = 0 \<and> length witprogram = WITNESS_V0_SCRIPTHASH_SIZE \<and> length witness > 0
        then map_option unat (GetSigOpCount True (last witness))
      else Some 0)"

definition CountWitnessSigOps :: "byte list \<Rightarrow> byte list \<Rightarrow> byte list list \<Rightarrow> bool \<Rightarrow> bool \<Rightarrow> nat option" where
  "CountWitnessSigOps scriptSig script witness verify_p2sh verify_witness =
     (if \<not> verify_witness then Some 0
      else if \<not> verify_p2sh then None
      else do {
        program \<leftarrow> IsWitnessProgram script;
        case program of
          Some (witnessversion, witnessprogram) \<Rightarrow> WitnessSigOps witnessversion witnessprogram witness
        | None \<Rightarrow>
            if IsPayToScriptHash script \<and> IsPushOnly scriptSig then do {
              subscript \<leftarrow> last_push scriptSig [];
              program \<leftarrow> IsWitnessProgram subscript;
              case program of
                Some (witnessversion, witnessprogram) \<Rightarrow> WitnessSigOps witnessversion witnessprogram witness
              | None \<Rightarrow> Some 0
            }
            else Some 0
      })"

section \<open>Reading back what was pushed\<close>

lemma push_data_GetScriptOp:
  assumes "length b < 2 ^ 32"
  shows "\<exists>opcode. GetScriptOp (AppendDataSize (length b) @ b @ rest) = Some (opcode, b, rest) \<and> opcode \<le> OP_PUSHDATA4"
proof -
  have small: "unat (word_of_nat n :: byte) = n" if "n < 256" for n using that by (simp add: unat_of_nat)
  consider "length b < 76" | "76 \<le> length b" "length b \<le> 0xff" | "0xff < length b" "length b \<le> 0xffff" | "0xffff < length b"
    by linarith
  then show ?thesis
  proof cases
    case 1
    then have "unat (word_of_nat (length b) :: byte) = length b" by (intro small) simp
    then have "(word_of_nat (length b) :: byte) < OP_PUSHDATA1" "(word_of_nat (length b) :: byte) \<le> OP_PUSHDATA4"
      using 1 by (simp_all add: word_less_nat_alt word_le_nat_alt opcode_defs)
    then show ?thesis using 1 by (simp add: GetScriptOp_def AppendDataSize_def opcode_defs small)
  next
    case 2
    then show ?thesis by (simp add: GetScriptOp_def AppendDataSize_def opcode_defs small)
  next
    case 3
    then have "unat (word_of_nat (length b) :: 16 word) = length b" by (simp add: unat_of_nat)
    then show ?thesis using 3 by (simp add: GetScriptOp_def AppendDataSize_def opcode_defs)
  next
    case 4
    then have "unat (word_of_nat (length b) :: 32 word) = length b" using assms by (simp add: unat_of_nat)
    then show ?thesis using 4 by (simp add: GetScriptOp_def AppendDataSize_def opcode_defs)
  qed
qed

section \<open>Script numbers\<close>

lemma byte_sign:
  fixes t :: byte
  shows "t AND 0x80 = 0 \<longleftrightarrow> uint t < 128" "uint (t AND 0x7f) = uint t mod 128"
    "uint t < 128 \<Longrightarrow> uint (t OR 0x80) = uint t + 128"
proof -
  have "t AND 2 ^ 7 = 0 \<longleftrightarrow> \<not> bit t 7" by (rule and_exp_eq_0_iff_not_bit)
  moreover have "bit t 7 \<longleftrightarrow> odd (uint t div 2 ^ 7)" 
    using bit_uint_iff [of t 7] by (simp add: bit_iff_odd [of "uint t"])
  moreover have "odd (x div 128) \<longleftrightarrow> \<not> x < 128" if "0 \<le> x" "x < 256" for x :: int using that by presburger
  then have "odd (uint t div 2 ^ 7) \<longleftrightarrow> \<not> uint t < 128" using uint_lt2p [of t] by simp
  ultimately show sgn: "t AND 0x80 = 0 \<longleftrightarrow> uint t < 128" by simp
  have "t AND 0x7f = take_bit 7 t" by (simp add: take_bit_eq_mask mask_eq_exp_minus_1)
  then show "uint (t AND 0x7f) = uint t mod 128" 
    using unsigned_take_bit_eq [of 7 t, where 'a = int] by (simp add: take_bit_eq_mod [of _ "uint t"] del: unsigned_take_bit_eq)
  assume "uint t < 128"
  then have "t AND 0x80 = 0" using sgn by blast
  then have "t OR 0x80 = t + 0x80" by (simp add: disjunctive_add_eq_or)
  then show "uint (t OR 0x80) = uint t + 128" 
    using \<open>uint t < 128\<close> by (simp add: uint_word_arith_bintrs take_bit_int_eq_self)
qed

lemma bit_below:
  fixes w :: "64 word"
  assumes "uint w < 2 ^ m" "bit w n"
  shows "n < m"
proof -
  have "take_bit m (uint w) = uint w" using assms(1) by (simp add: take_bit_int_eq_self)
  then have "bit (take_bit m (uint w)) n" using assms(2) bit_imp_le_length [OF assms(2)] by (simp add: bit_uint_iff)
  then show ?thesis by (simp add: bit_take_bit_iff)
qed

lemma or_push_bit:
  fixes acc :: "64 word"
  assumes "uint acc < 2 ^ (8 * i)" "i < 8"
  shows "uint (acc OR push_bit (8 * i) (ucast (b :: byte))) = uint acc + 2 ^ (8 * i) * uint b"
proof -
  let ?p = "push_bit (8 * i) (ucast b) :: 64 word"
  have "uint b * 2 ^ (8 * i) \<le> 255 * 2 ^ (8 * i)" using uint_lt2p [of b] by (intro mult_right_mono) auto
  moreover have "(2::int) ^ (8 * i) \<le> 2 ^ (8 * 7)" using assms(2) by (intro power_increasing) auto
  then have "256 * (2::int) ^ (8 * i) \<le> 2 ^ 64" by simp
  ultimately have small: "uint acc + uint b * 2 ^ (8 * i) < 2 ^ 64" using assms(1) by linarith
  have "0 \<le> uint b * 2 ^ (8 * i)" by simp
  moreover have "uint b * 2 ^ (8 * i) < 2 ^ 64" using small by (smt (verit) uint_ge_0)
  ultimately have "take_bit 64 (uint b * 2 ^ (8 * i)) = uint b * 2 ^ (8 * i)" by (rule take_bit_int_eq_self)
  then have p: "uint ?p = uint b * 2 ^ (8 * i)"
    using unsigned_push_bit_eq [of "8 * i" "ucast b :: 64 word", where 'a = int]
    by (simp add: push_bit_eq_mult uint_ucast_up del: unsigned_push_bit_eq)
  have "acc OR ?p = acc + ?p"
    using bit_below [OF assms(1)] by (intro disjunctive_add [symmetric]) (force simp: bit_push_bit_iff)
  then show ?thesis using small p by (simp add: uint_word_arith_bintrs take_bit_int_eq_self mult.commute)
qed

lemma set_vch_loop_val:
  assumes "uint acc < 2 ^ (8 * i)" "i + length vch \<le> 8"
  shows "uint (set_vch_loop i vch acc) = uint acc + 2 ^ (8 * i) * le_val vch"
  using assms
proof (induction vch arbitrary: i acc)
  case (Cons b vch)
  have eq: "uint (acc OR push_bit (8 * i) (ucast b)) = uint acc + 2 ^ (8 * i) * uint b"
    using Cons.prems by (intro or_push_bit) auto
  have "2 ^ (8 * i) * uint b \<le> 2 ^ (8 * i) * (255 :: int)" using uint_lt2p [of b] by (intro mult_left_mono) auto
  then have "uint acc + 2 ^ (8 * i) * uint b < 2 ^ (8 * i) + 2 ^ (8 * i) * 255"
    using Cons.prems(1) by linarith
  then have "uint acc + 2 ^ (8 * i) * uint b < 2 ^ (8 * (i + 1))" by (simp add: power_add)
  then show ?case
    using Cons.IH [of "acc OR push_bit (8 * i) (ucast b)" "i + 1"] Cons.prems(2) eq by (simp add: power_add algebra_simps)
qed simp

lemma set_vch_loop_append:
  "set_vch_loop i (xs @ ys) acc = set_vch_loop (i + length xs) ys (set_vch_loop i xs acc)"
  by (induction xs arbitrary: i acc) simp_all

lemma clear_sign:
  fixes acc :: "64 word"
  assumes "uint acc < 2 ^ (8 * k)"
  shows "(acc OR push_bit (8 * k) (ucast (t :: byte))) AND NOT (push_bit (8 * k) 0x80)
    = acc OR push_bit (8 * k) (ucast (t AND 0x7f))"
proof (rule bit_word_eqI)
  fix n assume "n < LENGTH(64)"
  have "bit (0x80 :: 64 word) j \<longleftrightarrow> j = 7" for j
    using bit_exp_iff [of 7 j, where 'a = "64 word"] by (auto simp: exp_eq_zero_iff)
  moreover have "bit (0x7f :: byte) j \<longleftrightarrow> j < 7" for j
    using bit_mask_iff [of 7 j, where 'a = byte] by (auto simp: mask_eq_exp_minus_1 exp_eq_zero_iff)
  moreover have "j < 7" if "bit t j" "j \<noteq> 7" for j using that bit_imp_le_length [OF that(1)] by simp
  ultimately show "bit ((acc OR push_bit (8 * k) (ucast t)) AND NOT (push_bit (8 * k) 0x80)) n
      \<longleftrightarrow> bit (acc OR push_bit (8 * k) (ucast (t AND 0x7f))) n"
    using \<open>n < LENGTH(64)\<close> bit_below [OF assms, of n]
    by (auto simp: bit_and_iff bit_or_iff bit_not_iff bit_push_bit_iff bit_ucast_iff)
qed

lemma set_vch_snoc:
  fixes t :: byte
  assumes "length bs < 8"
  defines "m \<equiv> le_val bs + 2 ^ (8 * length bs) * (uint t mod 128)"
  shows "set_vch (bs @ [t]) = (if 128 \<le> uint t then - m else m)" "0 \<le> m" "m < 2 ^ 63"
proof -
  let ?k = "length bs" and ?X = "set_vch_loop 0 bs 0"
  have X: "uint ?X = le_val bs" using set_vch_loop_val [of 0 0 bs] assms(1) by simp
  then have X_less: "uint ?X < 2 ^ (8 * ?k)" using le_val_less [of bs] by simp
  have "uint t mod 128 \<le> 127" using pos_mod_bound [of 128 "uint t"] by linarith
  then have "2 ^ (8 * ?k) * (uint t mod 128) \<le> 2 ^ (8 * ?k) * 127" by (intro mult_left_mono) auto
  then have "m < 2 ^ (8 * ?k) * 128" using X_less X unfolding m_def by linarith
  moreover have "(2::int) ^ (8 * ?k) \<le> 2 ^ (8 * 7)" using assms(1) by (intro power_increasing) auto
  ultimately show m: "m < 2 ^ 63" by simp
  show "0 \<le> m" unfolding m_def by simp
  let ?w = "?X OR push_bit (8 * ?k) (ucast (t AND 0x7f))"
  have "uint ?w = m" using or_push_bit [OF X_less assms(1)] X byte_sign(2) [of t] unfolding m_def by simp
  then have "?w = word_of_int m" by (metis word_of_int_uint)
  moreover have "int64_range m"
    using m \<open>0 \<le> m\<close> by (simp add: int64_range_def INT64_MAX_def INT64_MIN_def)
  ultimately have "sint ?w = m" using sint64 by simp
  moreover have "t AND 0x7f = t" if "uint t < 128"
    using that by (simp add: word_uint_eq_iff byte_sign(2))
  ultimately show "set_vch (bs @ [t]) = (if 128 \<le> uint t then - m else m)"
    using clear_sign [OF X_less, of t] by (auto simp: set_vch_def set_vch_loop_append byte_sign(1) not_le)
qed

lemma set_vch_range:
  assumes "length bs < 8"
  shows "int64_range (set_vch (bs @ [t]))"
proof -
  have "int64_range m" "int64_range (- m)" if "0 \<le> m" "m < 2 ^ 63" for m
    using that by (simp_all add: int64_range_def INT64_MAX_def INT64_MIN_def)
  then show ?thesis using set_vch_snoc [OF assms, of t] by metis
qed

lemma abs_bytes_props:
  "le_val (abs_bytes a) = int a" "0 < a \<Longrightarrow> abs_bytes a \<noteq> [] \<and> last (abs_bytes a) \<noteq> 0"
proof (induction a rule: abs_bytes.induct)
  case (1 a)
  { case 1
    have e: "int (a mod 256) + 256 * int (a div 256) = int a"
      by (metis add.commute mult_div_mod_eq of_nat_add of_nat_mult of_nat_numeral)
    show ?case using "1.IH"(1) by (subst abs_bytes.simps) (simp add: uint_nat unat_of_nat, use e in blast) }
  { case 2
    show ?case
    proof (cases "a div 256 = 0")
      case True
      then have "abs_bytes (a div 256) = []" by (subst abs_bytes.simps) simp
      moreover have "unat (word_of_nat (a mod 256) :: byte) = a" using True by (simp add: unat_of_nat)
      ultimately show ?thesis using 2 by (subst abs_bytes.simps, subst abs_bytes.simps) (auto simp: )
    next
      case False
      then show ?thesis using "1.IH"(2) 2 by (subst abs_bytes.simps, subst abs_bytes.simps) simp
    qed }
qed

lemma abs_bytes_unique: "vs = [] \<or> last vs \<noteq> 0 \<Longrightarrow> abs_bytes (nat (le_val vs)) = vs"
proof (induction vs)
  case (Cons v vs)
  have nonneg: "0 \<le> uint v" "uint v < 256" "0 \<le> le_val vs" using uint_lt2p [of v] by simp_all
  then have dm: "(uint v + 256 * le_val vs) mod 256 = uint v" "(uint v + 256 * le_val vs) div 256 = le_val vs"
    by simp_all
  have pos: "nat (uint v + 256 * le_val vs) \<noteq> 0"
  proof (cases vs)
    case Nil
    then have "uint v \<noteq> 0" using Cons.prems by (simp add: uint_0_iff)
    then have "0 < uint v + 256 * le_val vs" using nonneg by linarith
    then show ?thesis by simp
  next
    case (Cons w ws)
    then have "abs_bytes (nat (le_val vs)) \<noteq> []" using Cons.IH Cons.prems by simp
    then have "0 < le_val vs" using nonneg(3) by (cases "le_val vs = 0") (simp_all add: abs_bytes.simps less_le)
    then have "0 < uint v + 256 * le_val vs" using nonneg by linarith
    then show ?thesis by simp
  qed
  have "nat (uint v + 256 * le_val vs) mod 256 = nat (uint v)" "nat (uint v + 256 * le_val vs) div 256 = nat (le_val vs)"
    using nat_mod_distrib [of "uint v + 256 * le_val vs" 256] nat_div_distrib [of "uint v + 256 * le_val vs" 256] dm nonneg
    by simp_all
  moreover have "abs_bytes (nat (le_val vs)) = vs" using Cons by (cases vs) (simp_all add: abs_bytes.simps)
  ultimately show ?case using pos by (subst abs_bytes.simps) simp
qed (simp add: abs_bytes.simps)

lemma byte_eqI: "uint (x :: byte) = uint y \<Longrightarrow> x = y"
  by (simp add: word_uint_eq_iff)

lemma serialize_signed:
  assumes "0 < a" "a < 2 ^ 63"
  defines "r \<equiv> abs_bytes (nat a)"
  shows "scriptnum_serialize (if neg then - a else a) =
    (if 128 \<le> uint (last r) then r @ [if neg then 0x80 else 0] else if neg then butlast r @ [last r OR 0x80] else r)"
  using assms by (simp add: scriptnum_serialize_def Let_def byte_sign(1) not_less)

lemma serialize_set_vch:
  assumes "length bs < 8" and minimal: "uint t mod 128 \<noteq> 0 \<or> bs \<noteq> [] \<and> 128 \<le> uint (last bs)"
  shows "scriptnum_serialize (set_vch (bs @ [t])) = bs @ [t]"
proof -
  define m where "m = le_val bs + 2 ^ (8 * length bs) * (uint t mod 128)"
  note val = set_vch_snoc [OF assms(1), of t, folded m_def]
  show ?thesis
  proof (cases "uint t mod 128 = 0")
    case True
    then have bs: "bs \<noteq> []" "128 \<le> uint (last bs)" "m = le_val bs" using minimal by (simp_all add: m_def)
    then have r: "abs_bytes (nat m) = bs" using abs_bytes_unique [of bs] by fastforce
    then have "m \<noteq> 0" using bs(1) by (auto simp: abs_bytes.simps)
    moreover have "x = 0 \<or> x = 128" if "x mod 128 = 0" "0 \<le> x" "x < 256" for x :: int using that by presburger
    then have "uint t = 0 \<or> uint t = 128" using True uint_lt2p [of t] by simp
    then have "t = (if 128 \<le> uint t then 0x80 else 0)" by (auto intro: byte_eqI)
    ultimately show ?thesis
      using serialize_signed [of m "128 \<le> uint t"] val bs r by simp
  next
    case False
    let ?u = "t AND 0x7f"
    have u: "uint ?u = uint t mod 128" by (rule byte_sign(2))
    then have "?u \<noteq> 0" using False uint_0_iff [of ?u] by simp
    then have r: "abs_bytes (nat m) = bs @ [?u]"
      using abs_bytes_unique [of "bs @ [?u]"] by (simp add: m_def le_val_append u)
    then have "m \<noteq> 0" by (auto simp: abs_bytes.simps)
    moreover have "uint ?u < 128" by (simp add: u)
    moreover have "t = (if 128 \<le> uint t then ?u OR 0x80 else ?u)"
    proof -
      have "x mod 128 = x - (if 128 \<le> x then 128 else 0)" if "0 \<le> x" "x < 256" for x :: int
        using that by (auto, presburger)
      then have "uint t mod 128 = uint t - (if 128 \<le> uint t then 128 else 0)" using uint_lt2p [of t] by simp
      then show ?thesis using byte_sign(3) [OF \<open>uint ?u < 128\<close>] u by (auto intro: byte_eqI)
    qed
    ultimately show ?thesis using serialize_signed [of m "128 \<le> uint t"] val r by auto
  qed
qed

lemma set_vch_serialize:
  assumes "int64_range n" "n \<noteq> 0" "length (scriptnum_serialize n) \<le> 8"
  shows "\<exists>bs t. scriptnum_serialize n = bs @ [t] \<and> set_vch (bs @ [t]) = n \<and>
    (uint t mod 128 \<noteq> 0 \<or> bs \<noteq> [] \<and> 128 \<le> uint (last bs))"
proof -
  define a where "a = \<bar>n\<bar>"
  define r where "r = abs_bytes (nat a)"
  have a: "0 < a" using assms(2) by (simp add: a_def)
  then have r: "le_val r = a" "r \<noteq> []" "last r \<noteq> 0" using abs_bytes_props [of "nat a"] by (simp_all add: r_def)
  have n: "n = (if n < 0 then - a else a)" by (simp add: a_def)
  have a_less: "a < 2 ^ 63"
  proof (rule ccontr)
    assume "\<not> a < 2 ^ 63"
    then have "n = - (2 ^ 63)" using assms(1) a_def by (auto simp: int64_range_def INT64_MAX_def INT64_MIN_def)
    then have "length (scriptnum_serialize n) = 9" by (simp add: scriptnum_serialize_def abs_bytes.simps)
    then show False using assms(3) by simp
  qed
  note ser = serialize_signed [OF a a_less, of "n < 0", folded n r_def]
  show ?thesis
  proof (cases "128 \<le> uint (last r)")
    case True
    then have v: "scriptnum_serialize n = r @ [if n < 0 then 0x80 else 0]" using ser by simp
    then have "length r < 8" using assms(3) by simp
    then show ?thesis using set_vch_snoc(1) [of r "if n < 0 then 0x80 else 0"] v True r(1,2) n by auto
  next
    case False
    define bs l where "bs = butlast r" and "l = last r"
    have rs: "r = bs @ [l]" using r(2) by (simp add: bs_def l_def)
    let ?t = "if n < 0 then l OR 0x80 else l"
    have v: "scriptnum_serialize n = bs @ [?t]" using ser False by (simp add: bs_def l_def r(2))
    then have len: "length bs < 8" using assms(3) by simp
    have l: "uint l < 128" "uint l \<noteq> 0" using False r(3) by (simp_all add: l_def uint_0_iff)
    then have t: "uint ?t mod 128 = uint l" "128 \<le> uint ?t \<longleftrightarrow> n < 0" using byte_sign(3) [of l] by auto
    have "le_val bs + 2 ^ (8 * length bs) * uint l = a" using r(1) by (simp add: rs le_val_append)
    then show ?thesis using set_vch_snoc(1) [OF len, of ?t] v t l(2) n by auto
  qed
qed

text \<open>
  C27. Script numbers of up to eight bytes have exactly one accepted encoding: with minimal encoding required,
  a byte sequence is decoded to a number exactly when it is the serialization of that number and no longer
  than the limit. In particular negative zero and padded encodings are refused, and what the serializer
  writes is read back.
\<close>

theorem scriptnum_minimal_unique:
  assumes "nMaxNumSize \<le> 8"
  shows "mk_CScriptNum vch True nMaxNumSize = Inr n \<longleftrightarrow>
    int64_range n \<and> scriptnum_serialize n = vch \<and> length vch \<le> nMaxNumSize"
proof (cases vch rule: rev_cases)
  case Nil
  have "scriptnum_serialize n = [] \<longleftrightarrow> n = 0" if "int64_range n"
    using set_vch_serialize [OF that] by (auto simp: scriptnum_serialize_def)
  then show ?thesis using Nil by (auto simp: mk_CScriptNum_def set_vch_def scriptnum_serialize_def int64_range_def INT64_MAX_def INT64_MIN_def)
next
  case (snoc bs t)
  have min: "\<not> (last vch AND 0x7f = 0 \<and> (length vch \<le> 1 \<or> vch ! (length vch - 2) AND 0x80 = 0)) \<longleftrightarrow>
      uint t mod 128 \<noteq> 0 \<or> bs \<noteq> [] \<and> 128 \<le> uint (last bs)"
  proof -
    have "last vch AND 0x7f = 0 \<longleftrightarrow> uint t mod 128 = 0"
      using byte_sign(2) [of t] uint_0_iff [of "t AND 0x7f"] by (simp add: snoc)
    then show ?thesis by (cases bs rule: rev_cases) (auto simp: snoc byte_sign(1) nth_append not_less)
  qed
  have dec: "mk_CScriptNum vch True nMaxNumSize = Inr n \<longleftrightarrow>
      length vch \<le> nMaxNumSize \<and> (uint t mod 128 \<noteq> 0 \<or> bs \<noteq> [] \<and> 128 \<le> uint (last bs)) \<and> n = set_vch vch"
    unfolding min [symmetric] by (auto simp: mk_CScriptNum_def snoc)
  show ?thesis
  proof
    assume "mk_CScriptNum vch True nMaxNumSize = Inr n"
    then have d: "length vch \<le> nMaxNumSize" "uint t mod 128 \<noteq> 0 \<or> bs \<noteq> [] \<and> 128 \<le> uint (last bs)" "n = set_vch vch"
      using dec by auto
    then have "length bs < 8" using assms snoc by simp
    then show "int64_range n \<and> scriptnum_serialize n = vch \<and> length vch \<le> nMaxNumSize"
      using serialize_set_vch [of bs t] set_vch_range [of bs t] d snoc by simp
  next
    assume r: "int64_range n \<and> scriptnum_serialize n = vch \<and> length vch \<le> nMaxNumSize"
    then have "n \<noteq> 0" using snoc by (auto simp: scriptnum_serialize_def)
    then show "mk_CScriptNum vch True nMaxNumSize = Inr n"
      using set_vch_serialize [of n] r assms snoc dec by auto
  qed
qed

theorem scriptnum_minimal_unique_witness:
  "mk_CScriptNum [0x00, 0x80] True 4 = Inl ''non-minimally encoded script number'' \<and>
   mk_CScriptNum (scriptnum_serialize (-255)) True 4 = Inr (-255) \<and> scriptnum_serialize (-255) = [0xff, 0x80]"
proof -
  have s: "scriptnum_serialize (-255) = [0xff, 0x80]" by (simp add: scriptnum_serialize_def abs_bytes.simps)
  moreover have "mk_CScriptNum [0xff, 0x80] True 4 = Inr (-255)"
    using scriptnum_minimal_unique [of 4 "[0xff, 0x80]" "-255"] s
    by (simp add: int64_range_def INT64_MAX_def INT64_MIN_def)
  ultimately show ?thesis by (simp add: mk_CScriptNum_def)
qed

section \<open>Counting signature operations\<close>

lemma DecodeOP_N_bound:
  assumes "c \<ge> OP_1" "c \<le> OP_16"
  shows "\<exists>j. DecodeOP_N c = Some (int j) \<and> j \<le> 20"
proof -
  have c: "81 \<le> uint c" "uint c \<le> 96" using assms by (simp_all add: opcode_defs word_le_def)
  moreover have "c \<noteq> OP_0" using assms(1) by (auto simp: opcode_defs)
  then have "DecodeOP_N c = Some (uint c - 80)" using assms by (simp add: DecodeOP_N_def) (simp add: opcode_defs)
  ultimately show ?thesis by (intro exI [of _ "nat (uint c - 80)"]) simp
qed

lemma sigop_step_bound:
  fixes n :: "32 word"
  shows "\<exists>j. (if a then Some (n + 1)
      else if b then
        (if fAccurate \<and> lastOpcode \<ge> OP_1 \<and> lastOpcode \<le> OP_16
         then map_option (\<lambda>k. n + word_of_int k) (DecodeOP_N lastOpcode)
         else Some (n + word_of_int MAX_PUBKEYS_PER_MULTISIG))
      else Some n) = Some (n + of_nat j) \<and> j \<le> 20"
proof (cases "\<not> a \<and> b")
  case True
  show ?thesis
  proof (cases "fAccurate \<and> lastOpcode \<ge> OP_1 \<and> lastOpcode \<le> OP_16")
    case acc: True
    then obtain j where "DecodeOP_N lastOpcode = Some (int j)" "j \<le> 20" using DecodeOP_N_bound by blast
    then show ?thesis using True acc by (intro exI [of _ j]) simp
  next
    case False
    then show ?thesis using True by (intro exI [of _ 20]) (auto simp: MAX_PUBKEYS_PER_MULTISIG_def)
  qed
next
  case False
  then show ?thesis by (intro exI [of _ "if a then 1 else 0"]) auto
qed

lemma sigop_loop_bound:
  "\<exists>k. sigop_loop fAccurate pc lastOpcode n = Some (n + of_nat k) \<and> k \<le> 20 * length pc"
proof (induction fAccurate pc lastOpcode n rule: sigop_loop.induct)
  case (1 fAccurate pc lastOpcode n)
  show ?case
  proof (cases "pc = [] \<or> GetScriptOp pc = None")
    case True
    then show ?thesis by (intro exI [of _ 0]) (auto simp: sigop_loop.simps [of fAccurate pc])
  next
    case False
    then obtain opcode vch rest where op: "GetScriptOp pc = Some (opcode, vch, rest)" and ne: "pc \<noteq> []" by auto
    obtain j where j: "(if opcode = OP_CHECKSIG \<or> opcode = OP_CHECKSIGVERIFY then Some (n + 1)
        else if opcode = OP_CHECKMULTISIG \<or> opcode = OP_CHECKMULTISIGVERIFY then
          (if fAccurate \<and> lastOpcode \<ge> OP_1 \<and> lastOpcode \<le> OP_16
           then map_option (\<lambda>k. n + word_of_int k) (DecodeOP_N lastOpcode)
           else Some (n + word_of_int MAX_PUBKEYS_PER_MULTISIG))
        else Some n) = Some (n + of_nat j)" "j \<le> 20"
      using sigop_step_bound by blast
    obtain k where k: "sigop_loop fAccurate rest opcode (n + of_nat j) = Some (n + of_nat j + of_nat k)" "k \<le> 20 * length rest"
      using "1.IH" [OF ne op refl refl j(1)] by blast
    have "sigop_loop fAccurate pc lastOpcode n = Some (n + of_nat (j + k))"
      using k(1) j(1) ne by (subst sigop_loop.simps) (simp add: op add.assoc)
    moreover have "j + k \<le> 20 * length pc" using j(2) k(2) GetScriptOp_shorter [OF op] by simp
    ultimately show ?thesis by blast
  qed
qed

lemma GetSigOpCount_bound: "\<exists>k. GetSigOpCount fAccurate script = Some (of_nat k) \<and> k \<le> 20 * length script"
  using sigop_loop_bound [of fAccurate script OP_INVALIDOPCODE 0] by (simp add: GetSigOpCount_def)

lemma GetSigOpCount_total: "GetSigOpCount fAccurate script \<noteq> None"
  using GetSigOpCount_bound [of fAccurate script] by auto

lemma last_push_IsPushOnly: "last_push pc vData \<noteq> None \<longleftrightarrow> IsPushOnly pc"
proof (induction pc vData rule: last_push.induct)
  case (1 pc vData)
  then show ?case
    by (subst last_push.simps, subst IsPushOnly.simps) (auto split: option.splits)
qed

lemma GetSigOpCount_p2sh_total: "GetSigOpCount_p2sh script scriptSig \<noteq> None"
  using GetSigOpCount_total by (auto simp: GetSigOpCount_p2sh_def split: option.split)

lemma IsWitnessProgram_total: "IsWitnessProgram s \<noteq> None"
  by (auto simp: IsWitnessProgram_def DecodeOP_N_def not_less)

lemma WitnessSigOps_total: "WitnessSigOps v p w \<noteq> None"
  using GetSigOpCount_total [of True "last w"] by (auto simp: WitnessSigOps_def)

lemma CountWitnessSigOps_total:
  assumes "verify_p2sh"
  shows "CountWitnessSigOps scriptSig script witness verify_p2sh verify_witness \<noteq> None"
proof -
  obtain p where p: "IsWitnessProgram script = Some p" using IsWitnessProgram_total by blast
  show ?thesis
  proof (cases "IsPayToScriptHash script \<and> IsPushOnly scriptSig")
    case True
    then obtain s where "last_push scriptSig [] = Some s" using last_push_IsPushOnly [of scriptSig "[]"] by blast
    moreover obtain q where "IsWitnessProgram s = Some q" using IsWitnessProgram_total by blast
    ultimately show ?thesis
      using True p assms WitnessSigOps_total by (cases p; cases q) (auto simp: CountWitnessSigOps_def)
  next
    case False
    then show ?thesis using p assms WitnessSigOps_total by (cases p) (auto simp: CountWitnessSigOps_def)
  qed
qed

end
