(* ===== verification/Coins.thy ===== *)
theory Coins
  imports Transaction Script "HOL-Library.AList"
begin

text \<open>
  The unspent transaction outputs (\<open>coins.h\<close>, \<open>coins.cpp\<close>). A \<open>CCoinsView\<close> is the table of its virtual
  functions, over a state that the \<open>const\<close> lookups may also change, since they fill caches. The result
  \<open>None\<close> of an operation is a failed assertion or the exception it throws; a lookup that finds nothing is
  the inner \<open>None\<close>.

  \<open>CCoinsViewCache\<close> keeps its hash map as an association list (no operation depends on its order) and the
  linked list through the flagged entries as the list of their keys in list order. The byte count
  \<open>cachedCoinsUsage\<close> is not part of the state: it is a memory statistic.
\<close>

section \<open>Coins and cache entries\<close>

record Coin =
  coin_out :: CTxOut
  fCoinBase :: bool
  coin_nHeight :: "31 word"

definition mk_Coin :: "CTxOut \<Rightarrow> int \<Rightarrow> bool \<Rightarrow> Coin" where
  "mk_Coin outIn nHeightIn fCoinBaseIn =
     \<lparr>coin_out = outIn, fCoinBase = fCoinBaseIn, coin_nHeight = word_of_int nHeightIn\<rparr>"

definition coinEmpty :: Coin where
  "coinEmpty = \<lparr>coin_out = \<lparr>nValue = -1, scriptPubKey = []\<rparr>, fCoinBase = False, coin_nHeight = 0\<rparr>"

definition Coin_Clear :: "Coin \<Rightarrow> Coin" where
  "Coin_Clear x = x\<lparr>coin_out := \<lparr>nValue = -1, scriptPubKey = []\<rparr>, fCoinBase := False, coin_nHeight := 0\<rparr>"

definition IsSpent :: "Coin \<Rightarrow> bool" where
  "IsSpent x \<longleftrightarrow> nValue (coin_out x) = -1"

record CCoinsCacheEntry =
  entry_coin :: Coin
  IsDirty :: bool
  IsFresh :: bool

definition new_cache_entry :: CCoinsCacheEntry where
  "new_cache_entry = \<lparr>entry_coin = coinEmpty, IsDirty = False, IsFresh = False\<rparr>"

type_synonym coins_cursor = "(COutPoint \<times> CCoinsCacheEntry) list"

section \<open>Views\<close>

record 'b CCoinsView =
  view_GetCoin :: "'b \<Rightarrow> COutPoint \<Rightarrow> (Coin option \<times> 'b) option"
  view_PeekCoin :: "'b \<Rightarrow> COutPoint \<Rightarrow> Coin option option"
  view_HaveCoin :: "'b \<Rightarrow> COutPoint \<Rightarrow> (bool \<times> 'b) option"
  view_GetBestBlock :: "'b \<Rightarrow> uint256 \<times> 'b"
  view_BatchWrite :: "'b \<Rightarrow> coins_cursor \<Rightarrow> uint256 \<Rightarrow> 'b option"

definition CoinsViewEmpty :: "unit CCoinsView" where
  "CoinsViewEmpty = \<lparr>
     view_GetCoin = (\<lambda>b outpoint. Some (None, b)),
     view_PeekCoin = (\<lambda>b outpoint. Some None),
     view_HaveCoin = (\<lambda>b outpoint. Some (False, b)),
     view_GetBestBlock = (\<lambda>b. (replicate 32 0, b)),
     view_BatchWrite = (\<lambda>b cursor block_hash. Some b)\<rparr>"

record 'b CCoinsViewCache =
  is_overlay :: bool
  cache_base :: 'b
  m_block_hash :: uint256
  cacheCoins :: "(COutPoint \<times> CCoinsCacheEntry) list"
  m_flagged :: "COutPoint list"
  m_dirty_count :: nat

definition find_coin :: "'b CCoinsViewCache \<Rightarrow> COutPoint \<Rightarrow> CCoinsCacheEntry option" where
  "find_coin c outpoint = map_of (cacheCoins c) outpoint"

definition put_entry :: "COutPoint \<Rightarrow> CCoinsCacheEntry \<Rightarrow> 'b CCoinsViewCache \<Rightarrow> 'b CCoinsViewCache" where
  "put_entry outpoint e c = c\<lparr>cacheCoins := AList.update outpoint e (cacheCoins c)\<rparr>"

definition erase_entry :: "COutPoint \<Rightarrow> 'b CCoinsViewCache \<Rightarrow> 'b CCoinsViewCache" where
  "erase_entry outpoint c = c\<lparr>cacheCoins := AList.delete outpoint (cacheCoins c),
     m_flagged := remove1 outpoint (m_flagged c)\<rparr>"

definition AddFlags :: "(CCoinsCacheEntry \<Rightarrow> CCoinsCacheEntry) \<Rightarrow> COutPoint \<Rightarrow> 'b CCoinsViewCache \<Rightarrow> 'b CCoinsViewCache" where
  "AddFlags flag outpoint c = (case find_coin c outpoint of
     None \<Rightarrow> c
   | Some e \<Rightarrow> (put_entry outpoint (flag e) c)\<lparr>m_flagged :=
       (if IsDirty e \<or> IsFresh e then m_flagged c else m_flagged c @ [outpoint])\<rparr>)"

definition SetDirty :: "COutPoint \<Rightarrow> 'b CCoinsViewCache \<Rightarrow> 'b CCoinsViewCache" where
  "SetDirty outpoint c = AddFlags (\<lambda>e. e\<lparr>IsDirty := True\<rparr>) outpoint c"

definition SetFresh :: "COutPoint \<Rightarrow> 'b CCoinsViewCache \<Rightarrow> 'b CCoinsViewCache" where
  "SetFresh outpoint c = AddFlags (\<lambda>e. e\<lparr>IsFresh := True\<rparr>) outpoint c"

definition SetClean :: "COutPoint \<Rightarrow> 'b CCoinsViewCache \<Rightarrow> 'b CCoinsViewCache" where
  "SetClean outpoint c = (case find_coin c outpoint of
     None \<Rightarrow> c
   | Some e \<Rightarrow> if \<not> IsDirty e \<and> \<not> IsFresh e then c
       else (put_entry outpoint (e\<lparr>IsDirty := False, IsFresh := False\<rparr>) c)\<lparr>m_flagged := remove1 outpoint (m_flagged c)\<rparr>)"

definition add_dirty_count :: "'b CCoinsViewCache \<Rightarrow> 'b CCoinsViewCache" where
  "add_dirty_count c = c\<lparr>m_dirty_count := m_dirty_count c + 1\<rparr>"

text \<open>\<open>TrySub\<close> leaves the counter unchanged when it would go below zero.\<close>

definition sub_dirty_count :: "bool \<Rightarrow> 'b CCoinsViewCache \<Rightarrow> 'b CCoinsViewCache" where
  "sub_dirty_count dirty c = c\<lparr>m_dirty_count := m_dirty_count c - of_bool dirty\<rparr>"

section \<open>The cache\<close>

definition new_cache :: "bool \<Rightarrow> 'b \<Rightarrow> 'b CCoinsViewCache" where
  "new_cache overlay in_base = \<lparr>is_overlay = overlay, cache_base = in_base, m_block_hash = replicate 32 0,
     cacheCoins = [], m_flagged = [], m_dirty_count = 0\<rparr>"

definition PeekCoin :: "'b CCoinsView \<Rightarrow> 'b CCoinsViewCache \<Rightarrow> COutPoint \<Rightarrow> Coin option option" where
  "PeekCoin base c outpoint = (case find_coin c outpoint of
     Some it \<Rightarrow> Some (if IsSpent (entry_coin it) then None else Some (entry_coin it))
   | None \<Rightarrow> view_PeekCoin base (cache_base c) outpoint)"

definition FetchCoinFromBase :: "'b CCoinsView \<Rightarrow> 'b CCoinsViewCache \<Rightarrow> COutPoint \<Rightarrow> (Coin option \<times> 'b CCoinsViewCache) option" where
  "FetchCoinFromBase base c outpoint =
     (if is_overlay c then do {
        r \<leftarrow> view_PeekCoin base (cache_base c) outpoint;
        Some (r, c)
      } else do {
        (r, b) \<leftarrow> view_GetCoin base (cache_base c) outpoint;
        Some (r, c\<lparr>cache_base := b\<rparr>)
      })"

definition FetchCoin :: "'b CCoinsView \<Rightarrow> 'b CCoinsViewCache \<Rightarrow> COutPoint
    \<Rightarrow> (CCoinsCacheEntry option \<times> 'b CCoinsViewCache) option" where
  "FetchCoin base c outpoint = (case find_coin c outpoint of
     Some it \<Rightarrow> Some (Some it, c)
   | None \<Rightarrow> do {
       (r, c) \<leftarrow> FetchCoinFromBase base c outpoint;
       case r of
         None \<Rightarrow> Some (None, c)
       | Some x \<Rightarrow>
           (let e = new_cache_entry\<lparr>entry_coin := x\<rparr> in
            if IsSpent x then None else Some (Some e, put_entry outpoint e c))
     })"

definition GetCoin :: "'b CCoinsView \<Rightarrow> 'b CCoinsViewCache \<Rightarrow> COutPoint \<Rightarrow> (Coin option \<times> 'b CCoinsViewCache) option" where
  "GetCoin base c outpoint = do {
     (it, c) \<leftarrow> FetchCoin base c outpoint;
     Some (case it of
         Some e \<Rightarrow> if \<not> IsSpent (entry_coin e) then Some (entry_coin e) else None
       | None \<Rightarrow> None, c)
   }"

definition AddCoin :: "COutPoint \<Rightarrow> Coin \<Rightarrow> bool \<Rightarrow> 'b CCoinsViewCache \<Rightarrow> 'b CCoinsViewCache option" where
  "AddCoin outpoint x possible_overwrite c =
     (if IsSpent x then None
      else if IsUnspendable (scriptPubKey (coin_out x)) then Some c
      else
        let (it, inserted) = (case find_coin c outpoint of Some e \<Rightarrow> (e, False) | None \<Rightarrow> (new_cache_entry, True)) in
        if \<not> possible_overwrite \<and> \<not> IsSpent (entry_coin it) then None
        else
          let fresh = (\<not> possible_overwrite \<and> \<not> IsDirty it);
              c = (if \<not> inserted then sub_dirty_count (IsDirty it) c else c);
              c = put_entry outpoint (it\<lparr>entry_coin := x\<rparr>) c;
              c = add_dirty_count (SetDirty outpoint c)
          in Some (if fresh then SetFresh outpoint c else c))"

definition EmplaceCoinInternalDANGER :: "COutPoint \<Rightarrow> Coin \<Rightarrow> 'b CCoinsViewCache \<Rightarrow> 'b CCoinsViewCache" where
  "EmplaceCoinInternalDANGER outpoint x c = (case find_coin c outpoint of
     Some e \<Rightarrow> c
   | None \<Rightarrow> add_dirty_count (SetDirty outpoint (put_entry outpoint (new_cache_entry\<lparr>entry_coin := x\<rparr>) c)))"

definition SpendCoin :: "'b CCoinsView \<Rightarrow> 'b CCoinsViewCache \<Rightarrow> COutPoint \<Rightarrow> (Coin option \<times> 'b CCoinsViewCache) option" where
  "SpendCoin base c outpoint = do {
     (it, c) \<leftarrow> FetchCoin base c outpoint;
     case it of
       None \<Rightarrow> Some (None, c)
     | Some e \<Rightarrow>
         let c = sub_dirty_count (IsDirty e) c;
             moveout = entry_coin e
         in if IsFresh e then Some (Some moveout, erase_entry outpoint c)
            else let c = add_dirty_count (SetDirty outpoint c) in
              Some (Some moveout, put_entry outpoint (e\<lparr>IsDirty := True, entry_coin := Coin_Clear moveout\<rparr>) c)
   }"

definition AccessCoin :: "'b CCoinsView \<Rightarrow> 'b CCoinsViewCache \<Rightarrow> COutPoint \<Rightarrow> (Coin \<times> 'b CCoinsViewCache) option" where
  "AccessCoin base c outpoint = do {
     (it, c) \<leftarrow> FetchCoin base c outpoint;
     Some (case it of None \<Rightarrow> coinEmpty | Some e \<Rightarrow> entry_coin e, c)
   }"

definition HaveCoin :: "'b CCoinsView \<Rightarrow> 'b CCoinsViewCache \<Rightarrow> COutPoint \<Rightarrow> (bool \<times> 'b CCoinsViewCache) option" where
  "HaveCoin base c outpoint = do {
     (it, c) \<leftarrow> FetchCoin base c outpoint;
     Some (case it of None \<Rightarrow> False | Some e \<Rightarrow> \<not> IsSpent (entry_coin e), c)
   }"

definition HaveCoinInCache :: "'b CCoinsViewCache \<Rightarrow> COutPoint \<Rightarrow> bool" where
  "HaveCoinInCache c outpoint = (case find_coin c outpoint of None \<Rightarrow> False | Some e \<Rightarrow> \<not> IsSpent (entry_coin e))"

definition GetBestBlock :: "'b CCoinsView \<Rightarrow> 'b CCoinsViewCache \<Rightarrow> uint256 \<times> 'b CCoinsViewCache" where
  "GetBestBlock base c =
     (if IsNull (m_block_hash c) then
        let (h, b) = view_GetBestBlock base (cache_base c) in (h, c\<lparr>cache_base := b, m_block_hash := h\<rparr>)
      else (m_block_hash c, c))"

definition SetBestBlock :: "uint256 \<Rightarrow> 'b CCoinsViewCache \<Rightarrow> 'b CCoinsViewCache" where
  "SetBestBlock in_block_hash c = c\<lparr>m_block_hash := in_block_hash\<rparr>"

definition batch_write_entry :: "COutPoint \<Rightarrow> CCoinsCacheEntry \<Rightarrow> 'b CCoinsViewCache \<Rightarrow> 'b CCoinsViewCache option" where
  "batch_write_entry outpoint it c =
     (if \<not> IsDirty it then Some c
      else case find_coin c outpoint of
        None \<Rightarrow>
          if IsFresh it \<and> IsSpent (entry_coin it) then Some c
          else
            let c = put_entry outpoint (new_cache_entry\<lparr>entry_coin := entry_coin it\<rparr>) c;
                c = add_dirty_count (SetDirty outpoint c)
            in Some (if IsFresh it then SetFresh outpoint c else c)
      | Some itUs \<Rightarrow>
          if IsFresh it \<and> \<not> IsSpent (entry_coin itUs) then None
          else if IsFresh itUs \<and> IsSpent (entry_coin it) then
            Some (erase_entry outpoint (sub_dirty_count (IsDirty itUs) c))
          else
            let c = put_entry outpoint (itUs\<lparr>entry_coin := entry_coin it\<rparr>) c
            in Some (if \<not> IsDirty itUs then add_dirty_count (SetDirty outpoint c) else c))"

fun batch_write_loop :: "coins_cursor \<Rightarrow> 'b CCoinsViewCache \<Rightarrow> 'b CCoinsViewCache option" where
  "batch_write_loop [] c = Some c"
| "batch_write_loop ((outpoint, it) # rest) c = do {
     c \<leftarrow> batch_write_entry outpoint it c;
     batch_write_loop rest c
   }"

definition BatchWrite :: "'b CCoinsViewCache \<Rightarrow> coins_cursor \<Rightarrow> uint256 \<Rightarrow> 'b CCoinsViewCache option" where
  "BatchWrite c cursor in_block_hash = do {
     c \<leftarrow> batch_write_loop cursor c;
     Some (SetBestBlock in_block_hash c)
   }"

text \<open>The entries a cursor walks over, and what each step of the cursor does to the cache it came from.\<close>

definition cursor_entries :: "'b CCoinsViewCache \<Rightarrow> coins_cursor" where
  "cursor_entries c = List.map_filter (\<lambda>k. map_option (Pair k) (find_coin c k)) (m_flagged c)"

definition NextAndMaybeErase :: "bool \<Rightarrow> COutPoint \<times> CCoinsCacheEntry \<Rightarrow> 'b CCoinsViewCache \<Rightarrow> 'b CCoinsViewCache" where
  "NextAndMaybeErase will_erase current c =
     (let c = sub_dirty_count (IsDirty (snd current)) c in
      if \<not> will_erase then
        (if IsSpent (entry_coin (snd current)) then erase_entry (fst current) c else SetClean (fst current) c)
      else c)"

definition Flush :: "'b CCoinsView \<Rightarrow> 'b CCoinsViewCache \<Rightarrow> 'b CCoinsViewCache option" where
  "Flush base c = do {
     b \<leftarrow> view_BatchWrite base (cache_base c) (cursor_entries c) (m_block_hash c);
     let c' = fold (NextAndMaybeErase True) (cursor_entries c) (c\<lparr>cache_base := b\<rparr>);
     Some (c'\<lparr>cacheCoins := [], m_flagged := []\<rparr>)
   }"

definition Sync :: "'b CCoinsView \<Rightarrow> 'b CCoinsViewCache \<Rightarrow> 'b CCoinsViewCache option" where
  "Sync base c = do {
     b \<leftarrow> view_BatchWrite base (cache_base c) (cursor_entries c) (m_block_hash c);
     let c' = fold (NextAndMaybeErase False) (cursor_entries c) (c\<lparr>cache_base := b\<rparr>);
     if m_flagged c' \<noteq> [] then None else Some c'
   }"

definition Reset :: "'b CCoinsViewCache \<Rightarrow> 'b CCoinsViewCache" where
  "Reset c = SetBestBlock (replicate 32 0) (c\<lparr>cacheCoins := [], m_flagged := [], m_dirty_count := 0\<rparr>)"

definition Uncache :: "COutPoint \<Rightarrow> 'b CCoinsViewCache \<Rightarrow> 'b CCoinsViewCache" where
  "Uncache outpoint c = (case find_coin c outpoint of
     None \<Rightarrow> c | Some e \<Rightarrow> if \<not> IsDirty e then erase_entry outpoint c else c)"

definition GetCacheSize :: "'b CCoinsViewCache \<Rightarrow> nat" where
  "GetCacheSize c = length (cacheCoins c)"

fun have_inputs_loop :: "'b CCoinsView \<Rightarrow> CTxIn list \<Rightarrow> 'b CCoinsViewCache \<Rightarrow> (bool \<times> 'b CCoinsViewCache) option" where
  "have_inputs_loop base [] c = Some (True, c)"
| "have_inputs_loop base (i # ins) c = do {
     (b, c) \<leftarrow> HaveCoin base c (prevout i);
     if \<not> b then Some (False, c) else have_inputs_loop base ins c
   }"

definition HaveInputs :: "'b CCoinsView \<Rightarrow> 'b CCoinsViewCache \<Rightarrow> CTransaction \<Rightarrow> (bool \<times> 'b CCoinsViewCache) option" where
  "HaveInputs base c tx = (if \<not> IsCoinBase tx then have_inputs_loop base (vin tx) c else Some (True, c))"

definition SanityCheck :: "'b CCoinsViewCache \<Rightarrow> bool" where
  "SanityCheck c \<longleftrightarrow>
     list_all (\<lambda>(_, e). if IsSpent (entry_coin e) then IsDirty e \<and> \<not> IsFresh e else IsDirty e \<or> \<not> IsFresh e) (cacheCoins c) \<and>
     list_all (\<lambda>k. case find_coin c k of None \<Rightarrow> False | Some e \<Rightarrow> IsDirty e) (m_flagged c) \<and>
     length (filter (IsDirty \<circ> snd) (cacheCoins c)) = length (m_flagged c) \<and>
     length (filter (IsDirty \<circ> snd) (cacheCoins c)) = m_dirty_count c"

text \<open>\<open>tx.GetHash()\<close> is the double SHA-256 of the serialization; the hash function is a parameter.\<close>

fun add_coins_loop :: "'b CCoinsView \<Rightarrow> uint256 \<Rightarrow> bool \<Rightarrow> int \<Rightarrow> bool \<Rightarrow> nat \<Rightarrow> CTxOut list
    \<Rightarrow> 'b CCoinsViewCache \<Rightarrow> 'b CCoinsViewCache option" where
  "add_coins_loop base txid fCoinbase nHeight check_for_overwrite i [] c = Some c"
| "add_coins_loop base txid fCoinbase nHeight check_for_overwrite i (txout # outs) c = do {
     let outpoint = \<lparr>op_hash = txid, op_n = of_nat i\<rparr>;
     (overwrite, c) \<leftarrow> (if check_for_overwrite then HaveCoin base c outpoint else Some (fCoinbase, c));
     c \<leftarrow> AddCoin outpoint (mk_Coin txout nHeight fCoinbase) overwrite c;
     add_coins_loop base txid fCoinbase nHeight check_for_overwrite (i + 1) outs c
   }"

definition AddCoins :: "(stream \<Rightarrow> uint256) \<Rightarrow> 'b CCoinsView \<Rightarrow> CTransaction \<Rightarrow> int \<Rightarrow> bool
    \<Rightarrow> 'b CCoinsViewCache \<Rightarrow> 'b CCoinsViewCache option" where
  "AddCoins Hash base tx nHeight check_for_overwrite c =
     add_coins_loop base (Hash (SerializeTransaction False tx)) (IsCoinBase tx) nHeight check_for_overwrite 0 (vout tx) c"

definition MAX_OUTPUTS_PER_BLOCK :: nat where
  "MAX_OUTPUTS_PER_BLOCK = 4000000 div (4 * length (ser_txout (coin_out coinEmpty)))"

fun access_by_txid_loop :: "'b CCoinsView \<Rightarrow> uint256 \<Rightarrow> nat \<Rightarrow> nat \<Rightarrow> 'b CCoinsViewCache \<Rightarrow> (Coin \<times> 'b CCoinsViewCache) option" where
  "access_by_txid_loop base txid n 0 c = Some (coinEmpty, c)"
| "access_by_txid_loop base txid n (Suc left) c = do {
     (alternate, c) \<leftarrow> AccessCoin base c \<lparr>op_hash = txid, op_n = of_nat n\<rparr>;
     if \<not> IsSpent alternate then Some (alternate, c) else access_by_txid_loop base txid (n + 1) left c
   }"

definition AccessByTxid :: "'b CCoinsView \<Rightarrow> 'b CCoinsViewCache \<Rightarrow> uint256 \<Rightarrow> (Coin \<times> 'b CCoinsViewCache) option" where
  "AccessByTxid base view txid = access_by_txid_loop base txid 0 MAX_OUTPUTS_PER_BLOCK view"

text \<open>A \<open>CCoinsViewCache\<close> is itself a view.\<close>

definition cache_view :: "'b CCoinsView \<Rightarrow> 'b CCoinsViewCache CCoinsView" where
  "cache_view base = \<lparr>view_GetCoin = GetCoin base, view_PeekCoin = PeekCoin base, view_HaveCoin = HaveCoin base,
     view_GetBestBlock = GetBestBlock base, view_BatchWrite = BatchWrite\<rparr>"

section \<open>What a cache means\<close>

text \<open>
  A view means a map from outpoints to unspent coins. An entry of a cache overrides the base; an entry
  that is not dirty agrees with the base, and one that is fresh hides nothing in the base.
\<close>

type_synonym utxo = "COutPoint \<Rightarrow> Coin option"

definition unspent :: "Coin \<Rightarrow> Coin option" where
  "unspent x = (if IsSpent x then None else Some x)"

definition cache_abs :: "('b \<Rightarrow> utxo) \<Rightarrow> 'b CCoinsViewCache \<Rightarrow> utxo" where
  "cache_abs babs c k = (case find_coin c k of Some e \<Rightarrow> unspent (entry_coin e) | None \<Rightarrow> babs (cache_base c) k)"

definition entry_ok :: "Coin option \<Rightarrow> CCoinsCacheEntry \<Rightarrow> bool" where
  "entry_ok below e \<longleftrightarrow>
     (IsDirty e \<or> \<not> IsFresh e \<and> \<not> IsSpent (entry_coin e) \<and> below = Some (entry_coin e)) \<and>
     (IsFresh e \<longrightarrow> below = None \<and> \<not> IsSpent (entry_coin e))"

definition dirty_at :: "'b CCoinsViewCache \<Rightarrow> COutPoint \<Rightarrow> bool" where
  "dirty_at c k \<longleftrightarrow> (case find_coin c k of Some e \<Rightarrow> IsDirty e | None \<Rightarrow> False)"

definition cache_inv :: "('b \<Rightarrow> bool) \<Rightarrow> ('b \<Rightarrow> utxo) \<Rightarrow> 'b CCoinsViewCache \<Rightarrow> bool" where
  "cache_inv binv babs c \<longleftrightarrow> binv (cache_base c) \<and> distinct (map fst (cacheCoins c)) \<and>
     (\<forall>k e. find_coin c k = Some e \<longrightarrow> entry_ok (babs (cache_base c) k) e) \<and>
     distinct (m_flagged c) \<and> set (m_flagged c) = Collect (dirty_at c) \<and> m_dirty_count c = length (m_flagged c)"

definition apply_entry :: "COutPoint \<times> CCoinsCacheEntry \<Rightarrow> utxo \<Rightarrow> utxo" where
  "apply_entry ke m = (if IsDirty (snd ke) then m(fst ke := unspent (entry_coin (snd ke))) else m)"

definition apply_batch :: "coins_cursor \<Rightarrow> utxo \<Rightarrow> utxo" where
  "apply_batch es m = fold apply_entry es m"

definition batch_ok :: "utxo \<Rightarrow> coins_cursor \<Rightarrow> bool" where
  "batch_ok m es \<longleftrightarrow> distinct (map fst es) \<and>
     (\<forall>k e. (k, e) \<in> set es \<longrightarrow> IsDirty e \<and> (IsFresh e \<longrightarrow> m k = None \<and> \<not> IsSpent (entry_coin e)))"

subsection \<open>The primitives\<close>

lemma find_put [simp]: "find_coin (put_entry k e c) = (find_coin c)(k \<mapsto> e)"
  by (simp add: find_coin_def put_entry_def update_conv' fun_eq_iff)

lemma find_erase [simp]: "find_coin (erase_entry k c) = (find_coin c)(k := None)"
  by (simp add: find_coin_def erase_entry_def delete_conv' fun_eq_iff)

lemma find_counts [simp]:
  "find_coin (add_dirty_count c) = find_coin c" "find_coin (sub_dirty_count d c) = find_coin c"
  "find_coin (c\<lparr>cache_base := b\<rparr>) = find_coin c" "find_coin (c\<lparr>m_block_hash := h\<rparr>) = find_coin c"
  "find_coin (c\<lparr>m_flagged := fl\<rparr>) = find_coin c"
  by (simp_all add: find_coin_def add_dirty_count_def sub_dirty_count_def fun_eq_iff)

lemma find_AddFlags:
  "find_coin (AddFlags f k c) = (case find_coin c k of None \<Rightarrow> find_coin c | Some e \<Rightarrow> (find_coin c)(k \<mapsto> f e))"
  by (simp add: AddFlags_def split: option.splits)

lemma distinct_cacheCoins [simp]:
  assumes "distinct (map fst (cacheCoins c))"
  shows "distinct (map fst (cacheCoins (put_entry k e c)))" "distinct (map fst (cacheCoins (erase_entry k c)))"
    "distinct (map fst (cacheCoins (AddFlags f k c)))"
    "distinct (map fst (cacheCoins (add_dirty_count c)))" "distinct (map fst (cacheCoins (sub_dirty_count d c)))"
  using assms
  by (simp_all add: put_entry_def erase_entry_def AddFlags_def add_dirty_count_def sub_dirty_count_def
      distinct_update distinct_delete split: option.split)

lemma primitive_fields [simp]:
  "cache_base (put_entry k e c) = cache_base c" "cache_base (erase_entry k c) = cache_base c"
  "cache_base (AddFlags f k c) = cache_base c"
  "cache_base (add_dirty_count c) = cache_base c" "cache_base (sub_dirty_count d c) = cache_base c"
  "m_flagged (put_entry k e c) = m_flagged c" "m_flagged (erase_entry k c) = remove1 k (m_flagged c)"
  "m_flagged (add_dirty_count c) = m_flagged c" "m_flagged (sub_dirty_count d c) = m_flagged c"
  "m_dirty_count (put_entry k e c) = m_dirty_count c" "m_dirty_count (erase_entry k c) = m_dirty_count c"
  "m_dirty_count (AddFlags f k c) = m_dirty_count c"
  "m_dirty_count (add_dirty_count c) = m_dirty_count c + 1"
  "m_dirty_count (sub_dirty_count d c) = m_dirty_count c - of_bool d"
  "m_block_hash (put_entry k e c) = m_block_hash c" "m_block_hash (erase_entry k c) = m_block_hash c"
  "m_block_hash (AddFlags f k c) = m_block_hash c"
  "m_block_hash (add_dirty_count c) = m_block_hash c" "m_block_hash (sub_dirty_count d c) = m_block_hash c"
  by (simp_all add: put_entry_def erase_entry_def AddFlags_def add_dirty_count_def sub_dirty_count_def split: option.split)

lemma flagged_AddFlags:
  "m_flagged (AddFlags f k c) = (case find_coin c k of None \<Rightarrow> m_flagged c
    | Some e \<Rightarrow> if IsDirty e \<or> IsFresh e then m_flagged c else m_flagged c @ [k])"
  by (simp add: AddFlags_def split: option.split)

lemmas flag_defs = SetDirty_def SetFresh_def find_AddFlags flagged_AddFlags

text \<open>Every operation ends in one of two shapes: the entry of one outpoint becomes dirty, or it is erased.\<close>

lemma inv_put_dirty:
  assumes "cache_inv binv babs c" "find_coin c' = (find_coin c)(k \<mapsto> e)" "IsDirty e"
    "entry_ok (babs (cache_base c) k) e" "distinct (map fst (cacheCoins c'))" "cache_base c' = cache_base c"
    "m_flagged c' = (if dirty_at c k then m_flagged c else m_flagged c @ [k])"
    "m_dirty_count c' = (if dirty_at c k then m_dirty_count c else m_dirty_count c + 1)"
  shows "cache_inv binv babs c'" "cache_abs babs c' = (cache_abs babs c)(k := unspent (entry_coin e))"
proof -
  have "Collect (dirty_at c') = insert k (Collect (dirty_at c))"
    using assms(2,3) by (auto simp: dirty_at_def)
  then show "cache_inv binv babs c'"
    using assms by (auto simp: cache_inv_def)
  show "cache_abs babs c' = (cache_abs babs c)(k := unspent (entry_coin e))"
    using assms(2,6) by (auto simp: cache_abs_def fun_eq_iff split: option.split)
qed

lemma inv_erase_entry:
  assumes "cache_inv binv babs c" "find_coin c' = (find_coin c)(k := None)"
    "distinct (map fst (cacheCoins c'))" "cache_base c' = cache_base c" "m_flagged c' = remove1 k (m_flagged c)"
    "m_dirty_count c' = m_dirty_count c - of_bool (dirty_at c k)"
  shows "cache_inv binv babs c'" "cache_abs babs c' = (cache_abs babs c)(k := babs (cache_base c) k)"
proof -
  have "Collect (dirty_at c') = Collect (dirty_at c) - {k}"
    using assms(2) by (auto simp: dirty_at_def split: if_splits)
  moreover have "length (remove1 k (m_flagged c)) = length (m_flagged c) - of_bool (dirty_at c k)"
    using assms(1) by (auto simp: cache_inv_def length_remove1)
  ultimately show "cache_inv binv babs c'"
    using assms by (auto simp: cache_inv_def set_remove1_eq distinct_remove1)
  show "cache_abs babs c' = (cache_abs babs c)(k := babs (cache_base c) k)"
    using assms(2,4) by (auto simp: cache_abs_def fun_eq_iff split: option.split)
qed

lemma inv_entry: "cache_inv binv babs c \<Longrightarrow> find_coin c k = Some e \<Longrightarrow> entry_ok (babs (cache_base c) k) e"
  by (simp add: cache_inv_def)

lemma inv_distinct: "cache_inv binv babs c \<Longrightarrow> distinct (map fst (cacheCoins c))"
  by (simp add: cache_inv_def)

lemma inv_dirty_count_pos:
  assumes "cache_inv binv babs c" "dirty_at c k"
  shows "0 < m_dirty_count c"
proof -
  have "k \<in> set (m_flagged c)" using assms by (simp add: cache_inv_def)
  then show ?thesis using assms(1) by (auto simp: cache_inv_def length_greater_0_conv)
qed

lemma dirty_at_find [simp]: "find_coin c k = Some e \<Longrightarrow> dirty_at c k = IsDirty e" "find_coin c k = None \<Longrightarrow> \<not> dirty_at c k"
  by (simp_all add: dirty_at_def)

lemma entry_ok_dirty [simp]: "IsDirty e \<Longrightarrow> entry_ok below e \<longleftrightarrow> (IsFresh e \<longrightarrow> below = None \<and> \<not> IsSpent (entry_coin e))"
  by (simp add: entry_ok_def)

lemma new_cache_entry_sel [simp]:
  "entry_coin new_cache_entry = coinEmpty" "\<not> IsDirty new_cache_entry" "\<not> IsFresh new_cache_entry"
  by (simp_all add: new_cache_entry_def)

lemma IsSpent_coinEmpty [simp]: "IsSpent coinEmpty" "IsSpent (Coin_Clear x)"
  by (simp_all add: IsSpent_def coinEmpty_def Coin_Clear_def)

lemma unspent_simps [simp]: "IsSpent x \<Longrightarrow> unspent x = None" "\<not> IsSpent x \<Longrightarrow> unspent x = Some x"
  by (simp_all add: unspent_def)

subsection \<open>Adding a coin\<close>

lemma AddCoin_correct:
  assumes inv: "cache_inv binv babs c" and x: "\<not> IsSpent x" "\<not> IsUnspendable (scriptPubKey (coin_out x))"
    and ow: "possible_overwrite \<or> cache_abs babs c k = None"
  shows "\<exists>c'. AddCoin k x possible_overwrite c = Some c' \<and> cache_inv binv babs c' \<and>
    cache_abs babs c' = (cache_abs babs c)(k \<mapsto> x) \<and> cache_base c' = cache_base c \<and> m_block_hash c' = m_block_hash c"
proof (cases "find_coin c k")
  case None
  then have below: "possible_overwrite \<or> babs (cache_base c) k = None" using ow by (simp add: cache_abs_def)
  define c' where "c' = the (AddCoin k x possible_overwrite c)"
  have eq: "AddCoin k x possible_overwrite c = Some c'"
    using None x by (simp add: AddCoin_def c'_def Let_def)
  let ?e = "new_cache_entry\<lparr>entry_coin := x, IsDirty := True, IsFresh := \<not> possible_overwrite\<rparr>"
  have "find_coin c' = (find_coin c)(k \<mapsto> ?e)"
    using None x by (auto simp: c'_def AddCoin_def Let_def flag_defs fun_eq_iff new_cache_entry_def)
  moreover have "m_flagged c' = m_flagged c @ [k]" "m_dirty_count c' = m_dirty_count c + 1"
    "cache_base c' = cache_base c" "m_block_hash c' = m_block_hash c" "distinct (map fst (cacheCoins c'))"
    using None x inv_distinct [OF inv] by (auto simp: c'_def AddCoin_def Let_def flag_defs)
  ultimately show ?thesis using eq inv_put_dirty [OF inv, of c' k ?e] None x below by auto
next
  case (Some e)
  then have below: "possible_overwrite \<or> IsSpent (entry_coin e)"
    using ow by (auto simp: cache_abs_def unspent_def split: if_splits)
  have ok: "entry_ok (babs (cache_base c) k) e" using inv_entry [OF inv Some] .
  define c' where "c' = the (AddCoin k x possible_overwrite c)"
  have eq: "AddCoin k x possible_overwrite c = Some c'"
    using Some x below by (auto simp: AddCoin_def c'_def Let_def)
  have d: "IsSpent (entry_coin e) \<Longrightarrow> IsDirty e" using ok by (auto simp: entry_ok_def)
  let ?e = "e\<lparr>entry_coin := x, IsDirty := True\<rparr>"
  have "find_coin c' = (find_coin c)(k \<mapsto> ?e)"
    using Some x below d by (auto simp: c'_def AddCoin_def Let_def flag_defs fun_eq_iff)
  moreover have "m_flagged c' = (if IsDirty e then m_flagged c else m_flagged c @ [k])"
    using Some x below d ok by (auto simp: c'_def AddCoin_def Let_def flag_defs entry_ok_def)
  moreover have "m_dirty_count c' = (if IsDirty e then m_dirty_count c else m_dirty_count c + 1)"
    using Some x below d inv_dirty_count_pos [OF inv, of k] by (auto simp: c'_def AddCoin_def Let_def flag_defs)
  moreover have "cache_base c' = cache_base c" "m_block_hash c' = m_block_hash c" "distinct (map fst (cacheCoins c'))"
    using Some x below d inv_distinct [OF inv] by (auto simp: c'_def AddCoin_def Let_def flag_defs)
  moreover have "entry_ok (babs (cache_base c) k) ?e"
    using ok x by (auto simp: entry_ok_def)
  ultimately show ?thesis using eq inv_put_dirty [OF inv, of c' k ?e] Some x by auto
qed

subsection \<open>Receiving a batch\<close>

lemma batch_write_new:
  assumes inv: "cache_inv binv babs c" and none: "find_coin c k = None" and d: "IsDirty it"
    and fr: "IsFresh it \<longrightarrow> cache_abs babs c k = None \<and> \<not> IsSpent (entry_coin it)"
  shows "\<exists>c'. batch_write_entry k it c = Some c' \<and> cache_inv binv babs c' \<and>
    cache_abs babs c' = apply_entry (k, it) (cache_abs babs c) \<and> cache_base c' = cache_base c"
proof -
  define c' where "c' = the (batch_write_entry k it c)"
  have eq: "batch_write_entry k it c = Some c'"
    using none d fr by (auto simp: c'_def batch_write_entry_def Let_def)
  let ?e = "\<lparr>entry_coin = entry_coin it, IsDirty = True, IsFresh = IsFresh it\<rparr>"
  have "find_coin c' = (find_coin c)(k \<mapsto> ?e)"
    using none d fr by (auto simp: c'_def batch_write_entry_def Let_def flag_defs fun_eq_iff new_cache_entry_def)
  moreover have "m_flagged c' = m_flagged c @ [k]" "m_dirty_count c' = m_dirty_count c + 1"
    "cache_base c' = cache_base c" "distinct (map fst (cacheCoins c'))"
    using none d fr inv_distinct [OF inv] by (auto simp: c'_def batch_write_entry_def Let_def flag_defs)
  moreover have "entry_ok (babs (cache_base c) k) ?e"
    using fr none by (simp add: cache_abs_def)
  ultimately show ?thesis using eq inv_put_dirty [OF inv, of c' k ?e] none d by (auto simp: apply_entry_def)
qed

lemma batch_write_known:
  assumes inv: "cache_inv binv babs c" and us: "find_coin c k = Some itUs" and d: "IsDirty it"
    and fr: "IsFresh it \<longrightarrow> cache_abs babs c k = None \<and> \<not> IsSpent (entry_coin it)"
  shows "\<exists>c'. batch_write_entry k it c = Some c' \<and> cache_inv binv babs c' \<and>
    cache_abs babs c' = apply_entry (k, it) (cache_abs babs c) \<and> cache_base c' = cache_base c"
proof -
  have ok: "entry_ok (babs (cache_base c) k) itUs" using inv_entry [OF inv us] .
  have sp: "IsFresh it \<Longrightarrow> IsSpent (entry_coin itUs)"
    using fr us by (auto simp: cache_abs_def unspent_def split: if_splits)
  define c' where "c' = the (batch_write_entry k it c)"
  have eq: "batch_write_entry k it c = Some c'"
    using us d sp by (auto simp: c'_def batch_write_entry_def Let_def)
  show ?thesis
  proof (cases "IsFresh itUs \<and> IsSpent (entry_coin it)")
    case True
    then have "c' = erase_entry k (sub_dirty_count (IsDirty itUs) c)"
      using us d sp by (auto simp: c'_def batch_write_entry_def)
    then have "cache_inv binv babs c' \<and> cache_abs babs c' = (cache_abs babs c)(k := babs (cache_base c) k) \<and>
        cache_base c' = cache_base c"
      using inv_erase_entry [OF inv, of c' k] us inv_distinct [OF inv] by simp
    then show ?thesis using eq True ok d by (auto simp: apply_entry_def entry_ok_def)
  next
    case False
    let ?e = "itUs\<lparr>entry_coin := entry_coin it, IsDirty := True\<rparr>"
    have "find_coin c' = (find_coin c)(k \<mapsto> ?e)"
      using us d sp False by (auto simp: c'_def batch_write_entry_def Let_def flag_defs fun_eq_iff)
    moreover have "m_flagged c' = (if IsDirty itUs then m_flagged c else m_flagged c @ [k])"
      using us d sp False ok by (auto simp: c'_def batch_write_entry_def Let_def flag_defs entry_ok_def)
    moreover have "m_dirty_count c' = (if IsDirty itUs then m_dirty_count c else m_dirty_count c + 1)"
      "cache_base c' = cache_base c" "distinct (map fst (cacheCoins c'))"
      using us d sp False inv_distinct [OF inv] by (auto simp: c'_def batch_write_entry_def Let_def flag_defs)
    moreover have "entry_ok (babs (cache_base c) k) ?e" using ok False by (auto simp: entry_ok_def)
    ultimately show ?thesis using eq inv_put_dirty [OF inv, of c' k ?e] us d by (auto simp: apply_entry_def)
  qed
qed

lemma batch_write_cases:
  assumes "cache_inv binv babs c" "IsDirty it" "IsFresh it \<longrightarrow> cache_abs babs c k = None \<and> \<not> IsSpent (entry_coin it)"
  shows "\<exists>c'. batch_write_entry k it c = Some c' \<and> cache_inv binv babs c' \<and>
    cache_abs babs c' = apply_entry (k, it) (cache_abs babs c) \<and> cache_base c' = cache_base c"
proof (cases "find_coin c k")
  case None
  show ?thesis by (rule batch_write_new [OF assms(1) None assms(2,3)])
next
  case (Some e)
  show ?thesis by (rule batch_write_known [OF assms(1) Some assms(2,3)])
qed

lemma batch_ok_Cons:
  assumes "batch_ok m ((k, it) # es)"
  shows "IsDirty it" "IsFresh it \<longrightarrow> m k = None \<and> \<not> IsSpent (entry_coin it)" "batch_ok (apply_entry (k, it) m) es"
proof -
  show d: "IsDirty it" and "IsFresh it \<longrightarrow> m k = None \<and> \<not> IsSpent (entry_coin it)"
    using assms unfolding batch_ok_def by (metis list.set_intros(1))+
  have "k \<notin> fst ` set es" using assms by (simp add: batch_ok_def)
  then have "apply_entry (k, it) m a = m a" if "(a, e) \<in> set es" for a e
    using that d by (force simp: apply_entry_def)
  moreover have "IsDirty e \<and> (IsFresh e \<longrightarrow> m a = None \<and> \<not> IsSpent (entry_coin e))"
    if "(a, e) \<in> set es" for a e
    using assms that by (simp add: batch_ok_def)
  moreover have "distinct (map fst es)" using assms by (simp add: batch_ok_def)
  ultimately show "batch_ok (apply_entry (k, it) m) es" unfolding batch_ok_def by metis
qed

lemma batch_write_loop_correct:
  assumes "cache_inv binv babs c" "batch_ok (cache_abs babs c) es"
  shows "\<exists>c'. batch_write_loop es c = Some c' \<and> cache_inv binv babs c' \<and>
    cache_abs babs c' = apply_batch es (cache_abs babs c) \<and> cache_base c' = cache_base c"
  using assms
proof (induction es arbitrary: c)
  case Nil
  then show ?case by (simp add: apply_batch_def)
next
  case (Cons ke es)
  obtain k it where ke: "ke = (k, it)" by fastforce
  note ok = batch_ok_Cons [OF Cons.prems(2) [unfolded ke]]
  obtain c1 where c1: "batch_write_entry k it c = Some c1" "cache_inv binv babs c1"
    "cache_abs babs c1 = apply_entry (k, it) (cache_abs babs c)" "cache_base c1 = cache_base c"
    using batch_write_cases [OF Cons.prems(1) ok(1,2)] by blast
  from Cons.IH [OF c1(2)] ok(3) c1 show ?case by (auto simp: ke apply_batch_def)
qed

lemma apply_batch_other: "k \<notin> fst ` set es \<Longrightarrow> apply_batch es m k = m k"
  by (induction es arbitrary: m) (auto simp: apply_batch_def apply_entry_def)

lemma apply_batch_at:
  assumes "distinct (map fst es)" "(k, e) \<in> set es" "IsDirty e"
  shows "apply_batch es m k = unspent (entry_coin e)"
  using assms
proof (induction es arbitrary: m)
  case (Cons ke es)
  then show ?case using apply_batch_other [of k es] by (cases "ke = (k, e)") (auto simp: apply_batch_def apply_entry_def)
qed simp

definition cache_best :: "('b \<Rightarrow> uint256) \<Rightarrow> 'b CCoinsViewCache \<Rightarrow> uint256" where
  "cache_best bbest c = (if IsNull (m_block_hash c) then bbest (cache_base c) else m_block_hash c)"

definition synced :: "CCoinsCacheEntry \<Rightarrow> CCoinsCacheEntry option" where
  "synced e = (if IsSpent (entry_coin e) then None else Some (e\<lparr>IsDirty := False, IsFresh := False\<rparr>))"

section \<open>The contract of a view\<close>

text \<open>
  \<open>babs\<close> is the set of unspent outputs a state of the view stands for, \<open>binv\<close> its invariant and \<open>bbest\<close>
  the block whose state it is. Lookups return what the map says and keep it.
\<close>

locale coins_reader =
  fixes base :: "'b CCoinsView" and binv :: "'b \<Rightarrow> bool" and babs :: "'b \<Rightarrow> utxo" and bbest :: "'b \<Rightarrow> uint256"
  assumes get: "binv b \<Longrightarrow> \<exists>b'. view_GetCoin base b k = Some (babs b k, b') \<and> binv b' \<and> babs b' = babs b \<and> bbest b' = bbest b"
    and peek: "binv b \<Longrightarrow> view_PeekCoin base b k = Some (babs b k)"
    and have_coin: "binv b \<Longrightarrow> \<exists>b'. view_HaveCoin base b k = Some (babs b k \<noteq> None, b') \<and> binv b' \<and> babs b' = babs b \<and> bbest b' = bbest b"
    and best: "binv b \<Longrightarrow> \<exists>b'. view_GetBestBlock base b = (bbest b, b') \<and> binv b' \<and> babs b' = babs b \<and> bbest b' = bbest b"
    and unspent_only: "binv b \<Longrightarrow> babs b k = Some x \<Longrightarrow> \<not> IsSpent x"
begin

lemma inv_new_cache: "binv b \<Longrightarrow> cache_inv binv babs (new_cache ov b)"
  by (auto simp: cache_inv_def new_cache_def find_coin_def dirty_at_def)

lemma abs_new_cache: "cache_abs babs (new_cache ov b) = babs b"
  by (simp add: cache_abs_def new_cache_def find_coin_def fun_eq_iff)

lemma cache_unspent_only: "cache_inv binv babs c \<Longrightarrow> cache_abs babs c k = Some x \<Longrightarrow> \<not> IsSpent x"
  using unspent_only [of "cache_base c" k x]
  by (auto simp: cache_abs_def cache_inv_def unspent_def split: option.splits if_splits)

text \<open>Changing the base for an equivalent one changes nothing.\<close>

lemma inv_base:
  assumes "cache_inv binv babs c" "binv b" "babs b = babs (cache_base c)"
  shows "cache_inv binv babs (c\<lparr>cache_base := b\<rparr>)" "cache_abs babs (c\<lparr>cache_base := b\<rparr>) = cache_abs babs c"
proof -
  have "dirty_at (c\<lparr>cache_base := b\<rparr>) = dirty_at c" by (simp add: dirty_at_def fun_eq_iff)
  then show "cache_inv binv babs (c\<lparr>cache_base := b\<rparr>)" using assms by (auto simp: cache_inv_def)
  show "cache_abs babs (c\<lparr>cache_base := b\<rparr>) = cache_abs babs c" using assms(3) by (auto simp: cache_abs_def fun_eq_iff split: option.split)
qed

lemma FetchCoinFromBase_correct:
  assumes inv: "cache_inv binv babs c"
  shows "\<exists>b'. FetchCoinFromBase base c k = Some (babs (cache_base c) k, c\<lparr>cache_base := b'\<rparr>) \<and>
    binv b' \<and> babs b' = babs (cache_base c) \<and> bbest b' = bbest (cache_base c)"
proof -
  have b: "binv (cache_base c)" using inv by (simp add: cache_inv_def)
  have same: "c\<lparr>cache_base := cache_base c\<rparr> = c" by simp
  show ?thesis
  proof (cases "is_overlay c")
    case True
    then have "FetchCoinFromBase base c k = Some (babs (cache_base c) k, c\<lparr>cache_base := cache_base c\<rparr>)"
      using peek [OF b, of k] by (simp add: FetchCoinFromBase_def)
    then show ?thesis using b by blast
  next
    case False
    then show ?thesis using get [OF b, of k] by (auto simp: FetchCoinFromBase_def)
  qed
qed

lemma inv_put_clean:
  assumes inv: "cache_inv binv babs c" and none: "find_coin c k = None" and below: "babs (cache_base c) k = Some x"
  shows "cache_inv binv babs (put_entry k (new_cache_entry\<lparr>entry_coin := x\<rparr>) c)"
    "cache_abs babs (put_entry k (new_cache_entry\<lparr>entry_coin := x\<rparr>) c) = cache_abs babs c"
proof -
  let ?c = "put_entry k (new_cache_entry\<lparr>entry_coin := x\<rparr>) c"
  have x: "\<not> IsSpent x" using inv unspent_only [of "cache_base c" k x, OF _ below] by (simp add: cache_inv_def)
  have "dirty_at ?c = dirty_at c" using none by (auto simp: dirty_at_def fun_eq_iff)
  then show "cache_inv binv babs ?c" using inv below x by (auto simp: cache_inv_def entry_ok_def)
  show "cache_abs babs ?c = cache_abs babs c" using none below x by (auto simp: cache_abs_def fun_eq_iff split: option.split)
qed

lemma FetchCoin_correct:
  assumes inv: "cache_inv binv babs c"
  shows "\<exists>c'. FetchCoin base c k = Some (find_coin c' k, c') \<and> cache_inv binv babs c' \<and>
    cache_abs babs c' = cache_abs babs c \<and> (find_coin c' k = None \<longrightarrow> cache_abs babs c k = None) \<and>
    m_block_hash c' = m_block_hash c \<and> bbest (cache_base c') = bbest (cache_base c)"
proof (cases "find_coin c k")
  case (Some e)
  then show ?thesis using inv by (intro exI [of _ c]) (simp add: FetchCoin_def)
next
  case None
  obtain b' where b': "FetchCoinFromBase base c k = Some (babs (cache_base c) k, c\<lparr>cache_base := b'\<rparr>)"
    "binv b'" "babs b' = babs (cache_base c)" "bbest b' = bbest (cache_base c)"
    using FetchCoinFromBase_correct [OF inv] by blast
  let ?c = "c\<lparr>cache_base := b'\<rparr>"
  note c = inv_base [OF inv b'(2,3)]
  show ?thesis
  proof (cases "babs (cache_base c) k")
    case below: None
    then have "FetchCoin base c k = Some (find_coin ?c k, ?c)" using None b'(1) by (simp add: FetchCoin_def)
    moreover have "cache_abs babs c k = None" using None below by (simp add: cache_abs_def)
    ultimately show ?thesis using b'(4) c by (intro exI [of _ ?c]) simp
  next
    case below: (Some x)
    let ?e = "new_cache_entry\<lparr>entry_coin := x\<rparr>"
    have x: "\<not> IsSpent x" using inv unspent_only [of "cache_base c" k x, OF _ below] by (simp add: cache_inv_def)
    have "FetchCoin base c k = Some (Some ?e, put_entry k ?e ?c)"
      using None below b'(1) x by (simp add: FetchCoin_def Let_def)
    moreover have "cache_inv binv babs (put_entry k ?e ?c)" "cache_abs babs (put_entry k ?e ?c) = cache_abs babs c"
      using inv_put_clean [OF c(1), of k x] None below b'(3) c(2) by simp_all
    ultimately show ?thesis using b'(4) by (intro exI [of _ "put_entry k ?e ?c"]) simp
  qed
qed

lemma find_abs: "find_coin c k = Some e \<Longrightarrow> cache_abs babs c k = unspent (entry_coin e)"
  by (simp add: cache_abs_def)

abbreviation "cache_same c c' \<equiv> cache_inv binv babs c' \<and> cache_abs babs c' = cache_abs babs c \<and>
  m_block_hash c' = m_block_hash c \<and> bbest (cache_base c') = bbest (cache_base c)"

lemma GetCoin_correct:
  assumes "cache_inv binv babs c"
  shows "\<exists>c'. GetCoin base c k = Some (cache_abs babs c k, c') \<and> cache_same c c'"
proof -
  obtain c' where c': "FetchCoin base c k = Some (find_coin c' k, c')" "cache_same c c'"
    "find_coin c' k = None \<longrightarrow> cache_abs babs c k = None"
    using FetchCoin_correct [OF assms] by metis
  have "GetCoin base c k = Some (cache_abs babs c k, c')"
    using c' find_abs [of c' k] by (cases "find_coin c' k") (simp_all add: GetCoin_def unspent_def)
  then show ?thesis using c'(2) by blast
qed

lemma HaveCoin_correct:
  assumes "cache_inv binv babs c"
  shows "\<exists>c'. HaveCoin base c k = Some (cache_abs babs c k \<noteq> None, c') \<and> cache_same c c'"
proof -
  obtain c' where c': "FetchCoin base c k = Some (find_coin c' k, c')" "cache_same c c'"
    "find_coin c' k = None \<longrightarrow> cache_abs babs c k = None"
    using FetchCoin_correct [OF assms] by metis
  have "HaveCoin base c k = Some (cache_abs babs c k \<noteq> None, c')"
    using c' find_abs [of c' k] by (cases "find_coin c' k") (simp_all add: HaveCoin_def unspent_def)
  then show ?thesis using c'(2) by blast
qed

lemma AccessCoin_correct:
  assumes "cache_inv binv babs c"
  shows "\<exists>x c'. AccessCoin base c k = Some (x, c') \<and> unspent x = cache_abs babs c k \<and> cache_same c c'"
proof -
  obtain c' where c': "FetchCoin base c k = Some (find_coin c' k, c')" "cache_same c c'"
    "find_coin c' k = None \<longrightarrow> cache_abs babs c k = None"
    using FetchCoin_correct [OF assms] by metis
  then show ?thesis
    using find_abs [of c' k] by (cases "find_coin c' k") (auto simp: AccessCoin_def)
qed

lemma PeekCoin_correct:
  assumes "cache_inv binv babs c"
  shows "PeekCoin base c k = Some (cache_abs babs c k)"
  using peek [of "cache_base c" k] assms
  by (auto simp: PeekCoin_def cache_abs_def cache_inv_def unspent_def split: option.split)

lemma SpendCoin_correct:
  assumes inv: "cache_inv binv babs c"
  shows "\<exists>r c'. SpendCoin base c k = Some (r, c') \<and> cache_inv binv babs c' \<and>
    cache_abs babs c' = (cache_abs babs c)(k := None) \<and> Option.bind r unspent = cache_abs babs c k"
proof -
  obtain c1 where c1: "FetchCoin base c k = Some (find_coin c1 k, c1)" "cache_inv binv babs c1"
    "cache_abs babs c1 = cache_abs babs c" "find_coin c1 k = None \<longrightarrow> cache_abs babs c k = None"
    using FetchCoin_correct [OF inv] by metis
  show ?thesis
  proof (cases "find_coin c1 k")
    case None
    then show ?thesis using c1 by (auto simp: SpendCoin_def fun_upd_idem)
  next
    case (Some e)
    note ok = inv_entry [OF c1(2) Some]
    have un: "unspent (entry_coin e) = cache_abs babs c k" using find_abs [OF Some] c1(3) by simp
    define c' where "c' = snd (the (SpendCoin base c k))"
    have eq: "SpendCoin base c k = Some (Some (entry_coin e), c')"
      using Some c1(1) by (simp add: SpendCoin_def c'_def Let_def)
    show ?thesis
    proof (cases "IsFresh e")
      case True
      then have "c' = erase_entry k (sub_dirty_count (IsDirty e) c1)"
        using Some c1(1) by (simp add: SpendCoin_def c'_def Let_def)
      then have "cache_inv binv babs c' \<and> cache_abs babs c' = (cache_abs babs c1)(k := babs (cache_base c1) k)"
        using inv_erase_entry [OF c1(2), of c' k] Some inv_distinct [OF c1(2)] by simp
      moreover have "babs (cache_base c1) k = None" using ok True by (simp add: entry_ok_def)
      ultimately show ?thesis using eq un c1(3) by auto
    next
      case False
      let ?e = "e\<lparr>entry_coin := Coin_Clear (entry_coin e), IsDirty := True\<rparr>"
      have "find_coin c' = (find_coin c1)(k \<mapsto> ?e)"
        "m_flagged c' = (if IsDirty e then m_flagged c1 else m_flagged c1 @ [k])"
        "m_dirty_count c' = (if IsDirty e then m_dirty_count c1 else m_dirty_count c1 + 1)"
        "cache_base c' = cache_base c1" "distinct (map fst (cacheCoins c'))"
        using Some False c1(1) inv_distinct [OF c1(2)] inv_dirty_count_pos [OF c1(2), of k]
        by (auto simp: SpendCoin_def c'_def Let_def flag_defs fun_eq_iff)
      then have "cache_inv binv babs c'" "cache_abs babs c' = (cache_abs babs c1)(k := None)"
        using inv_put_dirty [OF c1(2), of c' k ?e] Some False by simp_all
      then show ?thesis using eq un c1(3) by auto
    qed
  qed
qed

subsection \<open>Writing back\<close>

lemma cursor_entries_eq:
  assumes "cache_inv binv babs c"
  shows "cursor_entries c = map (\<lambda>k. (k, the (find_coin c k))) (m_flagged c)"
proof -
  have "\<forall>k \<in> set (m_flagged c). find_coin c k \<noteq> None"
    using assms by (auto simp: cache_inv_def dirty_at_def split: option.splits)
  then have "List.map_filter (\<lambda>k. map_option (Pair k) (find_coin c k)) ks = map (\<lambda>k. (k, the (find_coin c k))) ks"
    if "set ks \<subseteq> set (m_flagged c)" for ks
    using that by (induction ks) (auto simp: List.map_filter_simps)
  then show ?thesis by (simp add: cursor_entries_def)
qed

lemma cursor_entry:
  assumes "cache_inv binv babs c" "(k, e) \<in> set (cursor_entries c)"
  shows "find_coin c k = Some e" "IsDirty e"
proof -
  have "dirty_at c k" "e = the (find_coin c k)"
    using assms by (auto simp: cursor_entries_eq cache_inv_def)
  then show "find_coin c k = Some e" "IsDirty e" by (auto simp: dirty_at_def split: option.splits)
qed

lemma cursor_batch_ok:
  assumes "cache_inv binv babs c"
  shows "batch_ok (babs (cache_base c)) (cursor_entries c)"
proof -
  have "distinct (map fst (cursor_entries c))"
    using assms by (simp add: cursor_entries_eq comp_def cache_inv_def)
  moreover have "IsFresh e \<longrightarrow> babs (cache_base c) k = None \<and> \<not> IsSpent (entry_coin e)" "IsDirty e"
    if "(k, e) \<in> set (cursor_entries c)" for k e
    using inv_entry [OF assms cursor_entry(1) [OF assms that]] cursor_entry(2) [OF assms that] by simp_all
  ultimately show ?thesis unfolding batch_ok_def by blast
qed

lemma apply_cursor: 
  assumes inv: "cache_inv binv babs c"
  shows "apply_batch (cursor_entries c) (babs (cache_base c)) = cache_abs babs c"
proof
  fix k
  have dist: "distinct (map fst (cursor_entries c))" using cursor_batch_ok [OF inv] by (simp add: batch_ok_def)
  show "apply_batch (cursor_entries c) (babs (cache_base c)) k = cache_abs babs c k"
  proof (cases "dirty_at c k")
    case True
    then obtain e where e: "find_coin c k = Some e" "IsDirty e" by (auto simp: dirty_at_def split: option.splits)
    have "k \<in> set (m_flagged c)" using inv True by (simp add: cache_inv_def)
    then have "(k, e) \<in> set (cursor_entries c)" using e by (force simp: cursor_entries_eq [OF inv])
    then show ?thesis using apply_batch_at [OF dist _ e(2)] find_abs [OF e(1)] by simp
  next
    case False
    then have "k \<notin> fst ` set (cursor_entries c)"
      using inv by (auto simp: cursor_entries_eq [OF inv] cache_inv_def)
    moreover have "babs (cache_base c) k = cache_abs babs c k"
    proof (cases "find_coin c k")
      case (Some e)
      then show ?thesis using inv_entry [OF inv Some] False find_abs [OF Some] by (auto simp: entry_ok_def)
    qed (simp add: cache_abs_def)
    ultimately show ?thesis using apply_batch_other by metis
  qed
qed

lemma flush_fields:
  "cache_base (fold (NextAndMaybeErase True) es c) = cache_base c"
  "m_block_hash (fold (NextAndMaybeErase True) es c) = m_block_hash c"
  "m_dirty_count (fold (NextAndMaybeErase True) es c) = m_dirty_count c - length (filter (IsDirty \<circ> snd) es)"
  by (induction es arbitrary: c) (simp_all add: NextAndMaybeErase_def)

lemma sync_step:
  assumes "find_coin c k = Some e" "IsDirty e" "m_flagged c = k # ks" "distinct (map fst (cacheCoins c))"
  shows "find_coin (NextAndMaybeErase False (k, e) c) = (find_coin c)(k := synced e)"
    "m_flagged (NextAndMaybeErase False (k, e) c) = ks"
    "m_dirty_count (NextAndMaybeErase False (k, e) c) = m_dirty_count c - 1"
    "cache_base (NextAndMaybeErase False (k, e) c) = cache_base c"
    "m_block_hash (NextAndMaybeErase False (k, e) c) = m_block_hash c"
    "distinct (map fst (cacheCoins (NextAndMaybeErase False (k, e) c)))"
  using assms by (auto simp: NextAndMaybeErase_def synced_def SetClean_def Let_def put_entry_def distinct_update
      find_coin_def sub_dirty_count_def erase_entry_def distinct_delete delete_conv' update_conv')

lemma sync_fold:
  assumes "distinct (map fst es)" "\<And>k e. (k, e) \<in> set es \<Longrightarrow> find_coin c k = Some e \<and> IsDirty e"
    "m_flagged c = map fst es" "distinct (map fst (cacheCoins c))"
  shows "find_coin (fold (NextAndMaybeErase False) es c) k
        = (if k \<in> fst ` set es then Option.bind (find_coin c k) synced else find_coin c k) \<and>
    m_flagged (fold (NextAndMaybeErase False) es c) = [] \<and>
    m_dirty_count (fold (NextAndMaybeErase False) es c) = m_dirty_count c - length es \<and>
    cache_base (fold (NextAndMaybeErase False) es c) = cache_base c \<and>
    m_block_hash (fold (NextAndMaybeErase False) es c) = m_block_hash c \<and>
    distinct (map fst (cacheCoins (fold (NextAndMaybeErase False) es c)))"
  using assms
proof (induction es arbitrary: c)
  case (Cons ke es)
  obtain a e where ke: "ke = (a, e)" by fastforce
  let ?c = "NextAndMaybeErase False (a, e) c"
  have a: "find_coin c a = Some e" "IsDirty e" "m_flagged c = a # map fst es" "a \<notin> fst ` set es"
    using Cons.prems(1-3) by (auto simp: ke)
  note st = sync_step [OF a(1-3) Cons.prems(4)]
  have other: "find_coin ?c b = find_coin c b" if "b \<in> fst ` set es" for b
    using that a(4) st(1) by auto
  have "find_coin ?c b = Some f \<and> IsDirty f" if "(b, f) \<in> set es" for b f
  proof -
    have "b \<in> fst ` set es" using that by force
    then show ?thesis using other Cons.prems(2) [of b f] that by simp
  qed
  from Cons.IH [of ?c, OF _ this st(2) st(6)] Cons.prems(1)
  have IH: "find_coin (fold (NextAndMaybeErase False) es ?c) k
        = (if k \<in> fst ` set es then Option.bind (find_coin ?c k) synced else find_coin ?c k)"
      "m_flagged (fold (NextAndMaybeErase False) es ?c) = []"
      "m_dirty_count (fold (NextAndMaybeErase False) es ?c) = m_dirty_count ?c - length es"
      "cache_base (fold (NextAndMaybeErase False) es ?c) = cache_base ?c"
      "m_block_hash (fold (NextAndMaybeErase False) es ?c) = m_block_hash ?c"
      "distinct (map fst (cacheCoins (fold (NextAndMaybeErase False) es ?c)))"
    by (simp_all add: ke)
  have "find_coin (fold (NextAndMaybeErase False) es ?c) k
        = (if k \<in> fst ` set (ke # es) then Option.bind (find_coin c k) synced else find_coin c k)"
    using IH(1) st(1) a(1,4) other [of k] by (auto simp: ke)
  then show ?case using IH(2-6) st(3-5) by (simp add: ke)
qed simp

subsection \<open>A cache over a view is a view\<close>

lemma inv_block_hash:
  "cache_inv binv babs (c\<lparr>m_block_hash := h\<rparr>) = cache_inv binv babs c"
  "cache_abs babs (c\<lparr>m_block_hash := h\<rparr>) = cache_abs babs c"
  by (auto simp: cache_inv_def dirty_at_def cache_abs_def fun_eq_iff split: option.splits)

lemma GetBestBlock_correct:
  assumes inv: "cache_inv binv babs c"
  shows "\<exists>c'. GetBestBlock base c = (cache_best bbest c, c') \<and> cache_inv binv babs c' \<and>
    cache_abs babs c' = cache_abs babs c \<and> cache_best bbest c' = cache_best bbest c"
proof (cases "IsNull (m_block_hash c)")
  case True
  obtain b' where b': "view_GetBestBlock base (cache_base c) = (bbest (cache_base c), b')" "binv b'"
    "babs b' = babs (cache_base c)" "bbest b' = bbest (cache_base c)"
    using best [of "cache_base c"] inv by (metis cache_inv_def)
  let ?c = "c\<lparr>cache_base := b', m_block_hash := bbest (cache_base c)\<rparr>"
  have "GetBestBlock base c = (cache_best bbest c, ?c)" "cache_best bbest ?c = cache_best bbest c"
    using True b' by (simp_all add: GetBestBlock_def cache_best_def)
  moreover have "cache_inv binv babs ?c" "cache_abs babs ?c = cache_abs babs c"
    using inv_base [OF inv b'(2,3)] inv_block_hash [where c = "c\<lparr>cache_base := b'\<rparr>"] by simp_all
  ultimately show ?thesis by (intro exI [of _ ?c]) simp
next
  case False
  then show ?thesis using inv by (intro exI [of _ c]) (simp add: GetBestBlock_def cache_best_def)
qed

lemma BatchWrite_correct:
  assumes "cache_inv binv babs c" "batch_ok (cache_abs babs c) es" "\<not> IsNull h"
  shows "\<exists>c'. BatchWrite c es h = Some c' \<and> cache_inv binv babs c' \<and>
    cache_abs babs c' = apply_batch es (cache_abs babs c) \<and> cache_best bbest c' = h"
proof -
  obtain c1 where c1: "batch_write_loop es c = Some c1" "cache_inv binv babs c1"
    "cache_abs babs c1 = apply_batch es (cache_abs babs c)"
    using batch_write_loop_correct [OF assms(1,2)] by metis
  then show ?thesis using assms(3) inv_block_hash [where c = c1 and h = h]
    by (intro exI [of _ "c1\<lparr>m_block_hash := h\<rparr>"]) (simp add: BatchWrite_def SetBestBlock_def cache_best_def)
qed

lemma cache_same_best: "cache_same c c' \<Longrightarrow> cache_best bbest c' = cache_best bbest c"
  by (simp add: cache_best_def)

end

text \<open>A view that can be written to: a batch whose fresh entries are new to the view is applied to the map.\<close>

locale coins_view = coins_reader +
  assumes batch: "binv b \<Longrightarrow> batch_ok (babs b) es \<Longrightarrow> \<not> IsNull h \<Longrightarrow>
      \<exists>b'. view_BatchWrite base b es h = Some b' \<and> binv b' \<and> babs b' = apply_batch es (babs b) \<and> bbest b' = h"
begin

lemma Flush_correct:
  assumes inv: "cache_inv binv babs c" and h: "\<not> IsNull (m_block_hash c)"
  shows "\<exists>c'. Flush base c = Some c' \<and> cache_inv binv babs c' \<and> cacheCoins c' = [] \<and>
    babs (cache_base c') = cache_abs babs c \<and> cache_abs babs c' = cache_abs babs c \<and>
    bbest (cache_base c') = m_block_hash c"
proof -
  obtain b where b: "view_BatchWrite base (cache_base c) (cursor_entries c) (m_block_hash c) = Some b"
    "binv b" "babs b = cache_abs babs c" "bbest b = m_block_hash c"
    using batch [OF _ cursor_batch_ok [OF inv] h] inv apply_cursor [OF inv] by (metis cache_inv_def)
  let ?c = "(fold (NextAndMaybeErase True) (cursor_entries c) (c\<lparr>cache_base := b\<rparr>))\<lparr>cacheCoins := [], m_flagged := []\<rparr>"
  have "filter (IsDirty \<circ> snd) (cursor_entries c) = cursor_entries c"
    using cursor_entry(2) [OF inv] by (auto simp: filter_id_conv)
  then have "m_dirty_count ?c = 0"
    using inv by (simp add: flush_fields cursor_entries_eq cache_inv_def)
  then have "cache_inv binv babs ?c"
    using b(2) by (auto simp: cache_inv_def flush_fields find_coin_def dirty_at_def)
  moreover have "cache_abs babs ?c = cache_abs babs c"
    using b(3) by (simp add: cache_abs_def find_coin_def flush_fields fun_eq_iff)
  moreover have "Flush base c = Some ?c" using b(1) by (simp add: Flush_def)
  ultimately show ?thesis using b(3,4) by (intro exI [of _ ?c]) (simp add: flush_fields)
qed

lemma Sync_correct:
  assumes inv: "cache_inv binv babs c" and h: "\<not> IsNull (m_block_hash c)"
  shows "\<exists>c'. Sync base c = Some c' \<and> cache_inv binv babs c' \<and> m_dirty_count c' = 0 \<and>
    babs (cache_base c') = cache_abs babs c \<and> cache_abs babs c' = cache_abs babs c \<and>
    bbest (cache_base c') = m_block_hash c"
proof -
  obtain b where b: "view_BatchWrite base (cache_base c) (cursor_entries c) (m_block_hash c) = Some b"
    "binv b" "babs b = cache_abs babs c" "bbest b = m_block_hash c"
    using batch [OF _ cursor_batch_ok [OF inv] h] inv apply_cursor [OF inv] by (metis cache_inv_def)
  let ?es = "cursor_entries c"
  define c' where "c' = fold (NextAndMaybeErase False) ?es (c\<lparr>cache_base := b\<rparr>)"
  have dist: "distinct (map fst ?es)" using cursor_batch_ok [OF inv] by (simp add: batch_ok_def)
  have keys: "map fst ?es = m_flagged c" by (simp add: cursor_entries_eq [OF inv] comp_def)
  have fl: "k \<in> fst ` set ?es \<longleftrightarrow> dirty_at c k" for k
    using inv by (simp add: cursor_entries_eq [OF inv] cache_inv_def image_image)
  note sf = sync_fold [OF dist, of "c\<lparr>cache_base := b\<rparr>", folded c'_def]
  have c': "find_coin c' k = (if dirty_at c k then Option.bind (find_coin c k) synced else find_coin c k)"
      "m_flagged c' = []" "m_dirty_count c' = m_dirty_count c - length ?es" "cache_base c' = b"
      "distinct (map fst (cacheCoins c'))" for k
    using sf [of k] cursor_entry [OF inv] keys inv_distinct [OF inv] by (simp_all add: fl)
  have count: "m_dirty_count c' = 0"
    using c'(3) inv by (simp add: cursor_entries_eq [OF inv] cache_inv_def)
  have ok: "entry_ok (babs b k) e \<and> \<not> IsDirty e \<and> babs b k = Some (entry_coin e)" if e: "find_coin c' k = Some e" for k e
  proof (cases "dirty_at c k")
    case True
    then obtain f where "find_coin c k = Some f" "synced f = Some e"
      using e c'(1) [of k] by (cases "find_coin c k") auto
    then show ?thesis using find_abs [of c k f] b(3) by (auto simp: synced_def entry_ok_def split: if_splits)
  next
    case False
    then have "find_coin c k = Some e" "\<not> IsDirty e" using e c'(1) [of k] by (auto simp: dirty_at_def)
    then show ?thesis using inv_entry [OF inv, of k e] find_abs [of c k e] b(3) by (auto simp: entry_ok_def)
  qed
  have "Collect (dirty_at c') = {}" using ok by (auto simp: dirty_at_def split: option.splits)
  moreover have "\<forall>k e. find_coin c' k = Some e \<longrightarrow> entry_ok (babs (cache_base c') k) e" using ok unfolding c'(4) by blast
  ultimately have "cache_inv binv babs c'" using c'(2,4,5) count b(2) unfolding cache_inv_def by simp
  moreover have "cache_abs babs c' = babs b"
    using ok c'(4) by (auto simp: cache_abs_def unspent_def fun_eq_iff entry_ok_def split: option.splits)
  moreover have "Sync base c = Some c'" using b(1) c'(2) by (simp add: Sync_def c'_def [symmetric])
  ultimately show ?thesis using b(3,4) c'(4) count by auto
qed

lemma cache_is_view: "coins_view (cache_view base) (cache_inv binv babs) (cache_abs babs) (cache_best bbest)"
proof
  fix c k assume inv: "cache_inv binv babs c"
  show "\<exists>c'. view_GetCoin (cache_view base) c k = Some (cache_abs babs c k, c') \<and> cache_inv binv babs c' \<and>
      cache_abs babs c' = cache_abs babs c \<and> cache_best bbest c' = cache_best bbest c"
    using GetCoin_correct [OF inv, of k] cache_same_best by (force simp: cache_view_def)
  show "\<exists>c'. view_HaveCoin (cache_view base) c k = Some (cache_abs babs c k \<noteq> None, c') \<and> cache_inv binv babs c' \<and>
      cache_abs babs c' = cache_abs babs c \<and> cache_best bbest c' = cache_best bbest c"
    using HaveCoin_correct [OF inv, of k] cache_same_best by (force simp: cache_view_def)
  show "view_PeekCoin (cache_view base) c k = Some (cache_abs babs c k)"
    using PeekCoin_correct [OF inv] by (simp add: cache_view_def)
  show "\<exists>c'. view_GetBestBlock (cache_view base) c = (cache_best bbest c, c') \<and> cache_inv binv babs c' \<and>
      cache_abs babs c' = cache_abs babs c \<and> cache_best bbest c' = cache_best bbest c"
    using GetBestBlock_correct [OF inv] by (simp add: cache_view_def)
  show "cache_abs babs c k = Some x \<Longrightarrow> \<not> IsSpent x" for x
    by (rule cache_unspent_only [OF inv])
  show "batch_ok (cache_abs babs c) es \<Longrightarrow> \<not> IsNull h \<Longrightarrow>
      \<exists>c'. view_BatchWrite (cache_view base) c es h = Some c' \<and> cache_inv binv babs c' \<and>
        cache_abs babs c' = apply_batch es (cache_abs babs c) \<and> cache_best bbest c' = h" for es h
    using BatchWrite_correct [OF inv] by (simp add: cache_view_def)
qed

end

text \<open>What \<open>SanityCheck\<close> asserts is part of the invariant.\<close>

lemma filter_dirty_length:
  assumes "distinct (map fst xs)" "distinct ks" "set ks = {k. \<exists>e. map_of xs k = Some e \<and> IsDirty e}"
  shows "length (filter (IsDirty \<circ> snd) xs) = length ks"
proof -
  have "set (map fst (filter (IsDirty \<circ> snd) xs)) = set ks"
    using assms(1,3) by (force simp: map_of_eq_Some_iff)
  moreover have "distinct (map fst (filter (IsDirty \<circ> snd) xs))" using assms(1) by (rule distinct_map_filter)
  ultimately have "length (map fst (filter (IsDirty \<circ> snd) xs)) = length ks"
    using assms(2) by (metis distinct_card)
  then show ?thesis by simp
qed

lemma cache_inv_SanityCheck:
  assumes "cache_inv binv babs c"
  shows "SanityCheck c"
proof -
  have "length (filter (IsDirty \<circ> snd) (cacheCoins c)) = length (m_flagged c)"
    using assms by (intro filter_dirty_length)
      (auto simp: cache_inv_def dirty_at_def find_coin_def split: option.splits)
  moreover have "find_coin c k = Some e" if "(k, e) \<in> set (cacheCoins c)" for k e
    using that assms by (simp add: cache_inv_def find_coin_def)
  ultimately show ?thesis
    using assms by (fastforce simp: SanityCheck_def cache_inv_def entry_ok_def list_all_iff dirty_at_def)
qed

end
