(* ===== verification/CoinsDB.thy ===== *)
theory CoinsDB
  imports Coins
begin

text \<open>
  The coins database (\<open>txdb.cpp\<close>), the view at the bottom of every stack of caches. The key-value store
  under it is the map from outpoints to coins plus the two markers it keeps: the best block, and the pair
  of blocks between which a write is under way. A batch is written in one step; how many batches a flush
  takes depends on the size estimate of the store, which is a parameter.
\<close>

record CCoinsViewDB =
  db_coins :: utxo
  db_best_block :: "uint256 option"
  db_head_blocks :: "uint256 list option"

datatype db_batch_op =
    Erase_Best_Block | Write_Best_Block uint256 | Erase_Head_Blocks | Write_Head_Blocks "uint256 list"
  | Erase_Coin COutPoint | Write_Coin COutPoint Coin

fun apply_db_op :: "db_batch_op \<Rightarrow> CCoinsViewDB \<Rightarrow> CCoinsViewDB" where
  "apply_db_op Erase_Best_Block db = db\<lparr>db_best_block := None\<rparr>"
| "apply_db_op (Write_Best_Block h) db = db\<lparr>db_best_block := Some h\<rparr>"
| "apply_db_op Erase_Head_Blocks db = db\<lparr>db_head_blocks := None\<rparr>"
| "apply_db_op (Write_Head_Blocks hs) db = db\<lparr>db_head_blocks := Some hs\<rparr>"
| "apply_db_op (Erase_Coin k) db = db\<lparr>db_coins := (db_coins db)(k := None)\<rparr>"
| "apply_db_op (Write_Coin k x) db = db\<lparr>db_coins := (db_coins db)(k \<mapsto> x)\<rparr>"

definition WriteBatch :: "db_batch_op list \<Rightarrow> CCoinsViewDB \<Rightarrow> CCoinsViewDB" where
  "WriteBatch batch db = fold apply_db_op batch db"

definition DB_GetCoin :: "CCoinsViewDB \<Rightarrow> COutPoint \<Rightarrow> Coin option option" where
  "DB_GetCoin db outpoint = (case db_coins db outpoint of
     Some x \<Rightarrow> if IsSpent x then None else Some (Some x) | None \<Rightarrow> Some None)"

definition DB_HaveCoin :: "CCoinsViewDB \<Rightarrow> COutPoint \<Rightarrow> bool" where
  "DB_HaveCoin db outpoint \<longleftrightarrow> db_coins db outpoint \<noteq> None"

definition DB_GetBestBlock :: "CCoinsViewDB \<Rightarrow> uint256" where
  "DB_GetBestBlock db = (case db_best_block db of None \<Rightarrow> replicate 32 0 | Some h \<Rightarrow> h)"

definition GetHeadBlocks :: "CCoinsViewDB \<Rightarrow> uint256 list" where
  "GetHeadBlocks db = (case db_head_blocks db of None \<Rightarrow> [] | Some hs \<Rightarrow> hs)"

definition entry_ops :: "COutPoint \<times> CCoinsCacheEntry \<Rightarrow> db_batch_op list" where
  "entry_ops it = (if IsDirty (snd it) then
     (if IsSpent (entry_coin (snd it)) then [Erase_Coin (fst it)] else [Write_Coin (fst it) (entry_coin (snd it))])
   else [])"

text \<open>The loop returns the pending batch, the database and the states it had after each partial batch.\<close>

fun db_write_loop :: "(db_batch_op list \<Rightarrow> nat) \<Rightarrow> nat \<Rightarrow> coins_cursor \<Rightarrow> db_batch_op list \<Rightarrow> CCoinsViewDB
    \<Rightarrow> db_batch_op list \<times> CCoinsViewDB \<times> CCoinsViewDB list" where
  "db_write_loop ApproximateSize batch_write_bytes [] batch db = (batch, db, [])"
| "db_write_loop ApproximateSize batch_write_bytes (it # cursor) batch db =
     (let batch = batch @ entry_ops it in
      if ApproximateSize batch > batch_write_bytes then
        (let db = WriteBatch batch db;
             (batch', db', partial) = db_write_loop ApproximateSize batch_write_bytes cursor [] db
         in (batch', db', db # partial))
      else db_write_loop ApproximateSize batch_write_bytes cursor batch db)"

definition DB_BatchWrite :: "(db_batch_op list \<Rightarrow> nat) \<Rightarrow> nat \<Rightarrow> CCoinsViewDB \<Rightarrow> coins_cursor \<Rightarrow> uint256
    \<Rightarrow> (CCoinsViewDB \<times> CCoinsViewDB list) option" where
  "DB_BatchWrite ApproximateSize batch_write_bytes db cursor block_hash =
     (if IsNull block_hash then None
      else
        let old_tip = DB_GetBestBlock db;
            old_heads = GetHeadBlocks db;
            replaying = (IsNull old_tip \<and> length old_heads = 2)
        in if replaying \<and> old_heads ! 0 \<noteq> block_hash then None
        else
          let old_tip = (if replaying then old_heads ! 1 else old_tip);
              batch = [Erase_Best_Block, Write_Head_Blocks [block_hash, old_tip]];
              (batch, db, partial) = db_write_loop ApproximateSize batch_write_bytes cursor batch db;
              batch = batch @ [Erase_Head_Blocks, Write_Best_Block block_hash]
          in Some (WriteBatch batch db, partial))"

definition db_view :: "(db_batch_op list \<Rightarrow> nat) \<Rightarrow> nat \<Rightarrow> CCoinsViewDB CCoinsView" where
  "db_view ApproximateSize batch_write_bytes = \<lparr>
     view_GetCoin = (\<lambda>db k. map_option (\<lambda>r. (r, db)) (DB_GetCoin db k)),
     view_PeekCoin = DB_GetCoin,
     view_HaveCoin = (\<lambda>db k. Some (DB_HaveCoin db k, db)),
     view_GetBestBlock = (\<lambda>db. (DB_GetBestBlock db, db)),
     view_BatchWrite = (\<lambda>db es h. map_option fst (DB_BatchWrite ApproximateSize batch_write_bytes db es h))\<rparr>"

section \<open>Writing\<close>

definition coins_only :: "db_batch_op list \<Rightarrow> bool" where
  "coins_only ops \<longleftrightarrow> list_all (\<lambda>x. case x of Erase_Coin _ \<Rightarrow> True | Write_Coin _ _ \<Rightarrow> True | _ \<Rightarrow> False) ops"

lemma WriteBatch_append: "WriteBatch (a @ b) db = WriteBatch b (WriteBatch a db)"
  by (simp add: WriteBatch_def)

lemma entry_ops_effect:
  "WriteBatch (entry_ops it) db = db\<lparr>db_coins := apply_entry it (db_coins db)\<rparr>"
  by (simp add: WriteBatch_def entry_ops_def apply_entry_def)

text \<open>
  Whatever the batch sizes, the pending batch on top of the database always amounts to the entries seen
  so far, and the markers of a partial state are those the first batch wrote.
\<close>

lemma db_write_loop_effect:
  assumes "db_write_loop sz lim es batch db = (batch', db', partial)"
  shows "WriteBatch batch' db' = (WriteBatch batch db)\<lparr>db_coins := apply_batch es (db_coins (WriteBatch batch db))\<rparr>"
  using assms
proof (induction es arbitrary: batch db batch' db' partial)
  case (Cons it es)
  let ?b = "batch @ entry_ops it"
  have step: "WriteBatch ?b db = (WriteBatch batch db)\<lparr>db_coins := apply_entry it (db_coins (WriteBatch batch db))\<rparr>"
    by (simp add: WriteBatch_append entry_ops_effect)
  show ?case
  proof (cases "sz ?b > lim")
    case True
    then obtain p where "db_write_loop sz lim es [] (WriteBatch ?b db) = (batch', db', p)"
      using Cons.prems by (auto simp: Let_def split: prod.splits)
    from Cons.IH [OF this] show ?thesis by (simp add: step WriteBatch_def [of "[]"] apply_batch_def)
  next
    case False
    then have "db_write_loop sz lim es ?b db = (batch', db', partial)" using Cons.prems by simp
    from Cons.IH [OF this] show ?thesis by (simp add: step apply_batch_def)
  qed
qed (simp add: apply_batch_def)

lemma db_write_loop_partial:
  assumes "db_write_loop sz lim es batch db = (batch', db', partial)" "d \<in> set partial"
  shows "\<exists>es1 es2. es = es1 @ es2 \<and>
    d = (WriteBatch batch db)\<lparr>db_coins := apply_batch es1 (db_coins (WriteBatch batch db))\<rparr>"
  using assms
proof (induction es arbitrary: batch db batch' db' partial)
  case (Cons it es)
  let ?b = "batch @ entry_ops it"
  have step: "WriteBatch ?b db = (WriteBatch batch db)\<lparr>db_coins := apply_entry it (db_coins (WriteBatch batch db))\<rparr>"
    by (simp add: WriteBatch_append entry_ops_effect)
  have more: "\<exists>es1 es2. it # es = es1 @ es2 \<and>
      d = (WriteBatch batch db)\<lparr>db_coins := apply_batch es1 (db_coins (WriteBatch batch db))\<rparr>"
    if "\<exists>es1 es2. es = es1 @ es2 \<and> d = (WriteBatch ?b db)\<lparr>db_coins := apply_batch es1 (db_coins (WriteBatch ?b db))\<rparr>"
  proof -
    from that obtain es1 es2 where "es = es1 @ es2"
      "d = (WriteBatch ?b db)\<lparr>db_coins := apply_batch es1 (db_coins (WriteBatch ?b db))\<rparr>" by blast
    then show ?thesis by (intro exI [of _ "it # es1"] exI [of _ es2]) (simp add: step apply_batch_def)
  qed
  show ?case
  proof (cases "sz ?b > lim")
    case True
    then obtain p where p: "db_write_loop sz lim es [] (WriteBatch ?b db) = (batch', db', p)" "partial = WriteBatch ?b db # p"
      using Cons.prems(1) by (auto simp: Let_def split: prod.splits)
    show ?thesis
    proof (cases "d = WriteBatch ?b db")
      case True
      then show ?thesis by (intro exI [of _ "[it]"] exI [of _ es]) (simp add: step apply_batch_def)
    next
      case False
      then show ?thesis using Cons.IH [OF p(1)] Cons.prems(2) p(2) more by (simp add: WriteBatch_def [of "[]"])
    qed
  next
    case False
    then have "db_write_loop sz lim es ?b db = (batch', db', partial)" using Cons.prems by simp
    from Cons.IH [OF this Cons.prems(2)] show ?thesis by (rule more)
  qed
qed simp

text \<open>Applying a batch again on top of a part of it changes nothing.\<close>

lemma apply_batch_prefix:
  assumes ok: "batch_ok m es" and es: "es = es1 @ es2"
  shows "apply_batch es (apply_batch es1 m) = apply_batch es m"
proof
  fix k
  show "apply_batch es (apply_batch es1 m) k = apply_batch es m k"
  proof (cases "k \<in> fst ` set es")
    case True
    then obtain e where "(k, e) \<in> set es" by force
    then show ?thesis using ok by (metis batch_ok_def apply_batch_at)
  next
    case False
    then have "k \<notin> fst ` set es1" using es by auto
    then show ?thesis using False by (simp add: apply_batch_other)
  qed
qed

section \<open>The database is a view\<close>

definition db_inv :: "CCoinsViewDB \<Rightarrow> bool" where
  "db_inv db \<longleftrightarrow> (\<forall>k x. db_coins db k = Some x \<longrightarrow> \<not> IsSpent x) \<and> db_head_blocks db = None"

definition written :: "CCoinsViewDB \<Rightarrow> coins_cursor \<Rightarrow> uint256 \<Rightarrow> CCoinsViewDB" where
  "written db es h = db\<lparr>db_coins := apply_batch es (db_coins db), db_best_block := Some h, db_head_blocks := None\<rparr>"

lemma DB_BatchWrite_result:
  assumes "\<not> IsNull h" "GetHeadBlocks db = [] \<or> IsNull (DB_GetBestBlock db) \<and> GetHeadBlocks db = [h, old]"
  shows "\<exists>partial. DB_BatchWrite sz lim db es h = Some (written db es h, partial) \<and>
    (\<forall>d \<in> set partial. \<exists>es1 es2. es = es1 @ es2 \<and> db_coins d = apply_batch es1 (db_coins db) \<and> db_best_block d = None \<and>
      db_head_blocks d = Some [h, if GetHeadBlocks db = [] then DB_GetBestBlock db else old])"
proof -
  let ?old = "if GetHeadBlocks db = [] then DB_GetBestBlock db else old"
  let ?b = "[Erase_Best_Block, Write_Head_Blocks [h, ?old]]"
  obtain b' db' partial where loop: "db_write_loop sz lim es ?b db = (b', db', partial)"
    by (metis prod_cases3)
  note eff = db_write_loop_effect [OF loop]
  have "DB_BatchWrite sz lim db es h = Some (WriteBatch (b' @ [Erase_Head_Blocks, Write_Best_Block h]) db', partial)"
    using assms loop by (cases "GetHeadBlocks db = []") (simp_all add: DB_BatchWrite_def Let_def)
  moreover have "WriteBatch (b' @ [Erase_Head_Blocks, Write_Best_Block h]) db' = written db es h"
    unfolding WriteBatch_append eff by (simp add: WriteBatch_def written_def)
  ultimately show ?thesis
    using db_write_loop_partial [OF loop] by (fastforce simp: WriteBatch_def)
qed

lemma apply_batch_unspent:
  assumes "\<And>k x. m k = Some x \<Longrightarrow> \<not> IsSpent x" "apply_batch es m k = Some x"
  shows "\<not> IsSpent x"
  using assms
proof (induction es arbitrary: m)
  case (Cons e es)
  have "\<not> IsSpent y" if "apply_entry e m a = Some y" for a y
    using that Cons.prems(1) by (auto simp: apply_entry_def unspent_def split: if_splits)
  moreover have "apply_batch es (apply_entry e m) k = Some x" using Cons.prems(2) by (simp add: apply_batch_def)
  ultimately show ?case using Cons.IH by blast
qed (simp add: apply_batch_def)

lemma db_inv_written: "db_inv db \<Longrightarrow> db_inv (written db es h)"
  using apply_batch_unspent [of "db_coins db"] by (auto simp: db_inv_def written_def)

interpretation coins_db: coins_view "db_view sz lim" db_inv db_coins DB_GetBestBlock
proof
  fix db k assume inv: "db_inv db"
  show "\<exists>b'. view_GetCoin (db_view sz lim) db k = Some (db_coins db k, b') \<and> db_inv b' \<and>
      db_coins b' = db_coins db \<and> DB_GetBestBlock b' = DB_GetBestBlock db"
    using inv by (cases "db_coins db k") (auto simp: db_view_def DB_GetCoin_def db_inv_def)
  show "view_PeekCoin (db_view sz lim) db k = Some (db_coins db k)"
    using inv by (cases "db_coins db k") (auto simp: db_view_def DB_GetCoin_def db_inv_def)
  show "\<exists>b'. view_HaveCoin (db_view sz lim) db k = Some (db_coins db k \<noteq> None, b') \<and> db_inv b' \<and>
      db_coins b' = db_coins db \<and> DB_GetBestBlock b' = DB_GetBestBlock db"
    using inv by (auto simp: db_view_def DB_HaveCoin_def)
  show "\<exists>b'. view_GetBestBlock (db_view sz lim) db = (DB_GetBestBlock db, b') \<and> db_inv b' \<and>
      db_coins b' = db_coins db \<and> DB_GetBestBlock b' = DB_GetBestBlock db"
    using inv by (auto simp: db_view_def)
  show "db_coins db k = Some x \<Longrightarrow> \<not> IsSpent x" for x using inv by (simp add: db_inv_def)
  show "\<exists>b'. view_BatchWrite (db_view sz lim) db es h = Some b' \<and> db_inv b' \<and>
      db_coins b' = apply_batch es (db_coins db) \<and> DB_GetBestBlock b' = h" if "\<not> IsNull h" for es h
  proof -
    have "GetHeadBlocks db = []" using inv by (simp add: db_inv_def GetHeadBlocks_def)
    then have "view_BatchWrite (db_view sz lim) db es h = Some (written db es h)"
      using DB_BatchWrite_result [OF that, of db "[]" sz lim es] by (auto simp: db_view_def)
    then show ?thesis using db_inv_written [OF inv] by (simp add: written_def DB_GetBestBlock_def)
  qed
qed

text \<open>
  The stack the node uses: the cache \<open>CoinsTip\<close> over the database, and over it the cache a block or a
  transaction is checked in.
\<close>

interpretation coins_tip: coins_view "cache_view (db_view sz lim)" "cache_inv db_inv db_coins" "cache_abs db_coins"
  "cache_best DB_GetBestBlock"
  by (rule coins_db.cache_is_view)

section \<open>Properties\<close>

text \<open>
  C29. The coins cache implements a plain map of unspent outputs. On a cache over the database that
  satisfies its invariant: looking a coin up returns what the map has and changes nothing of it; adding a
  spendable coin updates the map at that outpoint, provided the caller allows overwriting or there is
  nothing to overwrite; spending removes the outpoint and hands out the coin that was there; every
  operation keeps the invariant, which implies everything \<open>SanityCheck\<close> asserts.
\<close>

theorem coins_cache_refines_map:
  assumes "cache_inv db_inv db_coins c"
  shows "(\<exists>c'. GetCoin (db_view sz lim) c k = Some (cache_abs db_coins c k, c') \<and>
      cache_inv db_inv db_coins c' \<and> cache_abs db_coins c' = cache_abs db_coins c) \<and>
    (\<not> IsSpent x \<and> \<not> IsUnspendable (scriptPubKey (coin_out x)) \<and> (possible_overwrite \<or> cache_abs db_coins c k = None) \<longrightarrow>
      (\<exists>c'. AddCoin k x possible_overwrite c = Some c' \<and> cache_inv db_inv db_coins c' \<and>
        cache_abs db_coins c' = (cache_abs db_coins c)(k \<mapsto> x))) \<and>
    (\<exists>r c'. SpendCoin (db_view sz lim) c k = Some (r, c') \<and> cache_inv db_inv db_coins c' \<and>
      cache_abs db_coins c' = (cache_abs db_coins c)(k := None) \<and> Option.bind r unspent = cache_abs db_coins c k) \<and>
    SanityCheck c"
  using coins_db.GetCoin_correct [OF assms, of sz lim k] coins_db.SpendCoin_correct [OF assms, of sz lim k]
    AddCoin_correct [OF assms, of x possible_overwrite k] cache_inv_SanityCheck [OF assms]
  by blast

definition example_db :: CCoinsViewDB where
  "example_db = \<lparr>db_coins = [\<lparr>op_hash = replicate 32 7, op_n = 1\<rparr> \<mapsto>
       mk_Coin \<lparr>nValue = 5000, scriptPubKey = [0x51]\<rparr> 3 False],
     db_best_block = Some (replicate 32 9), db_head_blocks = None\<rparr>"

lemma example_db_inv: "db_inv example_db"
  by (simp add: db_inv_def example_db_def mk_Coin_def IsSpent_def)

lemma example_cache_inv: "cache_inv db_inv db_coins (new_cache False example_db)"
  by (rule coins_db.inv_new_cache [OF example_db_inv])

theorem coins_cache_refines_map_witness:
  "let k = \<lparr>op_hash = replicate 32 7, op_n = 1\<rparr>; x = mk_Coin \<lparr>nValue = 5000, scriptPubKey = [0x51]\<rparr> 3 False;
       c = new_cache False example_db in
   (\<exists>c'. GetCoin (db_view length 10) c k = Some (Some x, c')) \<and>
   (\<exists>c'. AddCoin k x True c = Some c' \<and> cache_abs db_coins c' k = Some x) \<and>
   (\<exists>r c'. SpendCoin (db_view length 10) c k = Some (r, c') \<and> cache_abs db_coins c' k = None) \<and> SanityCheck c"
proof -
  let ?k = "\<lparr>op_hash = replicate 32 7, op_n = 1\<rparr> :: COutPoint"
  let ?x = "mk_Coin \<lparr>nValue = 5000, scriptPubKey = [0x51]\<rparr> 3 False"
  let ?c = "new_cache False example_db"
  note ok = coins_cache_refines_map [OF example_cache_inv, of length 10 ?k ?x True]
  have x: "\<not> IsSpent ?x" "\<not> IsUnspendable (scriptPubKey (coin_out ?x))"
    by (simp_all add: mk_Coin_def IsSpent_def IsUnspendable_def OP_RETURN_def MAX_SCRIPT_SIZE_def)
  have at: "cache_abs db_coins ?c ?k = Some ?x" by (simp add: coins_db.abs_new_cache example_db_def)
  show ?thesis unfolding Let_def using ok x at by (metis fun_upd_same)
qed

text \<open>
  C30. Flushing a cache to the database makes the database hold exactly the map the cache stood for and
  the best block of the cache; the cache comes out empty, still satisfies its invariant and stands for the
  same map. \<open>Sync\<close> does the same and leaves no entry dirty.
\<close>

theorem flush_writes_cache:
  assumes "cache_inv db_inv db_coins c" "\<not> IsNull (m_block_hash c)"
  shows "(\<exists>c'. Flush (db_view sz lim) c = Some c' \<and> cache_inv db_inv db_coins c' \<and> cacheCoins c' = [] \<and>
      db_coins (cache_base c') = cache_abs db_coins c \<and> cache_abs db_coins c' = cache_abs db_coins c \<and>
      DB_GetBestBlock (cache_base c') = m_block_hash c) \<and>
    (\<exists>c'. Sync (db_view sz lim) c = Some c' \<and> cache_inv db_inv db_coins c' \<and> m_dirty_count c' = 0 \<and>
      db_coins (cache_base c') = cache_abs db_coins c \<and> cache_abs db_coins c' = cache_abs db_coins c \<and>
      DB_GetBestBlock (cache_base c') = m_block_hash c)"
  by (rule conjI [OF coins_db.Flush_correct [OF assms] coins_db.Sync_correct [OF assms]])

lemma example_cache_hash: "cache_inv db_inv db_coins (SetBestBlock (replicate 32 5) (new_cache False example_db))"
  using example_cache_inv by (simp add: SetBestBlock_def coins_db.inv_block_hash)

theorem flush_writes_cache_witness:
  "\<exists>c'. Flush (db_view length 10) (SetBestBlock (replicate 32 5) (new_cache False example_db)) = Some c' \<and>
    db_coins (cache_base c') = db_coins example_db \<and> DB_GetBestBlock (cache_base c') = replicate 32 5"
proof -
  let ?c = "SetBestBlock (replicate 32 5) (new_cache False example_db)"
  have "m_block_hash ?c = replicate 32 5" "\<not> IsNull (replicate 32 5)"
    by (simp_all add: SetBestBlock_def IsNull_def list_all_iff)
  moreover have "cache_abs db_coins ?c = db_coins example_db"
    by (simp add: SetBestBlock_def coins_db.inv_block_hash coins_db.abs_new_cache)
  ultimately show ?thesis using flush_writes_cache [OF example_cache_hash, of length 10] by metis
qed

text \<open>
  C31. A flush that is cut off between two of its batches is repaired by repeating it. Every state the
  database passes through carries the marker of the unfinished write, the new and the old best block, and
  no best block; writing the same batch again from such a state is accepted and ends in the same database
  as the uninterrupted flush, whatever the sizes of the batches.
\<close>

theorem interrupted_flush_replays:
  assumes "db_inv db" "\<not> IsNull h" "batch_ok (db_coins db) es"
  shows "\<exists>partial. DB_BatchWrite sz lim db es h = Some (written db es h, partial) \<and>
    (\<forall>d \<in> set partial. db_best_block d = None \<and> db_head_blocks d = Some [h, DB_GetBestBlock db] \<and>
      (\<exists>p. DB_BatchWrite sz' lim' d es h = Some (written db es h, p)))"
proof -
  have heads: "GetHeadBlocks db = []" using assms(1) by (simp add: db_inv_def GetHeadBlocks_def)
  obtain partial where p: "DB_BatchWrite sz lim db es h = Some (written db es h, partial)"
    "\<And>d. d \<in> set partial \<Longrightarrow> \<exists>es1 es2. es = es1 @ es2 \<and> db_coins d = apply_batch es1 (db_coins db) \<and>
      db_best_block d = None \<and> db_head_blocks d = Some [h, DB_GetBestBlock db]"
    using DB_BatchWrite_result [OF assms(2), of db "[]" sz lim es] heads by auto
  have "\<exists>p. DB_BatchWrite sz' lim' d es h = Some (written db es h, p)" if d: "d \<in> set partial" for d
  proof -
    obtain es1 es2 where e: "es = es1 @ es2" "db_coins d = apply_batch es1 (db_coins db)"
      and m: "db_best_block d = None" "db_head_blocks d = Some [h, DB_GetBestBlock db]"
      using p(2) [OF d] by blast
    have "IsNull (DB_GetBestBlock d)" "GetHeadBlocks d = [h, DB_GetBestBlock db]"
      using m by (simp_all add: DB_GetBestBlock_def GetHeadBlocks_def IsNull_def list_all_iff)
    then have "\<exists>p. DB_BatchWrite sz' lim' d es h = Some (written d es h, p)"
      using DB_BatchWrite_result [OF assms(2), of d "DB_GetBestBlock db" sz' lim' es] by blast
    moreover have "written d es h = written db es h"
      using apply_batch_prefix [OF assms(3) e(1)] e(2) by (simp add: written_def)
    ultimately show ?thesis by simp
  qed
  then show ?thesis using p by blast
qed

definition example_cursor :: coins_cursor where
  "example_cursor =
     [(\<lparr>op_hash = replicate 32 7, op_n = 1\<rparr>, \<lparr>entry_coin = coinEmpty, IsDirty = True, IsFresh = False\<rparr>),
      (\<lparr>op_hash = replicate 32 8, op_n = 0\<rparr>,
       \<lparr>entry_coin = mk_Coin \<lparr>nValue = 10, scriptPubKey = []\<rparr> 4 True, IsDirty = True, IsFresh = True\<rparr>)]"

theorem interrupted_flush_replays_witness:
  "\<exists>partial. DB_BatchWrite length 0 example_db example_cursor (replicate 32 5)
      = Some (written example_db example_cursor (replicate 32 5), partial) \<and>
    (\<forall>d \<in> set partial. db_best_block d = None \<and> (\<exists>p. DB_BatchWrite length 0 d example_cursor (replicate 32 5)
      = Some (written example_db example_cursor (replicate 32 5), p)))"
proof -
  have "batch_ok (db_coins example_db) example_cursor"
    by (simp add: batch_ok_def example_db_def example_cursor_def mk_Coin_def IsSpent_def)
  moreover have "\<not> IsNull (replicate 32 5)" by (simp add: IsNull_def list_all_iff)
  ultimately show ?thesis
    using interrupted_flush_replays [OF example_db_inv, of "replicate 32 5" example_cursor length 0 length 0] by blast
qed

end
