(* ===== verification/TxVerify.thy ===== *)
theory TxVerify
  imports TxCheck CoinsDB Chain
begin

text \<open>
  Transaction checks that depend on the chain and on the coins spent (\<open>consensus/tx_verify.cpp\<close>): lock
  times, relative lock times (BIP 68), the values and maturity of the inputs and the signature operations. The block a transaction is
  checked for is given by its key in the block index.
\<close>

definition COINBASE_MATURITY :: int where "COINBASE_MATURITY = 1"

definition LOCKTIME_THRESHOLD :: int where "LOCKTIME_THRESHOLD = 500000000"

definition LOCKTIME_VERIFY_SEQUENCE :: "32 word" where "LOCKTIME_VERIFY_SEQUENCE = 1"

definition SEQUENCE_FINAL :: "32 word" where "SEQUENCE_FINAL = 0xffffffff"

definition SEQUENCE_LOCKTIME_DISABLE_FLAG :: "32 word" where "SEQUENCE_LOCKTIME_DISABLE_FLAG = push_bit 31 1"

definition SEQUENCE_LOCKTIME_TYPE_FLAG :: "32 word" where "SEQUENCE_LOCKTIME_TYPE_FLAG = push_bit 22 1"

definition SEQUENCE_LOCKTIME_MASK :: "32 word" where "SEQUENCE_LOCKTIME_MASK = 0x0000ffff"

definition SEQUENCE_LOCKTIME_GRANULARITY :: nat where "SEQUENCE_LOCKTIME_GRANULARITY = 9"

section \<open>Lock times\<close>

definition IsFinalTx :: "CTransaction \<Rightarrow> int \<Rightarrow> int \<Rightarrow> bool" where
  "IsFinalTx tx nBlockHeight nBlockTime =
     (if nLockTime tx = 0 then True
      else if uint (nLockTime tx) < (if uint (nLockTime tx) < LOCKTIME_THRESHOLD then nBlockHeight else nBlockTime) then True
      else list_all (\<lambda>txin. nSequence txin = SEQUENCE_FINAL) (vin tx))"

text \<open>The loop also rewrites the heights it is given: an input whose lock is disabled counts from height 0.\<close>

fun sequence_locks_loop :: "block_map \<Rightarrow> uint256 \<Rightarrow> CTxIn list \<Rightarrow> int list \<Rightarrow> int \<times> int \<Rightarrow> ((int \<times> int) \<times> int list) option" where
  "sequence_locks_loop m block (txin # ins) (nCoinHeight # heights) (nMinHeight, nMinTime) =
     (if nSequence txin AND SEQUENCE_LOCKTIME_DISABLE_FLAG \<noteq> 0 then do {
        (r, hs) \<leftarrow> sequence_locks_loop m block ins heights (nMinHeight, nMinTime);
        Some (r, 0 # hs)
      } else if nSequence txin AND SEQUENCE_LOCKTIME_TYPE_FLAG \<noteq> 0 then do {
        ancestor \<leftarrow> GetAncestor m block (max (nCoinHeight - 1) 0);
        p \<leftarrow> ancestor;
        nCoinTime \<leftarrow> GetMedianTimePast m p;
        let lock = nCoinTime + uint (push_bit SEQUENCE_LOCKTIME_GRANULARITY (nSequence txin AND SEQUENCE_LOCKTIME_MASK)) - 1;
        (r, hs) \<leftarrow> sequence_locks_loop m block ins heights (nMinHeight, max nMinTime lock);
        Some (r, nCoinHeight # hs)
      } else do {
        let lock = nCoinHeight + uint (nSequence txin AND SEQUENCE_LOCKTIME_MASK) - 1;
        (r, hs) \<leftarrow> sequence_locks_loop m block ins heights (max nMinHeight lock, nMinTime);
        Some (r, nCoinHeight # hs)
      })"
| "sequence_locks_loop m block ins heights mins = Some (mins, heights)"

definition CalculateSequenceLocks :: "block_map \<Rightarrow> CTransaction \<Rightarrow> 32 word \<Rightarrow> int list \<Rightarrow> uint256 \<Rightarrow> ((int \<times> int) \<times> int list) option" where
  "CalculateSequenceLocks m tx flags prevHeights block =
     (if length prevHeights \<noteq> length (vin tx) then None
      else
        let fEnforceBIP68 = (version tx \<ge> 2 \<and> flags AND LOCKTIME_VERIFY_SEQUENCE \<noteq> 0) in
        if \<not> fEnforceBIP68 then Some ((-1, -1), prevHeights)
        else sequence_locks_loop m block (vin tx) prevHeights (-1, -1))"

definition EvaluateSequenceLocks :: "block_map \<Rightarrow> uint256 \<Rightarrow> int \<times> int \<Rightarrow> bool option" where
  "EvaluateSequenceLocks m block lockPair = do {
     b \<leftarrow> m block;
     p \<leftarrow> pprev b;
     nBlockTime \<leftarrow> GetMedianTimePast m p;
     Some (\<not> (fst lockPair \<ge> int (nHeight b) \<or> snd lockPair \<ge> nBlockTime))
   }"

definition SequenceLocks :: "block_map \<Rightarrow> CTransaction \<Rightarrow> 32 word \<Rightarrow> int list \<Rightarrow> uint256 \<Rightarrow> bool option" where
  "SequenceLocks m tx flags prevHeights block = do {
     (lockPair, prevHeights) \<leftarrow> CalculateSequenceLocks m tx flags prevHeights block;
     EvaluateSequenceLocks m block lockPair
   }"

section \<open>The inputs\<close>

fun check_inputs_loop :: "'b CCoinsView \<Rightarrow> int \<Rightarrow> CAmount \<Rightarrow> CTxIn list \<Rightarrow> 'b CCoinsViewCache
    \<Rightarrow> (CAmount tx_validated \<times> 'b CCoinsViewCache) option" where
  "check_inputs_loop base nSpendHeight nValueIn [] inputs = Some (Inr nValueIn, inputs)"
| "check_inputs_loop base nSpendHeight nValueIn (txin # ins) inputs = do {
     (x, inputs) \<leftarrow> AccessCoin base inputs (prevout txin);
     if IsSpent x then None
     else if fCoinBase x \<and> nSpendHeight - uint (coin_nHeight x) < COINBASE_MATURITY
       then Some (Inl (TX_PREMATURE_SPEND, ''bad-txns-premature-spend-of-coinbase''), inputs)
     else let nValueIn = nValueIn + nValue (coin_out x) in
       if \<not> MoneyRange (nValue (coin_out x)) \<or> \<not> MoneyRange nValueIn
         then Some (Inl (TX_CONSENSUS, ''bad-txns-inputvalues-outofrange''), inputs)
       else check_inputs_loop base nSpendHeight nValueIn ins inputs
   }"

definition CheckTxInputs :: "'b CCoinsView \<Rightarrow> CTransaction \<Rightarrow> 'b CCoinsViewCache \<Rightarrow> int
    \<Rightarrow> (CAmount tx_validated \<times> 'b CCoinsViewCache) option" where
  "CheckTxInputs base tx inputs nSpendHeight = do {
     (have_them, inputs) \<leftarrow> HaveInputs base inputs tx;
     if \<not> have_them then Some (Inl (TX_MISSING_INPUTS, ''bad-txns-inputs-missingorspent''), inputs)
     else do {
       (r, inputs) \<leftarrow> check_inputs_loop base nSpendHeight 0 (vin tx) inputs;
       case r of
         Inl e \<Rightarrow> Some (Inl e, inputs)
       | Inr nValueIn \<Rightarrow> do {
           value_out \<leftarrow> GetValueOut tx;
           if nValueIn < value_out then Some (Inl (TX_CONSENSUS, ''bad-txns-in-belowout''), inputs)
           else if \<not> MoneyRange (nValueIn - value_out) then Some (Inl (TX_CONSENSUS, ''bad-txns-fee-outofrange''), inputs)
           else Some (Inr (nValueIn - value_out), inputs)
         }
     }
   }"

section \<open>Signature operations\<close>

fun add_sigops :: "byte list list \<Rightarrow> 32 word \<Rightarrow> 32 word option" where
  "add_sigops [] nSigOps = Some nSigOps"
| "add_sigops (script # scripts) nSigOps = do {
     n \<leftarrow> GetSigOpCount False script;
     add_sigops scripts (nSigOps + n)
   }"

definition GetLegacySigOpCount :: "CTransaction \<Rightarrow> 32 word option" where
  "GetLegacySigOpCount tx = do {
     nSigOps \<leftarrow> add_sigops (map scriptSig (vin tx)) 0;
     add_sigops (map scriptPubKey (vout tx)) nSigOps
   }"

fun p2sh_sigops_loop :: "'b CCoinsView \<Rightarrow> CTxIn list \<Rightarrow> 32 word \<Rightarrow> 'b CCoinsViewCache \<Rightarrow> (32 word \<times> 'b CCoinsViewCache) option" where
  "p2sh_sigops_loop base [] nSigOps inputs = Some (nSigOps, inputs)"
| "p2sh_sigops_loop base (txin # ins) nSigOps inputs = do {
     (x, inputs) \<leftarrow> AccessCoin base inputs (prevout txin);
     if IsSpent x then None
     else do {
       n \<leftarrow> (if IsPayToScriptHash (scriptPubKey (coin_out x))
            then GetSigOpCount_p2sh (scriptPubKey (coin_out x)) (scriptSig txin) else Some 0);
       p2sh_sigops_loop base ins (nSigOps + n) inputs
     }
   }"

definition GetP2SHSigOpCount :: "'b CCoinsView \<Rightarrow> CTransaction \<Rightarrow> 'b CCoinsViewCache \<Rightarrow> (32 word \<times> 'b CCoinsViewCache) option" where
  "GetP2SHSigOpCount base tx inputs = (if IsCoinBase tx then Some (0, inputs) else p2sh_sigops_loop base (vin tx) 0 inputs)"

fun witness_sigops_loop :: "'b CCoinsView \<Rightarrow> bool \<Rightarrow> bool \<Rightarrow> CTxIn list \<Rightarrow> int \<Rightarrow> 'b CCoinsViewCache \<Rightarrow> (int \<times> 'b CCoinsViewCache) option" where
  "witness_sigops_loop base verify_p2sh verify_witness [] nSigOps inputs = Some (nSigOps, inputs)"
| "witness_sigops_loop base verify_p2sh verify_witness (txin # ins) nSigOps inputs = do {
     (x, inputs) \<leftarrow> AccessCoin base inputs (prevout txin);
     if IsSpent x then None
     else do {
       n \<leftarrow> CountWitnessSigOps (scriptSig txin) (scriptPubKey (coin_out x)) (scriptWitness txin) verify_p2sh verify_witness;
       witness_sigops_loop base verify_p2sh verify_witness ins (nSigOps + int n) inputs
     }
   }"

text \<open>The flags are the two of them that the function looks at, \<open>SCRIPT_VERIFY_P2SH\<close> and \<open>SCRIPT_VERIFY_WITNESS\<close>.\<close>

definition GetTransactionSigOpCost :: "'b CCoinsView \<Rightarrow> CTransaction \<Rightarrow> bool \<Rightarrow> bool \<Rightarrow> 'b CCoinsViewCache
    \<Rightarrow> (int \<times> 'b CCoinsViewCache) option" where
  "GetTransactionSigOpCost base tx verify_p2sh verify_witness inputs = do {
     legacy \<leftarrow> GetLegacySigOpCount tx;
     if IsCoinBase tx then Some (uint (legacy * of_nat WITNESS_SCALE_FACTOR), inputs)
     else do {
       (p2sh, inputs) \<leftarrow> (if verify_p2sh then GetP2SHSigOpCount base tx inputs else Some (0, inputs));
       witness_sigops_loop base verify_p2sh verify_witness (vin tx)
         (uint (legacy * of_nat WITNESS_SCALE_FACTOR) + uint (p2sh * of_nat WITNESS_SCALE_FACTOR)) inputs
     }
   }"

section \<open>Correctness of the input checks\<close>

definition mature :: "int \<Rightarrow> Coin \<Rightarrow> bool" where
  "mature nSpendHeight x \<longleftrightarrow> fCoinBase x \<longrightarrow> nSpendHeight - uint (coin_nHeight x) \<ge> COINBASE_MATURITY"

definition spent_coins :: "utxo \<Rightarrow> CTxIn list \<Rightarrow> Coin list" where
  "spent_coins u ins = map (\<lambda>i. the (u (prevout i))) ins"

definition inputs_ok :: "utxo \<Rightarrow> int \<Rightarrow> CTxIn list \<Rightarrow> bool" where
  "inputs_ok u nSpendHeight ins \<longleftrightarrow>
     list_all (\<lambda>x. mature nSpendHeight x \<and> MoneyRange (nValue (coin_out x))) (spent_coins u ins)"

definition value_in :: "utxo \<Rightarrow> CTxIn list \<Rightarrow> CAmount" where
  "value_in u ins = sum_list (map (nValue \<circ> coin_out) (spent_coins u ins))"

lemma add_sigops_total: "add_sigops scripts n \<noteq> None"
proof (induction scripts arbitrary: n)
  case (Cons script scripts)
  then show ?case using GetSigOpCount_total [of False script] by auto
qed simp

lemma GetLegacySigOpCount_total: "GetLegacySigOpCount tx \<noteq> None"
proof -
  obtain n where "add_sigops (map scriptSig (vin tx)) 0 = Some n" using add_sigops_total by blast
  then show ?thesis using add_sigops_total by (simp add: GetLegacySigOpCount_def)
qed

lemma value_in_nonneg: "inputs_ok u h ins \<Longrightarrow> 0 \<le> value_in u ins"
  unfolding value_in_def by (rule sum_list_nonneg) (auto simp: inputs_ok_def list_all_iff MoneyRange_def)

context coins_reader
begin

lemma have_inputs_loop_correct:
  assumes "cache_inv binv babs c"
  shows "\<exists>c'. have_inputs_loop base ins c = Some (list_all (\<lambda>i. cache_abs babs c (prevout i) \<noteq> None) ins, c') \<and>
    cache_inv binv babs c' \<and> cache_abs babs c' = cache_abs babs c"
  using assms
proof (induction ins arbitrary: c)
  case (Cons i ins)
  obtain c1 where c1: "HaveCoin base c (prevout i) = Some (cache_abs babs c (prevout i) \<noteq> None, c1)"
    "cache_inv binv babs c1" "cache_abs babs c1 = cache_abs babs c"
    using HaveCoin_correct [OF Cons.prems] by metis
  then show ?case using Cons.IH [OF c1(2)] by (cases "cache_abs babs c (prevout i)") auto
qed simp

lemma check_inputs_loop_correct:
  assumes "cache_inv binv babs c" "list_all (\<lambda>i. cache_abs babs c (prevout i) \<noteq> None) ins" "MoneyRange a"
  shows "\<exists>r c'. check_inputs_loop base h a ins c = Some (r, c') \<and> cache_inv binv babs c' \<and>
    cache_abs babs c' = cache_abs babs c \<and>
    (\<forall>v. r = Inr v \<longleftrightarrow> inputs_ok (cache_abs babs c) h ins \<and> a + value_in (cache_abs babs c) ins \<le> MAX_MONEY \<and>
      v = a + value_in (cache_abs babs c) ins)"
  using assms
proof (induction ins arbitrary: c a)
  case Nil
  then show ?case by (auto simp: inputs_ok_def value_in_def spent_coins_def MoneyRange_def)
next
  case (Cons i ins)
  obtain x c1 where c1: "AccessCoin base c (prevout i) = Some (x, c1)" "unspent x = cache_abs babs c (prevout i)"
    "cache_inv binv babs c1" "cache_abs babs c1 = cache_abs babs c"
    using AccessCoin_correct [OF Cons.prems(1), of "prevout i"] by blast
  have x: "\<not> IsSpent x" "cache_abs babs c (prevout i) = Some x"
    using c1(2) Cons.prems(2) by (auto simp: unspent_def split: if_splits)
  let ?u = "cache_abs babs c"
  have split: "inputs_ok ?u h (i # ins) \<longleftrightarrow> mature h x \<and> MoneyRange (nValue (coin_out x)) \<and> inputs_ok ?u h ins"
    "value_in ?u (i # ins) = nValue (coin_out x) + value_in ?u ins"
    using x(2) by (simp_all add: inputs_ok_def value_in_def spent_coins_def)
  show ?case
  proof (cases "mature h x \<and> MoneyRange (nValue (coin_out x)) \<and> MoneyRange (a + nValue (coin_out x))")
    case True
    then have "check_inputs_loop base h a (i # ins) c = check_inputs_loop base h (a + nValue (coin_out x)) ins c1"
      using c1(1) x(1) by (auto simp: mature_def Let_def)
    then show ?thesis
      using Cons.IH [OF c1(3), of "a + nValue (coin_out x)"] Cons.prems(2) True c1(4) split by (simp add: add.assoc)
  next
    case False
    then have "\<exists>e. check_inputs_loop base h a (i # ins) c = Some (Inl e, c1)"
      using c1(1) x(1) by (cases "mature h x") (auto simp: mature_def Let_def not_less)
    then obtain e where e: "check_inputs_loop base h a (i # ins) c = Some (Inl e, c1)" by blast
    have "\<not> (inputs_ok ?u h (i # ins) \<and> a + value_in ?u (i # ins) \<le> MAX_MONEY)"
      using False Cons.prems(3) value_in_nonneg [of ?u h ins] by (auto simp: split MoneyRange_def)
    then show ?thesis using e c1(3,4) by auto
  qed
qed

lemma CheckTxInputs_correct:
  assumes "cache_inv binv babs c" "\<not> IsCoinBase tx" "GetValueOut tx = Some out"
  shows "\<exists>r c'. CheckTxInputs base tx c h = Some (r, c') \<and> cache_inv binv babs c' \<and>
    cache_abs babs c' = cache_abs babs c \<and>
    (\<forall>fee. r = Inr fee \<longleftrightarrow> list_all (\<lambda>i. cache_abs babs c (prevout i) \<noteq> None) (vin tx) \<and>
      inputs_ok (cache_abs babs c) h (vin tx) \<and> value_in (cache_abs babs c) (vin tx) \<le> MAX_MONEY \<and>
      out \<le> value_in (cache_abs babs c) (vin tx) \<and> fee = value_in (cache_abs babs c) (vin tx) - out)"
proof -
  let ?u = "cache_abs babs c"
  obtain c1 where c1: "HaveInputs base c tx = Some (list_all (\<lambda>i. ?u (prevout i) \<noteq> None) (vin tx), c1)"
    "cache_inv binv babs c1" "cache_abs babs c1 = ?u"
    using have_inputs_loop_correct [OF assms(1), of "vin tx"] assms(2) by (auto simp: HaveInputs_def)
  show ?thesis
  proof (cases "list_all (\<lambda>i. ?u (prevout i) \<noteq> None) (vin tx)")
    case False
    then show ?thesis using c1 by (auto simp: CheckTxInputs_def)
  next
    case True
    then obtain r c2 where c2: "check_inputs_loop base h 0 (vin tx) c1 = Some (r, c2)" "cache_inv binv babs c2"
      "cache_abs babs c2 = ?u"
      "\<And>v. r = Inr v \<longleftrightarrow> inputs_ok ?u h (vin tx) \<and> value_in ?u (vin tx) \<le> MAX_MONEY \<and> v = value_in ?u (vin tx)"
      using check_inputs_loop_correct [OF c1(2), of "vin tx" 0 h] c1(3) by auto
    have out: "0 \<le> out" using GetValueOut_range [OF assms(3)] by (simp add: MoneyRange_def)
    show ?thesis
    proof (cases r)
      case (Inl e)
      then show ?thesis using True c1(1) c2 by (auto simp: CheckTxInputs_def)
    next
      case (Inr v)
      then have v: "inputs_ok ?u h (vin tx)" "value_in ?u (vin tx) \<le> MAX_MONEY" "v = value_in ?u (vin tx)"
        using c2(4) by auto
      then show ?thesis
        using True c1(1) c2(1-3) Inr assms(3) out by (auto simp: CheckTxInputs_def MoneyRange_def)
    qed
  qed
qed

lemma AccessCoin_present:
  assumes "cache_inv binv babs c" "cache_abs babs c k \<noteq> None"
  shows "\<exists>x c'. AccessCoin base c k = Some (x, c') \<and> cache_abs babs c k = Some x \<and> \<not> IsSpent x \<and>
    cache_inv binv babs c' \<and> cache_abs babs c' = cache_abs babs c"
proof -
  obtain x c' where "AccessCoin base c k = Some (x, c')" "unspent x = cache_abs babs c k"
    "cache_inv binv babs c'" "cache_abs babs c' = cache_abs babs c"
    using AccessCoin_correct [OF assms(1), of k] by blast
  then show ?thesis using assms(2) by (auto simp: unspent_def split: if_splits)
qed

lemma p2sh_sigops_loop_total:
  assumes "cache_inv binv babs c" "list_all (\<lambda>i. cache_abs babs c (prevout i) \<noteq> None) ins"
  shows "\<exists>n' c'. p2sh_sigops_loop base ins n c = Some (n', c') \<and> cache_inv binv babs c' \<and> cache_abs babs c' = cache_abs babs c"
  using assms
proof (induction ins arbitrary: n c)
  case (Cons i ins)
  obtain x c1 where c1: "AccessCoin base c (prevout i) = Some (x, c1)" "\<not> IsSpent x" "cache_inv binv babs c1"
    "cache_abs babs c1 = cache_abs babs c"
    using AccessCoin_present [OF Cons.prems(1), of "prevout i"] Cons.prems(2) by auto
  obtain k where "(if IsPayToScriptHash (scriptPubKey (coin_out x))
      then GetSigOpCount_p2sh (scriptPubKey (coin_out x)) (scriptSig i) else Some 0) = Some k"
    using GetSigOpCount_p2sh_total [of "scriptPubKey (coin_out x)" "scriptSig i"] by (metis option.exhaust)
  then show ?case using Cons.IH [OF c1(3), of "n + k"] c1 Cons.prems(2) by simp
qed simp

lemma witness_sigops_loop_total:
  assumes "cache_inv binv babs c" "list_all (\<lambda>i. cache_abs babs c (prevout i) \<noteq> None) ins" "p2sh"
  shows "\<exists>n' c'. witness_sigops_loop base p2sh w ins n c = Some (n', c') \<and> cache_inv binv babs c' \<and> cache_abs babs c' = cache_abs babs c"
  using assms(1,2)
proof (induction ins arbitrary: n c)
  case (Cons i ins)
  obtain x c1 where c1: "AccessCoin base c (prevout i) = Some (x, c1)" "\<not> IsSpent x" "cache_inv binv babs c1"
    "cache_abs babs c1 = cache_abs babs c"
    using AccessCoin_present [OF Cons.prems(1), of "prevout i"] Cons.prems(2) by auto
  obtain k where "CountWitnessSigOps (scriptSig i) (scriptPubKey (coin_out x)) (scriptWitness i) p2sh w = Some k"
    using CountWitnessSigOps_total [OF assms(3)] by blast
  then show ?case using Cons.IH [OF c1(3), of "n + int k"] c1 Cons.prems(2) by simp
qed simp

lemma GetTransactionSigOpCost_total:
  assumes "cache_inv binv babs c" "\<not> IsCoinBase tx \<Longrightarrow> list_all (\<lambda>i. cache_abs babs c (prevout i) \<noteq> None) (vin tx)" "p2sh"
  shows "\<exists>n c'. GetTransactionSigOpCost base tx p2sh w c = Some (n, c') \<and> cache_inv binv babs c' \<and> cache_abs babs c' = cache_abs babs c"
proof -
  obtain k where k: "GetLegacySigOpCount tx = Some k" using GetLegacySigOpCount_total by blast
  show ?thesis
  proof (cases "IsCoinBase tx")
    case True
    then show ?thesis using k assms(1) by (simp add: GetTransactionSigOpCost_def)
  next
    case False
    obtain n c1 where c1: "p2sh_sigops_loop base (vin tx) 0 c = Some (n, c1)" "cache_inv binv babs c1"
      "cache_abs babs c1 = cache_abs babs c"
      using p2sh_sigops_loop_total [OF assms(1,2)] False by blast
    then show ?thesis
      using witness_sigops_loop_total [OF c1(2), of "vin tx" p2sh w] assms(2,3) False k
      by (simp add: GetTransactionSigOpCost_def GetP2SHSigOpCount_def)
  qed
qed

end

text \<open>
  C33. For a transaction that passed the context-free checks and is no coinbase, checking its inputs
  against a coins cache never fails an assertion nor throws, and leaves the unspent outputs as they were. It
  succeeds exactly when every input is unspent, every coinbase among them is mature, every value and
  the total are in range and the outputs do not exceed the inputs; the fee it returns is then the difference,
  so that no value is created.
\<close>

theorem check_tx_inputs_conserves:
  assumes "CheckTransaction tx = Inr ()" "\<not> IsCoinBase tx" "cache_inv db_inv db_coins c"
  shows "\<exists>r c'. CheckTxInputs (db_view sz lim) tx c h = Some (r, c') \<and> cache_inv db_inv db_coins c' \<and>
    cache_abs db_coins c' = cache_abs db_coins c \<and>
    (\<forall>fee. r = Inr fee \<longleftrightarrow> list_all (\<lambda>i. cache_abs db_coins c (prevout i) \<noteq> None) (vin tx) \<and>
      inputs_ok (cache_abs db_coins c) h (vin tx) \<and> value_in (cache_abs db_coins c) (vin tx) \<le> MAX_MONEY \<and>
      sum_list (map nValue (vout tx)) \<le> value_in (cache_abs db_coins c) (vin tx) \<and>
      fee = value_in (cache_abs db_coins c) (vin tx) - sum_list (map nValue (vout tx)))"
proof -
  have "GetValueOut tx = Some (sum_list (map nValue (vout tx)))"
    using CheckTransaction_InrD(3) [OF assms(1)] GetValueOut_eq [of tx] by (metis option.distinct(1))
  from coins_db.CheckTxInputs_correct [OF assms(3,2) this] show ?thesis .
qed

lemma example_tx_check: "CheckTransaction example_tx = Inr ()"
proof -
  have "length (SerializeTransaction False example_tx) \<le> 200"
    by (simp add: example_tx_def SerializeTransaction_def ser_vector_def WriteCompactSize_def ser_txin_def ser_txout_def
        ser_outpoint_def ser_uint256_def ser_byte_vector_def ser_writedata32_def ser_writedata8_def ser_i64_def
        ser_writedata64_def)
  then show ?thesis
    by (simp add: CheckTransaction_def example_tx_def WITNESS_SCALE_FACTOR_def MAX_BLOCK_WEIGHT_def MoneyRange_def
        MAX_MONEY_def COIN_def IsCoinBase_def OutPoint_IsNull_def IsNull_def list_all_iff)
qed

theorem check_tx_inputs_conserves_witness:
  "\<exists>r c'. CheckTxInputs (db_view length 10) example_tx (new_cache False example_db) 7 = Some (r, c') \<and> r = Inr 0"
proof -
  have "\<not> IsCoinBase example_tx"
    by (simp add: example_tx_def IsCoinBase_def OutPoint_IsNull_def IsNull_def list_all_iff)
  from check_tx_inputs_conserves [OF example_tx_check this example_cache_inv, of length 10 7]
  obtain r c' where "CheckTxInputs (db_view length 10) example_tx (new_cache False example_db) 7 = Some (r, c')"
    and r: "\<And>fee. r = Inr fee \<longleftrightarrow> list_all (\<lambda>i. db_coins example_db (prevout i) \<noteq> None) (vin example_tx) \<and>
      inputs_ok (db_coins example_db) 7 (vin example_tx) \<and> value_in (db_coins example_db) (vin example_tx) \<le> MAX_MONEY \<and>
      sum_list (map nValue (vout example_tx)) \<le> value_in (db_coins example_db) (vin example_tx) \<and>
      fee = value_in (db_coins example_db) (vin example_tx) - sum_list (map nValue (vout example_tx))"
    unfolding coins_db.abs_new_cache by blast
  moreover have "r = Inr 0"
    unfolding r by (simp add: example_tx_def example_db_def inputs_ok_def value_in_def spent_coins_def mk_Coin_def mature_def
        MoneyRange_def MAX_MONEY_def COIN_def)
  ultimately show ?thesis by blast
qed

section \<open>Correctness of the relative lock times\<close>

text \<open>What one input asks for, given the block's height and the median time before it.\<close>

definition input_unlocked :: "block_map \<Rightarrow> uint256 \<Rightarrow> CBlockIndex \<Rightarrow> int \<Rightarrow> CTxIn \<times> int \<Rightarrow> bool" where
  "input_unlocked m block b nBlockTime ih \<longleftrightarrow> (case ih of (txin, h) \<Rightarrow>
     if nSequence txin AND SEQUENCE_LOCKTIME_DISABLE_FLAG \<noteq> 0 then True
     else if nSequence txin AND SEQUENCE_LOCKTIME_TYPE_FLAG \<noteq> 0 then
       (case GetAncestor m block (max (h - 1) 0) of
          Some (Some p) \<Rightarrow> the (GetMedianTimePast m p) + uint (nSequence txin AND SEQUENCE_LOCKTIME_MASK) * 512 \<le> nBlockTime
        | _ \<Rightarrow> False)
     else h + uint (nSequence txin AND SEQUENCE_LOCKTIME_MASK) \<le> int (nHeight b))"

lemma granularity:
  "uint (push_bit SEQUENCE_LOCKTIME_GRANULARITY (w AND SEQUENCE_LOCKTIME_MASK)) = uint (w AND SEQUENCE_LOCKTIME_MASK) * 512"
proof -
  have "w AND SEQUENCE_LOCKTIME_MASK = take_bit 16 w"
    by (simp add: SEQUENCE_LOCKTIME_MASK_def take_bit_eq_mask mask_eq_exp_minus_1)
  then have "uint (w AND SEQUENCE_LOCKTIME_MASK) < 2 ^ 16"
    by (metis take_bit_int_less_exp unsigned_take_bit_eq)
  then show ?thesis
    by (simp add: SEQUENCE_LOCKTIME_GRANULARITY_def push_bit_eq_mult uint_word_ariths del: push_bit_and)
qed

lemma GetAncestor_entry:
  assumes "block_map_wf m" "m block = Some b" "0 \<le> h" "h \<le> int (nHeight b)"
  shows "\<exists>p c. GetAncestor m block h = Some (Some p) \<and> m p = Some c"
  using GetAncestor_eq [OF assms(1,2), of h] up_total [OF assms(1,2), of "nHeight b - nat h"] assms(3,4) by force

lemma sequence_locks_loop_correct:
  assumes wf: "block_map_wf m" "m block = Some b"
    and "length hs = length ins" "list_all (\<lambda>h. 0 \<le> h \<and> h \<le> int (nHeight b)) hs"
  shows "\<exists>mh mt hs'. sequence_locks_loop m block ins hs (nh, nt) = Some ((mh, mt), hs') \<and>
    (mh < int (nHeight b) \<and> mt < T \<longleftrightarrow>
      nh < int (nHeight b) \<and> nt < T \<and> list_all (input_unlocked m block b T) (zip ins hs))"
  using assms(3,4)
proof (induction ins arbitrary: hs nh nt)
  case (Cons i ins)
  obtain h hs1 where hs: "hs = h # hs1" using Cons.prems(1) by (cases hs) auto
  have pre: "length hs1 = length ins" "list_all (\<lambda>h. 0 \<le> h \<and> h \<le> int (nHeight b)) hs1" "0 \<le> h" "h \<le> int (nHeight b)"
    using Cons.prems by (auto simp: hs)
  note IH = Cons.IH [OF pre(1,2)]
  consider "nSequence i AND SEQUENCE_LOCKTIME_DISABLE_FLAG \<noteq> 0"
    | "nSequence i AND SEQUENCE_LOCKTIME_DISABLE_FLAG = 0" "nSequence i AND SEQUENCE_LOCKTIME_TYPE_FLAG \<noteq> 0"
    | "nSequence i AND SEQUENCE_LOCKTIME_DISABLE_FLAG = 0" "nSequence i AND SEQUENCE_LOCKTIME_TYPE_FLAG = 0" by blast
  then show ?case
  proof cases
    case 1
    then have "input_unlocked m block b T (i, h)" by (simp add: input_unlocked_def)
    then show ?thesis using 1 IH [of nh nt] by (auto simp: hs)
  next
    case 2
    obtain p c where p: "GetAncestor m block (max (h - 1) 0) = Some (Some p)" "m p = Some c"
      using GetAncestor_entry [OF wf, of "max (h - 1) 0"] pre(3,4) by fastforce
    obtain t where t: "GetMedianTimePast m p = Some t" using GetMedianTimePast_eq [OF wf(1) p(2)] by blast
    let ?lock = "t + uint (nSequence i AND SEQUENCE_LOCKTIME_MASK) * 512 - 1"
    have "input_unlocked m block b T (i, h) \<longleftrightarrow> ?lock < T" using 2 p t by (auto simp: input_unlocked_def)
    then show ?thesis using 2 p t IH [of nh "max nt ?lock"]
      by (auto simp: hs granularity Let_def simp del: push_bit_and)
  next
    case 3
    let ?lock = "h + uint (nSequence i AND SEQUENCE_LOCKTIME_MASK) - 1"
    have "input_unlocked m block b T (i, h) \<longleftrightarrow> ?lock < int (nHeight b)" using 3 by (auto simp: input_unlocked_def)
    then show ?thesis using 3 IH [of "max nh ?lock" nt] by (auto simp: hs Let_def)
  qed
qed simp

lemma recent_times_nonneg: "t \<in> set (recent_times m n p) \<Longrightarrow> 0 \<le> t"
  by (induction n arbitrary: p) (auto simp: GetBlockTime_def split: option.splits)

lemma GetMedianTimePast_nonneg:
  assumes "block_map_wf m" "m p = Some b"
  obtains t where "GetMedianTimePast m p = Some t" "0 \<le> t"
proof -
  let ?r = "recent_times m 11 (Some p)"
  have "?r \<noteq> []" using assms(2) by (simp add: recent_times_nonempty)
  then have "sort ?r ! (length ?r div 2) \<in> set ?r"
    by (metis length_greater_0_conv length_sort nth_mem set_sort div_less_dividend one_less_numeral_iff semiring_norm(76))
  then show ?thesis using that GetMedianTimePast_eq [OF assms] recent_times_nonneg by blast
qed

lemma SequenceLocks_correct:
  assumes "block_map_wf m" "m block = Some b" "pprev b = Some p" "length prevHeights = length (vin tx)"
    "list_all (\<lambda>h. 0 \<le> h \<and> h \<le> int (nHeight b)) prevHeights"
  shows "\<exists>T. GetMedianTimePast m p = Some T \<and> SequenceLocks m tx flags prevHeights block =
    Some (if 2 \<le> version tx \<and> flags AND LOCKTIME_VERIFY_SEQUENCE \<noteq> 0
      then list_all (input_unlocked m block b T) (zip (vin tx) prevHeights) else True)"
proof -
  obtain q where "m p = Some q" using wf_closed(1) [OF assms(1,2)] assms(3) by blast
  then obtain T where T: "GetMedianTimePast m p = Some T" "0 \<le> T" using GetMedianTimePast_nonneg [OF assms(1)] by blast
  obtain mh mt hs' where loop: "sequence_locks_loop m block (vin tx) prevHeights (-1, -1) = Some ((mh, mt), hs')"
    "mh < int (nHeight b) \<and> mt < T \<longleftrightarrow> list_all (input_unlocked m block b T) (zip (vin tx) prevHeights)"
    using sequence_locks_loop_correct [OF assms(1,2,4,5), of "-1" "-1" T] T(2) by force
  show ?thesis
    using T loop assms(2-4)
    by (auto simp: SequenceLocks_def CalculateSequenceLocks_def EvaluateSequenceLocks_def Let_def not_le)
qed

text \<open>
  C34. The relative lock times are exactly those of BIP 68. For a block with a parent in a well-formed tree and
  coins that are no younger than the block, \<open>SequenceLocks\<close> never fails its assertions, and it holds when the
  transaction does not opt in, or when every input either disables its lock or is unlocked: by height, its
  coin's height plus the lock is at most the block's; by time, the median time past before its coin plus 512
  seconds for each unit of the lock is at most the median time past before the block.
\<close>

theorem sequence_locks_iff:
  assumes "block_map_wf m" "m block = Some b" "pprev b = Some p" "length prevHeights = length (vin tx)"
    "list_all (\<lambda>h. 0 \<le> h \<and> h \<le> int (nHeight b)) prevHeights"
  shows "\<exists>T. GetMedianTimePast m p = Some T \<and> SequenceLocks m tx flags prevHeights block =
    Some (if 2 \<le> version tx \<and> flags AND LOCKTIME_VERIFY_SEQUENCE \<noteq> 0
      then list_all (input_unlocked m block b T) (zip (vin tx) prevHeights) else True)"
  using SequenceLocks_correct [OF assms] .

definition locked_tx :: "32 word list \<Rightarrow> CTransaction" where
  "locked_tx seqs = example_tx\<lparr>version := 2,
     vin := map (\<lambda>q. \<lparr>prevout = \<lparr>op_hash = replicate 32 7, op_n = 1\<rparr>, scriptSig = [], nSequence = q, scriptWitness = []\<rparr>) seqs\<rparr>"

lemma example_map_medians: "GetMedianTimePast example_map [1] = Some 100" "GetMedianTimePast example_map [2] = Some 220"
proof -
  obtain c where c: "example_map [2] = Some c" "pprev c = Some [1]" "GetBlockTime c = 220"
    using example_map_entries example_map_times by auto
  obtain a where a: "example_map [1] = Some a" "pprev a = None" "GetBlockTime a = 100"
    using example_map_entries example_map_times by auto
  show "GetMedianTimePast example_map [1] = Some 100" "GetMedianTimePast example_map [2] = Some 220"
    using a c by (simp_all add: GetMedianTimePast_def nMedianTimeSpan_def numeral_eq_Suc)
qed

text \<open>
  For block 2: a coin of height 1 locked for one block is spendable, one locked for two blocks is not; a coin locked by time is
  spendable without delay but not 512 seconds later; an input that disables its lock is not held back.
\<close>

theorem sequence_locks_iff_witness:
  "SequenceLocks example_map (locked_tx [1, 0x80000005]) 1 [1, 1] [3] = Some True \<and>
   SequenceLocks example_map (locked_tx [1, 2]) 1 [1, 1] [3] = Some False \<and>
   SequenceLocks example_map (locked_tx [0x400000]) 1 [1] [3] = Some True \<and>
   SequenceLocks example_map (locked_tx [0x400001]) 1 [1] [3] = Some False"
proof -
  obtain b where b: "example_map [3] = Some b" "pprev b = Some [2]" "nHeight b = 2"
    using example_map_entries by auto
  have locks: "SequenceLocks example_map (locked_tx qs) 1 hs [3] =
      Some (list_all (input_unlocked example_map [3] b 220) (zip (vin (locked_tx qs)) hs))"
    if "length hs = length qs" "list_all (\<lambda>h. 0 \<le> h \<and> h \<le> 2) hs" for qs :: "32 word list" and hs
    using sequence_locks_iff [OF index_inv_wf [OF example_map_inv] b(1,2), of hs "locked_tx qs" 1] that b(3) example_map_medians(2)
    by (simp add: locked_tx_def LOCKTIME_VERIFY_SEQUENCE_def)
  have anc: "GetAncestor example_map [3] 0 = Some (Some [1])"
    using GetAncestor_eq [OF index_inv_wf [OF example_map_inv] b(1), of 0] b example_map_entries by (auto simp: numeral_2_eq_2)
  note defs = locked_tx_def input_unlocked_def anc b(3) example_map_medians(1) SEQUENCE_LOCKTIME_DISABLE_FLAG_def
    SEQUENCE_LOCKTIME_TYPE_FLAG_def SEQUENCE_LOCKTIME_MASK_def
  show ?thesis by (simp add: locks) (simp add: defs)
qed

end
