(* ===== verification/Compressor.thy ===== *)
theory Compressor
  imports CoinsDB
begin

unbundle bit_operations_syntax

text \<open>
  The compact form in which coins are stored (\<open>compressor.h\<close>, \<open>compressor.cpp\<close>, \<open>Coin::Serialize\<close>): amounts
  without their trailing zeros, the common scripts without their fixed bytes. Amounts are \<open>uint64_t\<close>, so
  every arithmetic result is reduced modulo \<open>2 ^ 64\<close>. Validity and decompression of a public key are done by
  \<open>secp256k1\<close> and are parameters.
\<close>

section \<open>Amounts\<close>

function strip_zeros :: "nat \<Rightarrow> nat \<Rightarrow> nat \<times> nat" where
  "strip_zeros n e = (if n mod 10 = 0 \<and> e < 9 then strip_zeros (n div 10) (e + 1) else (n, e))"
  by pat_completeness auto
termination by (relation "measure (\<lambda>(n, e). 9 - e)") auto

declare strip_zeros.simps [simp del]

definition CompressAmount :: "nat \<Rightarrow> nat option" where
  "CompressAmount n =
     (if n = 0 then Some 0
      else let (n, e) = strip_zeros n 0 in
        if e < 9 then
          (let d = n mod 10 in
           if \<not> (1 \<le> d \<and> d \<le> 9) then None
           else Some ((1 + (n div 10 * 9 + d - 1) * 10 + e) mod 2 ^ 64))
        else Some ((1 + (n - 1) * 10 + 9) mod 2 ^ 64))"

fun append_zeros :: "nat \<Rightarrow> nat \<Rightarrow> nat" where
  "append_zeros n 0 = n"
| "append_zeros n (Suc e) = append_zeros (n * 10 mod 2 ^ 64) e"

definition DecompressAmount :: "nat \<Rightarrow> nat" where
  "DecompressAmount x =
     (if x = 0 then 0
      else
        let x = x - 1; e = x mod 10; x = x div 10;
            n = (if e < 9 then (x div 9 * 10 + (x mod 9 + 1)) mod 2 ^ 64 else (x + 1) mod 2 ^ 64)
        in append_zeros n e)"

lemma strip_zeros_correct:
  assumes "0 < n" "e \<le> 9" "strip_zeros n e = (n', e')"
  shows "n * 10 ^ e = n' * 10 ^ e' \<and> e \<le> e' \<and> e' \<le> 9 \<and> 0 < n' \<and> (e' < 9 \<longrightarrow> n' mod 10 \<noteq> 0)"
  using assms
proof (induction n e rule: strip_zeros.induct)
  case (1 n e)
  show ?case
  proof (cases "n mod 10 = 0 \<and> e < 9")
    case True
    then have n: "n = n div 10 * 10" using div_mult_mod_eq [of n 10] by simp
    have "strip_zeros (n div 10) (e + 1) = (n', e')" using 1(4) True strip_zeros.simps [of n e] by simp
    moreover have "0 < n div 10" using "1.prems"(1) n by linarith
    ultimately have "n div 10 * 10 ^ (e + 1) = n' * 10 ^ e' \<and> e + 1 \<le> e' \<and> e' \<le> 9 \<and> 0 < n' \<and> (e' < 9 \<longrightarrow> n' mod 10 \<noteq> 0)"
      using "1.IH" True by simp
    moreover have "n * 10 ^ e = n div 10 * 10 ^ (e + 1)" by (subst n) simp
    ultimately show ?thesis by simp
  next
    case False
    then have "strip_zeros n e = (n, e)" by (subst strip_zeros.simps) auto
    then have "n' = n" "e' = e" using 1(4) by simp_all
    then show ?thesis using False "1.prems" by auto
  qed
qed

lemma append_zeros_eq: "n * 10 ^ e < 2 ^ 64 \<Longrightarrow> append_zeros n e = n * 10 ^ e"
proof (induction e arbitrary: n)
  case (Suc e)
  have pow: "n * 10 ^ Suc e = n * 10 * 10 ^ e" by (simp only: power_Suc mult.assoc)
  have "n * 10 * 1 \<le> n * 10 * 10 ^ e" by (rule mult_le_mono2) simp
  then have "n * 10 < 2 ^ 64" using Suc.prems unfolding pow by linarith
  then have "append_zeros n (Suc e) = append_zeros (n * 10) e" by simp
  also have "\<dots> = n * 10 * 10 ^ e" using Suc.prems unfolding pow by (rule Suc.IH)
  finally show ?case unfolding pow .
qed simp

lemma decompress_normal:
  assumes "e < 9" "1 \<le> d" "d \<le> 9" "1 + (q * 9 + d - 1) * 10 + e < 2 ^ 64" "(q * 10 + d) * 10 ^ e < 2 ^ 64"
  shows "DecompressAmount (1 + (q * 9 + d - 1) * 10 + e) = (q * 10 + d) * 10 ^ e"
proof -
  let ?x = "q * 9 + d - 1"
  have "(?x * 10 + e) mod 10 = e" "(?x * 10 + e) div 10 = ?x" using assms(1) by simp_all
  moreover have "?x mod 9 + 1 = d" "?x div 9 = q"
  proof -
    obtain r where "d = Suc r" "r < 9" using assms(2,3) by (cases d) auto
    then show "?x mod 9 + 1 = d" "?x div 9 = q" by simp_all
  qed
  moreover have "(q * 10 + d) * 1 \<le> (q * 10 + d) * 10 ^ e" by (rule mult_le_mono2) simp
  then have "q * 10 + d < 2 ^ 64" using assms(5) by (metis le_less_trans mult_1_right)
  ultimately show ?thesis
    using assms(1) append_zeros_eq [OF assms(5)] unfolding DecompressAmount_def Let_def
    by (simp add: add.commute)
qed

lemma decompress_round:
  assumes "0 < n" "n * 10 ^ 9 < 2 ^ 64"
  shows "DecompressAmount (1 + (n - 1) * 10 + 9) = n * 10 ^ 9"
proof -
  have x: "1 + (n - 1) * 10 + 9 - 1 = (n - 1) * 10 + (9::nat)" by simp
  have "((n - 1) * 10 + 9) mod 10 = (9::nat)" "((n - 1) * 10 + 9) div 10 = n - 1" by simp_all
  moreover have "n < 2 ^ 64" using assms(2) by (metis le_less_trans mult.right_neutral mult_le_mono2 one_le_power one_le_numeral)
  ultimately show ?thesis
    using append_zeros_eq [OF assms(2)] assms(1) unfolding DecompressAmount_def Let_def x by simp
qed

lemma compress_amount_roundtrip:
  assumes "n \<le> nat MAX_MONEY"
  shows "\<exists>x. CompressAmount n = Some x \<and> x < 2 ^ 64 \<and> DecompressAmount x = n"
proof (cases "n = 0")
  case True
  then show ?thesis by (simp add: CompressAmount_def DecompressAmount_def)
next
  case False
  have small: "n \<le> 100000000000000000" using assms by (simp add: MAX_MONEY_def COIN_def)
  obtain n' e where s: "strip_zeros n 0 = (n', e)" by fastforce
  have n: "n = n' * 10 ^ e" "e \<le> 9" "0 < n'" "e < 9 \<longrightarrow> n' mod 10 \<noteq> 0"
    using strip_zeros_correct [OF _ _ s] False by auto
  have "n' * 1 \<le> n' * 10 ^ e" by (rule mult_le_mono2) simp
  then have n': "n' \<le> 100000000000000000" using small n(1) by linarith
  show ?thesis
  proof (cases "e < 9")
    case True
    let ?d = "n' mod 10" and ?q = "n' div 10"
    have d: "1 \<le> ?d" "?d \<le> 9" using n(4) True by (simp_all add: less_Suc_eq_le [symmetric])
    have q: "?q * 10 + ?d = n'" by simp
    have lt: "1 + (?q * 9 + ?d - 1) * 10 + e < 2 ^ 64" using n' True d q by simp
    have "CompressAmount n = Some (1 + (?q * 9 + ?d - 1) * 10 + e)"
      using False s True d lt by (simp add: CompressAmount_def Let_def)
    moreover have "DecompressAmount (1 + (?q * 9 + ?d - 1) * 10 + e) = n"
      using decompress_normal [OF True d lt] n(1) small q by simp
    ultimately show ?thesis using lt by blast
  next
    case False9: False
    then have e: "e = 9" using n(2) by simp
    have lt: "1 + (n' - 1) * 10 + 9 < 2 ^ 64" using n' by simp
    have "CompressAmount n = Some (1 + (n' - 1) * 10 + 9)"
      using False s e lt by (simp add: CompressAmount_def Let_def)
    moreover have "DecompressAmount (1 + (n' - 1) * 10 + 9) = n"
      using decompress_round [OF n(3)] n(1) small e by simp
    ultimately show ?thesis using lt by blast
  qed
qed

section \<open>Scripts\<close>

definition IsToKeyID :: "byte list \<Rightarrow> byte list option" where
  "IsToKeyID script =
     (if length script = 25 \<and> script ! 0 = OP_DUP \<and> script ! 1 = OP_HASH160 \<and> script ! 2 = 20 \<and>
         script ! 23 = OP_EQUALVERIFY \<and> script ! 24 = OP_CHECKSIG
      then Some (take 20 (drop 3 script)) else None)"

definition IsToScriptID :: "byte list \<Rightarrow> byte list option" where
  "IsToScriptID script =
     (if length script = 23 \<and> script ! 0 = OP_HASH160 \<and> script ! 1 = 20 \<and> script ! 22 = OP_EQUAL
      then Some (take 20 (drop 2 script)) else None)"

definition IsToPubKey :: "(byte list \<Rightarrow> bool) \<Rightarrow> byte list \<Rightarrow> byte list option" where
  "IsToPubKey IsFullyValid script =
     (if length script = 35 \<and> script ! 0 = 33 \<and> script ! 34 = OP_CHECKSIG \<and> (script ! 1 = 2 \<or> script ! 1 = 3)
      then Some (take 33 (drop 1 script))
      else if length script = 67 \<and> script ! 0 = 65 \<and> script ! 66 = OP_CHECKSIG \<and> script ! 1 = 4
      then (let pubkey = take 65 (drop 1 script) in if IsFullyValid pubkey then Some pubkey else None)
      else None)"

definition CompressScript :: "(byte list \<Rightarrow> bool) \<Rightarrow> byte list \<Rightarrow> byte list option" where
  "CompressScript IsFullyValid script = (case IsToKeyID script of
     Some keyID \<Rightarrow> Some (0 # keyID)
   | None \<Rightarrow> (case IsToScriptID script of
       Some scriptID \<Rightarrow> Some (1 # scriptID)
     | None \<Rightarrow> (case IsToPubKey IsFullyValid script of
         Some pubkey \<Rightarrow>
           if pubkey ! 0 = 2 \<or> pubkey ! 0 = 3 then Some (pubkey ! 0 # take 32 (drop 1 pubkey))
           else if pubkey ! 0 = 4 then Some ((4 OR (pubkey ! 64 AND 1)) # take 32 (drop 1 pubkey))
           else None
       | None \<Rightarrow> None)))"

definition GetSpecialScriptSize :: "nat \<Rightarrow> nat" where
  "GetSpecialScriptSize nSize =
     (if nSize = 0 \<or> nSize = 1 then 20
      else if nSize = 2 \<or> nSize = 3 \<or> nSize = 4 \<or> nSize = 5 then 32 else 0)"

text \<open>\<open>Decompress\<close> turns a compressed public key into its 65 bytes, or fails.\<close>

definition DecompressScript :: "(byte list \<Rightarrow> byte list option) \<Rightarrow> nat \<Rightarrow> byte list \<Rightarrow> byte list option" where
  "DecompressScript Decompress nSize inp =
     (if nSize = 0 then Some ([OP_DUP, OP_HASH160, 20] @ take 20 inp @ [OP_EQUALVERIFY, OP_CHECKSIG])
      else if nSize = 1 then Some ([OP_HASH160, 20] @ take 20 inp @ [OP_EQUAL])
      else if nSize = 2 \<or> nSize = 3 then Some ([33, word_of_nat nSize] @ take 32 inp @ [OP_CHECKSIG])
      else if nSize = 4 \<or> nSize = 5 then
        (case Decompress (word_of_nat (nSize - 2) # take 32 inp) of
           None \<Rightarrow> None | Some pubkey \<Rightarrow> Some ([65] @ pubkey @ [OP_CHECKSIG]))
      else None)"

definition nSpecialScripts :: nat where "nSpecialScripts = 6"

definition ser_script :: "(byte list \<Rightarrow> bool) \<Rightarrow> byte list \<Rightarrow> stream" where
  "ser_script IsFullyValid script = (case CompressScript IsFullyValid script of
     Some compr \<Rightarrow> compr
   | None \<Rightarrow> WriteVarInt (length script + nSpecialScripts) @ script)"

definition UINT32_MAX :: nat where "UINT32_MAX = 4294967295"

definition UINT64_MAX :: nat where "UINT64_MAX = 18446744073709551615"

text \<open>The script read into is empty; it stays so when a special script does not decompress.\<close>

definition unser_script :: "(byte list \<Rightarrow> byte list option) \<Rightarrow> byte list reader" where
  "unser_script Decompress s = do {
     (nSize, s) \<leftarrow> ReadVarInt UINT32_MAX s;
     if nSize < nSpecialScripts then do {
       (vch, s) \<leftarrow> read_bytes (GetSpecialScriptSize nSize) s;
       Some (case DecompressScript Decompress nSize vch of None \<Rightarrow> [] | Some script \<Rightarrow> script, s)
     } else if nSize - nSpecialScripts > MAX_SCRIPT_SIZE then do {
       (_, s) \<leftarrow> read_bytes (nSize - nSpecialScripts) s;
       Some ([OP_RETURN], s)
     } else read_bytes (nSize - nSpecialScripts) s
   }"

section \<open>Outputs and coins\<close>

text \<open>A negative amount would be converted to \<open>uint64_t\<close>; \<open>None\<close> is the failed assertion.\<close>

definition ser_amount :: "CAmount \<Rightarrow> stream option" where
  "ser_amount amount = map_option WriteVarInt (CompressAmount (nat (amount mod 2 ^ 64)))"

definition unser_amount :: "CAmount reader" where
  "unser_amount s = do {
     (v, s) \<leftarrow> ReadVarInt UINT64_MAX s;
     Some (sint (word_of_nat (DecompressAmount v) :: 64 word), s)
   }"

definition ser_txout_compressed :: "(byte list \<Rightarrow> bool) \<Rightarrow> CTxOut \<Rightarrow> stream option" where
  "ser_txout_compressed IsFullyValid obj =
     map_option (\<lambda>amount. amount @ ser_script IsFullyValid (scriptPubKey obj)) (ser_amount (nValue obj))"

definition unser_txout_compressed :: "(byte list \<Rightarrow> byte list option) \<Rightarrow> CTxOut reader" where
  "unser_txout_compressed Decompress s = do {
     (v, s) \<leftarrow> unser_amount s;
     (script, s) \<leftarrow> unser_script Decompress s;
     Some (\<lparr>nValue = v, scriptPubKey = script\<rparr>, s)
   }"

definition ser_coin :: "(byte list \<Rightarrow> bool) \<Rightarrow> Coin \<Rightarrow> stream option" where
  "ser_coin IsFullyValid x =
     (if IsSpent x then None
      else let code = unat (coin_nHeight x) * 2 + of_bool (fCoinBase x) in
        map_option (\<lambda>out. WriteVarInt code @ out) (ser_txout_compressed IsFullyValid (coin_out x)))"

definition unser_coin :: "(byte list \<Rightarrow> byte list option) \<Rightarrow> Coin reader" where
  "unser_coin Decompress s = do {
     (code, s) \<leftarrow> ReadVarInt UINT32_MAX s;
     (out, s) \<leftarrow> unser_txout_compressed Decompress s;
     Some (\<lparr>coin_out = out, fCoinBase = odd code, coin_nHeight = word_of_nat (code div 2)\<rparr>, s)
   }"

definition DB_COIN :: byte where "DB_COIN = 0x43"

definition ser_coin_entry :: "COutPoint \<Rightarrow> stream" where
  "ser_coin_entry outpoint = ser_writedata8 DB_COIN @ ser_uint256 (op_hash outpoint) @ WriteVarInt (unat (op_n outpoint))"

definition unser_coin_entry :: "COutPoint reader" where
  "unser_coin_entry s = do {
     (key, s) \<leftarrow> ser_readdata8 s;
     (h, s) \<leftarrow> unser_uint256 s;
     (n, s) \<leftarrow> ReadVarInt UINT32_MAX s;
     Some (\<lparr>op_hash = h, op_n = word_of_nat n\<rparr>, s)
   }"

section \<open>Round trips\<close>

lemma take_1: "1 \<le> length s \<Longrightarrow> take 1 s = [s ! 0]"
  by (cases s) auto

lemma take_2: "2 \<le> length s \<Longrightarrow> take 2 s = [s ! 0, s ! 1]"
  by (cases s; cases "tl s") auto

lemma take_3: "3 \<le> length s \<Longrightarrow> take 3 s = [s ! 0, s ! 1, s ! 2]"
  by (cases s; cases "tl s"; cases "tl (tl s)") (auto simp: numeral_3_eq_3 numeral_2_eq_2)

lemma drop_last1: "length s = Suc n \<Longrightarrow> drop n s = [s ! n]"
  using Cons_nth_drop_Suc [of n s] by simp

lemma drop_last2: "length s = n + 2 \<Longrightarrow> drop n s = [s ! n, s ! (n + 1)]"
  using Cons_nth_drop_Suc [of n s] Cons_nth_drop_Suc [of "n + 1" s] by simp

lemma split3: "a \<le> b \<Longrightarrow> s = take a s @ take (b - a) (drop a s) @ drop b s"
  by (metis append_take_drop_id drop_drop le_add_diff_inverse2)

lemma IsToKeyID_script:
  assumes "IsToKeyID s = Some h"
  shows "length h = 20" "s = [OP_DUP, OP_HASH160, 20] @ h @ [OP_EQUALVERIFY, OP_CHECKSIG]"
proof -
  have c: "length s = 25" "s ! 0 = OP_DUP" "s ! 1 = OP_HASH160" "s ! 2 = 20" "s ! 23 = OP_EQUALVERIFY"
    "s ! 24 = OP_CHECKSIG" "h = take 20 (drop 3 s)"
    using assms by (auto simp: IsToKeyID_def split: if_splits)
  show "length h = 20" using c(1,7) by simp
  show "s = [OP_DUP, OP_HASH160, 20] @ h @ [OP_EQUALVERIFY, OP_CHECKSIG]"
    using split3 [of 3 23 s] take_3 [of s] drop_last2 [of s 23] c by simp
qed

lemma IsToScriptID_script:
  assumes "IsToScriptID s = Some h"
  shows "length h = 20" "s = [OP_HASH160, 20] @ h @ [OP_EQUAL]"
proof -
  have c: "length s = 23" "s ! 0 = OP_HASH160" "s ! 1 = 20" "s ! 22 = OP_EQUAL" "h = take 20 (drop 2 s)"
    using assms by (auto simp: IsToScriptID_def split: if_splits)
  show "length h = 20" using c(1,5) by simp
  show "s = [OP_HASH160, 20] @ h @ [OP_EQUAL]"
    using split3 [of 2 22 s] take_2 [of s] drop_last1 [of s 22] c by simp
qed

text \<open>
  What is known of \<open>secp256k1\<close>: decompressing the first coordinate and the parity of the second of a valid
  uncompressed key gives that key back.
\<close>

definition pubkey_laws :: "(byte list \<Rightarrow> bool) \<Rightarrow> (byte list \<Rightarrow> byte list option) \<Rightarrow> bool" where
  "pubkey_laws IsFullyValid Decompress \<longleftrightarrow> (\<forall>pk. length pk = 65 \<and> pk ! 0 = 4 \<and> IsFullyValid pk \<longrightarrow>
     Decompress ((2 + (pk ! 64 AND 1)) # take 32 (drop 1 pk)) = Some pk)"

lemma IsToPubKey_script:
  assumes "IsToPubKey fv s = Some pk"
  shows "(length pk = 33 \<and> (pk ! 0 = 2 \<or> pk ! 0 = 3) \<and> s = [33] @ pk @ [OP_CHECKSIG]) \<or>
    (length pk = 65 \<and> pk ! 0 = 4 \<and> fv pk \<and> s = [65] @ pk @ [OP_CHECKSIG])"
proof (cases "length s = 35 \<and> s ! 0 = 33 \<and> s ! 34 = OP_CHECKSIG \<and> (s ! 1 = 2 \<or> s ! 1 = 3)")
  case True
  then have pk: "pk = take 33 (drop 1 s)" using assms by (simp add: IsToPubKey_def)
  moreover have "s = take 1 s @ take 33 (drop 1 s) @ drop 34 s" using split3 [of 1 34 s] by simp
  moreover have "take 1 s = [s ! 0]" "drop 34 s = [s ! 34]"
    using True drop_last1 [of s 34] take_1 [of s] by simp_all
  ultimately show ?thesis using True by (simp add: nth_append)
next
  case False
  then have c: "length s = 67" "s ! 0 = 65" "s ! 66 = OP_CHECKSIG" "s ! 1 = 4" "pk = take 65 (drop 1 s)" "fv pk"
    using assms by (auto simp: IsToPubKey_def Let_def split: if_splits)
  moreover have "s = take 1 s @ take 65 (drop 1 s) @ drop 66 s" using split3 [of 1 66 s] by simp
  moreover have "take 1 s = [s ! 0]" "drop 66 s = [s ! 66]"
    using c(1) drop_last1 [of s 66] take_1 [of s] by simp_all
  ultimately show ?thesis by simp
qed

lemma parity_cases: "w AND 1 = 0 \<or> w AND 1 = (1 :: byte)"
  by (simp add: and_one_eq mod2_eq_if)

lemma hd_take_drop: "length pk = Suc n \<Longrightarrow> pk = pk ! 0 # take n (drop 1 pk)"
  by (cases pk) simp_all

lemma CompressScript_correct:
  assumes laws: "pubkey_laws fv dc" and c: "CompressScript fv s = Some out"
  shows "\<exists>b body. out = b # body \<and> unat b < 6 \<and> length body = GetSpecialScriptSize (unat b) \<and>
    DecompressScript dc (unat b) body = Some s"
proof (cases "IsToKeyID s")
  case (Some h)
  then have "out = 0 # h" using c by (simp add: CompressScript_def)
  then show ?thesis using IsToKeyID_script [OF Some]
    by (intro exI [of _ 0] exI [of _ h]) (simp add: DecompressScript_def GetSpecialScriptSize_def)
next
  case no_key: None
  show ?thesis
  proof (cases "IsToScriptID s")
    case (Some h)
    then have "out = 1 # h" using c no_key by (simp add: CompressScript_def)
    then show ?thesis using IsToScriptID_script [OF Some]
      by (intro exI [of _ 1] exI [of _ h]) (simp add: DecompressScript_def GetSpecialScriptSize_def)
  next
    case None
    then obtain pk where pk: "IsToPubKey fv s = Some pk"
      using c no_key by (auto simp: CompressScript_def split: option.splits)
    consider "length pk = 33" "pk ! 0 = 2 \<or> pk ! 0 = 3" "s = [33] @ pk @ [OP_CHECKSIG]"
      | "length pk = 65" "pk ! 0 = 4" "fv pk" "s = [65] @ pk @ [OP_CHECKSIG]"
      using IsToPubKey_script [OF pk] by blast
    then show ?thesis
    proof cases
      case 1
      then have "out = pk ! 0 # take 32 (drop 1 pk)" using c no_key None pk by (auto simp: CompressScript_def)
      moreover have "s = [33, pk ! 0] @ take 32 (drop 1 pk) @ [OP_CHECKSIG]"
        using 1 hd_take_drop [of pk 32] by simp
      ultimately show ?thesis using 1(1,2)
        by (intro exI [of _ "pk ! 0"] exI [of _ "take 32 (drop 1 pk)"])
          (auto simp: DecompressScript_def GetSpecialScriptSize_def)
    next
      case 2
      then have out: "out = (4 OR (pk ! 64 AND 1)) # take 32 (drop 1 pk)"
        using c no_key None pk by (simp add: CompressScript_def)
      have dc: "dc ((2 + (pk ! 64 AND 1)) # take 32 (drop 1 pk)) = Some pk"
        using laws 2(1-3) by (simp add: pubkey_laws_def)
      then show ?thesis using out 2(1,4) parity_cases [of "pk ! 64"]
        by (intro exI [of _ "4 OR (pk ! 64 AND 1)"] exI [of _ "take 32 (drop 1 pk)"])
          (auto simp: DecompressScript_def GetSpecialScriptSize_def)
    qed
  qed
qed

lemma ReadVarInt_byte: "unat b < 128 \<Longrightarrow> ReadVarInt limit (b # s) = Some (unat b, s)"
  by (simp add: ReadVarInt_def)

lemma script_roundtrip:
  assumes laws: "pubkey_laws fv dc" and len: "length script \<le> MAX_SCRIPT_SIZE"
  shows "unser_script dc (ser_script fv script @ s) = Some (script, s)"
proof (cases "CompressScript fv script")
  case None
  have n: "length script + 6 \<le> UINT32_MAX" using len by (simp add: MAX_SCRIPT_SIZE_def UINT32_MAX_def)
  then show ?thesis using None len ReadVarInt_Write [OF n]
    by (simp add: unser_script_def ser_script_def nSpecialScripts_def)
next
  case (Some out)
  obtain b body where b: "out = b # body" "unat b < 6" "length body = GetSpecialScriptSize (unat b)"
    "DecompressScript dc (unat b) body = Some script"
    using CompressScript_correct [OF laws Some] by blast
  then show ?thesis using Some ReadVarInt_byte [of b UINT32_MAX "body @ s"]
    by (simp add: unser_script_def ser_script_def nSpecialScripts_def)
qed

lemma amount_roundtrip:
  assumes "MoneyRange v"
  shows "\<exists>a. ser_amount v = Some a \<and> unser_amount (a @ s) = Some (v, s)"
proof -
  have v: "0 \<le> v" "v \<le> MAX_MONEY" using assms by (simp_all add: MoneyRange_def)
  then have small: "v \<le> 100000000000000000" by (simp add: MAX_MONEY_def COIN_def)
  have "v mod 2 ^ 64 = v" using v(1) small by simp
  moreover obtain x where x: "CompressAmount (nat v) = Some x" "x < 2 ^ 64" "DecompressAmount x = nat v"
    using compress_amount_roundtrip [of "nat v"] v by (auto simp: nat_le_eq_zle)
  moreover have "x \<le> UINT64_MAX" using x(2) by (simp add: UINT64_MAX_def)
  moreover have "sint (word_of_nat (nat v) :: 64 word) = v"
  proof -
    have "word_of_nat (nat v) = (word_of_int v :: 64 word)" using v(1) by (simp add: word_of_nat_eq_iff)
    moreover have "int64_range v" using v(1) small by (simp add: int64_range_def INT64_MIN_def INT64_MAX_def)
    ultimately show ?thesis using sint64 by simp
  qed
  ultimately show ?thesis using ReadVarInt_Write [of x UINT64_MAX s] by (simp add: ser_amount_def unser_amount_def)
qed

text \<open>
  C32. A coin comes back from the record the database stores for it: with its value in range and its script at
  most the maximum size, the compressed serialization does not fail, and reading it returns the same
  coin, provided that decompressing a public key inverts compressing a valid one.
\<close>

theorem coin_record_roundtrip:
  assumes "pubkey_laws IsFullyValid Decompress" "MoneyRange (nValue (coin_out x))"
    "length (scriptPubKey (coin_out x)) \<le> MAX_SCRIPT_SIZE"
  shows "\<exists>bytes. ser_coin IsFullyValid x = Some bytes \<and> unser_coin Decompress (bytes @ s) = Some (x, s)"
proof -
  let ?code = "unat (coin_nHeight x) * 2 + of_bool (fCoinBase x)"
  have spent: "\<not> IsSpent x" using assms(2) by (auto simp: IsSpent_def MoneyRange_def)
  have "unat (coin_nHeight x) < 2 ^ 31" using unsigned_less [where 'a = nat, of "coin_nHeight x"] by simp
  then have lim: "?code \<le> UINT32_MAX" by (simp add: UINT32_MAX_def)
  have fields: "odd ?code = fCoinBase x" "word_of_nat (?code div 2) = coin_nHeight x" by simp_all
  obtain a where a: "ser_amount (nValue (coin_out x)) = Some a"
    "\<And>t. unser_amount (a @ t) = Some (nValue (coin_out x), t)"
    using amount_roundtrip [OF assms(2)] by (metis option.inject)
  show ?thesis using spent a script_roundtrip [OF assms(1,3)] ReadVarInt_Write [OF lim] fields
    by (simp add: ser_coin_def unser_coin_def ser_txout_compressed_def unser_txout_compressed_def Let_def del: odd_add)
qed

definition example_valid :: "byte list \<Rightarrow> bool" where
  "example_valid pk \<longleftrightarrow> drop 33 pk = replicate 31 0 @ [pk ! 64 AND 1]"

definition example_decompress :: "byte list \<Rightarrow> byte list option" where
  "example_decompress key = Some (4 # tl key @ replicate 31 0 @ [hd key AND 1])"

lemma example_pubkey_laws: "pubkey_laws example_valid example_decompress"
  unfolding pubkey_laws_def
proof (intro allI impI)
  fix pk :: "byte list" assume "length pk = 65 \<and> pk ! 0 = 4 \<and> example_valid pk"
  then have pk: "length pk = 65" "pk ! 0 = 4" "drop 33 pk = replicate 31 0 @ [pk ! 64 AND 1]"
    by (auto simp: example_valid_def)
  have "pk = take 1 pk @ take 32 (drop 1 pk) @ drop 33 pk" using split3 [of 1 33 pk] by simp
  moreover have "take 1 pk = [4]" using pk(1,2) take_1 [of pk] by simp
  moreover have "2 + (pk ! 64 AND 1) AND 1 = pk ! 64 AND (1 :: byte)"
    using parity_cases [of "pk ! 64"] by auto
  ultimately show "example_decompress ((2 + (pk ! 64 AND 1)) # take 32 (drop 1 pk)) = Some pk"
    using pk(3) by (simp add: example_decompress_def)
qed

theorem coin_record_roundtrip_witness:
  "let x = mk_Coin \<lparr>nValue = 1250000000, scriptPubKey = [33, 2] @ replicate 32 7 @ [0xac]\<rparr> 120 True in
   \<exists>bytes. ser_coin example_valid x = Some bytes \<and> unser_coin example_decompress (bytes @ [1]) = Some (x, [1])"
proof -
  let ?x = "mk_Coin \<lparr>nValue = 1250000000, scriptPubKey = [33, 2] @ replicate 32 7 @ [0xac]\<rparr> 120 True"
  have "MoneyRange (nValue (coin_out ?x))" "length (scriptPubKey (coin_out ?x)) \<le> MAX_SCRIPT_SIZE"
    by (simp_all add: mk_Coin_def MoneyRange_def MAX_MONEY_def COIN_def MAX_SCRIPT_SIZE_def)
  from coin_record_roundtrip [OF example_pubkey_laws this, of "[1]"] show ?thesis unfolding Let_def .
qed

text \<open>The key of a coin's record determines the outpoint.\<close>

interpretation coin_entry: codec ser_coin_entry unser_coin_entry outpoint_ok
proof
  fix p s assume "outpoint_ok p"
  moreover have "unat (op_n p) \<le> UINT32_MAX" using unsigned_less [where 'a = nat, of "op_n p"] by (simp add: UINT32_MAX_def)
  ultimately show "unser_coin_entry (ser_coin_entry p @ s) = Some (p, s)"
    using ReadVarInt_Write [of "unat (op_n p)" UINT32_MAX s]
    by (simp add: unser_coin_entry_def ser_coin_entry_def ser_uint256_def unser_uint256_def outpoint_ok_def uint256_wf_def)
qed

lemma coin_key_inject: "outpoint_ok p \<Longrightarrow> outpoint_ok q \<Longrightarrow> ser_coin_entry p = ser_coin_entry q \<longleftrightarrow> p = q"
  by (rule coin_entry.ser_inject)

end
