(* ===== verification/Merkle.thy ===== *)
theory Merkle
  imports Transaction
begin

text \<open>
  Merkle trees of the transactions of a block (\<open>consensus/merkle.cpp\<close>). The hash of two nodes, double SHA-256
  of their 64 bytes, is the parameter \<open>H\<close>; the hash of a serialization is the parameter \<open>Hash\<close>.
\<close>

definition GetTxid :: "(stream \<Rightarrow> uint256) \<Rightarrow> CTransaction \<Rightarrow> uint256" where
  "GetTxid Hash tx = Hash (SerializeTransaction False tx)"

definition GetWitnessHash :: "(stream \<Rightarrow> uint256) \<Rightarrow> CTransaction \<Rightarrow> uint256" where
  "GetWitnessHash Hash tx =
     (if \<not> HasWitness (vin tx) then GetTxid Hash tx else Hash (SerializeTransaction True tx))"

text \<open>\<open>SHA256D64\<close> hashes consecutive pairs in place.\<close>

fun SHA256D64 :: "(uint256 \<Rightarrow> uint256 \<Rightarrow> uint256) \<Rightarrow> uint256 list \<Rightarrow> uint256 list" where
  "SHA256D64 H (a # b # hashes) = H a b # SHA256D64 H hashes"
| "SHA256D64 H hashes = []"

fun equal_pair :: "uint256 list \<Rightarrow> bool" where
  "equal_pair (a # b # hashes) \<longleftrightarrow> a = b \<or> equal_pair hashes"
| "equal_pair hashes \<longleftrightarrow> False"

definition pad_even :: "uint256 list \<Rightarrow> uint256 list" where
  "pad_even hashes = (if odd (length hashes) then hashes @ [last hashes] else hashes)"

lemma length_SHA256D64 [simp]: "length (SHA256D64 H hashes) = length hashes div 2"
  by (induction H hashes rule: SHA256D64.induct) simp_all

lemma length_pad_even [simp]: "length (pad_even hashes) = 2 * ((length hashes + 1) div 2)"
  by (simp add: pad_even_def)

function merkle_loop :: "(uint256 \<Rightarrow> uint256 \<Rightarrow> uint256) \<Rightarrow> uint256 list \<Rightarrow> bool \<Rightarrow> uint256 list \<times> bool" where
  "merkle_loop H hashes mutation =
     (if length hashes > 1 then merkle_loop H (SHA256D64 H (pad_even hashes)) (mutation \<or> equal_pair hashes)
      else (hashes, mutation))"
  by auto
termination by (relation "measure (\<lambda>(H, hashes, _). length hashes)") auto

declare merkle_loop.simps [simp del]

definition ComputeMerkleRoot :: "(uint256 \<Rightarrow> uint256 \<Rightarrow> uint256) \<Rightarrow> uint256 list \<Rightarrow> uint256 \<times> bool" where
  "ComputeMerkleRoot H hashes =
     (case merkle_loop H hashes False of
        ([], mutated) \<Rightarrow> (uint256_null, mutated)
      | (h # _, mutated) \<Rightarrow> (h, mutated))"

definition BlockMerkleRoot :: "(uint256 \<Rightarrow> uint256 \<Rightarrow> uint256) \<Rightarrow> (stream \<Rightarrow> uint256) \<Rightarrow> CTransaction list \<Rightarrow> uint256 \<times> bool" where
  "BlockMerkleRoot H Hash vtx = ComputeMerkleRoot H (map (GetTxid Hash) vtx)"

definition BlockWitnessMerkleRoot :: "(uint256 \<Rightarrow> uint256 \<Rightarrow> uint256) \<Rightarrow> (stream \<Rightarrow> uint256) \<Rightarrow> CTransaction list \<Rightarrow> uint256" where
  "BlockWitnessMerkleRoot H Hash vtx =
     fst (ComputeMerkleRoot H (uint256_null # map (GetWitnessHash Hash) (drop 1 vtx)))"

section \<open>The levels of the tree\<close>

definition next_level :: "(uint256 \<Rightarrow> uint256 \<Rightarrow> uint256) \<Rightarrow> uint256 list \<Rightarrow> uint256 list" where
  "next_level H hashes = SHA256D64 H (pad_even hashes)"

lemma length_next_level [simp]: "length (next_level H hashes) = (length hashes + 1) div 2"
  by (simp add: next_level_def)

fun pairs_of :: "uint256 list \<Rightarrow> (uint256 \<times> uint256) list" where
  "pairs_of (a # b # hashes) = (a, b) # pairs_of hashes"
| "pairs_of [a] = [(a, a)]"
| "pairs_of [] = []"

lemma next_level_pairs: "next_level H hashes = map (case_prod H) (pairs_of hashes)"
  unfolding next_level_def pad_even_def
proof (induction hashes rule: pairs_of.induct)
  case (1 a b hashes)
  then show ?case by (cases "hashes = []") auto
qed simp_all

text \<open>All the pairs that are hashed on the way to the root.\<close>

function hashed_pairs :: "(uint256 \<Rightarrow> uint256 \<Rightarrow> uint256) \<Rightarrow> uint256 list \<Rightarrow> (uint256 \<times> uint256) set" where
  "hashed_pairs H hashes =
     (if length hashes > 1 then set (pairs_of hashes) \<union> hashed_pairs H (next_level H hashes) else {})"
  by auto
termination by (relation "measure (\<lambda>(H, hashes). length hashes)") auto

declare hashed_pairs.simps [simp del]

lemma pairs_of_inject:
  "pairs_of xs = pairs_of ys \<Longrightarrow> \<not> equal_pair xs \<Longrightarrow> \<not> equal_pair ys \<Longrightarrow> xs = ys"
proof (induction xs arbitrary: ys rule: pairs_of.induct)
  case (1 a b xs)
  then show ?case by (cases ys rule: pairs_of.cases) auto
next
  case (2 a)
  then show ?case by (cases ys rule: pairs_of.cases) auto
next
  case 3
  then show ?case by (cases ys rule: pairs_of.cases) auto
qed

lemma merkle_loop_mutation: "merkle_loop H hashes m = (r, False) \<Longrightarrow> \<not> m"
proof (induction H hashes m rule: merkle_loop.induct)
  case (1 H hashes m)
  then show ?case by (subst (asm) (2) merkle_loop.simps) (auto split: if_splits)
qed

lemma merkle_loop_step:
  assumes "merkle_loop H hashes False = (r, False)" "length hashes > 1"
  shows "merkle_loop H (next_level H hashes) False = (r, False)" "\<not> equal_pair hashes"
proof -
  have l: "merkle_loop H (next_level H hashes) (equal_pair hashes) = (r, False)"
    using assms by (subst (asm) merkle_loop.simps) (simp add: next_level_def)
  then show "\<not> equal_pair hashes" by (rule merkle_loop_mutation)
  with l show "merkle_loop H (next_level H hashes) False = (r, False)" by simp
qed

lemma merkle_loop_single: "merkle_loop H [h] m = ([h], m)"
  by (simp add: merkle_loop.simps)

lemma root_is_hash:
  assumes "merkle_loop H hashes False = ([r], False)" "length hashes > 1"
  shows "\<exists>p \<in> hashed_pairs H hashes. r = case_prod H p"
  using assms
proof (induction hashes rule: measure_induct_rule [of length])
  case (less hashes)
  note step = merkle_loop_step(1) [OF less.prems]
  have p: "hashed_pairs H hashes = set (pairs_of hashes) \<union> hashed_pairs H (next_level H hashes)"
    using less.prems(2) by (simp add: hashed_pairs.simps)
  show ?case
  proof (cases "length (next_level H hashes) > 1")
    case True
    moreover have "length (next_level H hashes) < length hashes" using less.prems(2) by simp
    ultimately obtain q where "q \<in> hashed_pairs H (next_level H hashes)" "r = case_prod H q"
      using less.IH step by blast
    then show ?thesis using p by blast
  next
    case False
    moreover have "length (next_level H hashes) \<ge> 1" using less.prems(2) by simp
    ultimately obtain h where h: "next_level H hashes = [h]" by (cases "next_level H hashes" rule: pairs_of.cases) auto
    then have "r = h" using step by (simp add: merkle_loop_single)
    then show ?thesis using h p by (auto simp: next_level_pairs)
  qed
qed

text \<open>The number of levels above the leaves.\<close>

function depth :: "nat \<Rightarrow> nat" where
  "depth n = (if n > 1 then Suc (depth ((n + 1) div 2)) else 0)"
  by auto
termination by (relation "measure id") auto

declare depth.simps [simp del]

lemma depth_next: "length hashes > 1 \<Longrightarrow> depth (length hashes) = Suc (depth (length (next_level H hashes)))"
  by (subst depth.simps) simp

lemma hashed_pairs_next:
  assumes "length hashes > 1"
  shows "hashed_pairs H (next_level H hashes) \<subseteq> hashed_pairs H hashes" "set (pairs_of hashes) \<subseteq> hashed_pairs H hashes"
    "set (next_level H hashes) \<subseteq> case_prod H ` hashed_pairs H hashes"
  using assms by (auto simp: hashed_pairs.simps [of H hashes] next_level_pairs)

text \<open>Two leaf lists with the same root, neither of them flagged as mutated.\<close>

lemma merkle_same_depth:
  assumes "merkle_loop H xs False = ([r], False)" "merkle_loop H ys False = ([r], False)"
    and "inj_on (case_prod H) (hashed_pairs H xs \<union> hashed_pairs H ys)" "depth (length xs) = depth (length ys)"
  shows "xs = ys"
  using assms
proof (induction xs arbitrary: ys rule: measure_induct_rule [of length])
  case (less xs)
  show ?case
  proof (cases "length xs > 1")
    case True
    have ys: "length ys > 1" using less.prems(4) depth_next [OF True, of H] depth.simps [of "length ys"]
      by (auto split: if_splits)
    note xs' = merkle_loop_step [OF less.prems(1) True] and ys' = merkle_loop_step [OF less.prems(2) ys]
    have "inj_on (case_prod H) (hashed_pairs H (next_level H xs) \<union> hashed_pairs H (next_level H ys))"
      by (rule inj_on_subset [OF less.prems(3)]) (use hashed_pairs_next True ys in blast)
    moreover have "depth (length (next_level H xs)) = depth (length (next_level H ys))"
      using less.prems(4) depth_next True ys by (metis old.nat.inject)
    moreover have "length (next_level H xs) < length xs" using True by simp
    ultimately have "next_level H xs = next_level H ys" using less.IH xs'(1) ys'(1) by blast
    moreover have "inj_on (case_prod H) (set (pairs_of xs) \<union> set (pairs_of ys))"
      by (rule inj_on_subset [OF less.prems(3)]) (use hashed_pairs_next True ys in blast)
    ultimately have "pairs_of xs = pairs_of ys" unfolding next_level_pairs by (metis map_inj_on)
    then show ?thesis using pairs_of_inject xs'(2) ys'(2) by blast
  next
    case False
    then have "\<not> length ys > 1" using less.prems(4) depth.simps [of "length ys"] depth.simps [of "length xs"]
      by (auto split: if_splits)
    then show ?thesis using False less.prems(1,2) by (simp add: merkle_loop.simps)
  qed
qed

lemma merkle_binding:
  assumes "merkle_loop H xs False = ([r], False)" "merkle_loop H ys False = ([r], False)"
    and "inj_on (case_prod H) (hashed_pairs H xs \<union> hashed_pairs H ys)"
    and "depth (length xs) \<le> depth (length ys)" "xs \<noteq> []"
  shows "xs = ys \<or> set xs \<inter> case_prod H ` hashed_pairs H ys \<noteq> {}"
  using assms(2-4)
proof (induction ys rule: measure_induct_rule [of length])
  case (less ys)
  show ?case
  proof (cases "depth (length xs) = depth (length ys)")
    case True
    then show ?thesis using merkle_same_depth assms(1) less.prems by blast
  next
    case False
    then have ys: "length ys > 1" using less.prems(3) depth.simps [of "length ys"] by (auto split: if_splits)
    then have "depth (length xs) \<le> depth (length (next_level H ys))"
      using False less.prems(3) depth_next [of ys H] by linarith
    moreover have "inj_on (case_prod H) (hashed_pairs H xs \<union> hashed_pairs H (next_level H ys))"
      by (rule inj_on_subset [OF less.prems(2)]) (use hashed_pairs_next ys in blast)
    moreover have "length (next_level H ys) < length ys" using ys by simp
    ultimately have "xs = next_level H ys \<or> set xs \<inter> case_prod H ` hashed_pairs H (next_level H ys) \<noteq> {}"
      using less.IH merkle_loop_step(1) [OF less.prems(1) ys] by blast
    then show ?thesis
    proof
      assume "xs = next_level H ys"
      then have "set xs \<subseteq> case_prod H ` hashed_pairs H ys" using hashed_pairs_next(3) [OF ys] by simp
      moreover have "hd xs \<in> set xs" using assms(5) by simp
      ultimately show ?thesis by blast
    next
      assume "set xs \<inter> case_prod H ` hashed_pairs H (next_level H ys) \<noteq> {}"
      then show ?thesis using image_mono [OF hashed_pairs_next(1) [OF ys, of H], of "case_prod H"] by blast
    qed
  qed
qed

lemma ComputeMerkleRoot_loop:
  assumes "ComputeMerkleRoot H hashes = (r, m)" "hashes \<noteq> []"
  shows "merkle_loop H hashes False = ([r], m)"
proof -
  have "\<exists>h m'. merkle_loop H hs b = ([h], m')" if "hs \<noteq> []" for hs b
    using that
  proof (induction H hs b rule: merkle_loop.induct)
    case (1 H hs b)
    show ?case
    proof (cases "length hs > 1")
      case True
      then have "SHA256D64 H (pad_even hs) \<noteq> []" by (auto simp: length_0_conv [symmetric] simp del: length_0_conv)
      then show ?thesis using 1 True by (subst merkle_loop.simps) simp
    next
      case False
      then obtain h where "hs = [h]" using 1(2) by (cases hs) auto
      then show ?thesis by (simp add: merkle_loop_single)
    qed
  qed
  from this [OF assms(2), of False] show ?thesis using assms(1) by (auto simp: ComputeMerkleRoot_def)
qed

text \<open>
  C28. The Merkle root of a block binds its transactions: two non-empty lists of transaction identifiers with
  the same root, neither of which is reported as mutated, are equal, as long as the hash function has no
  collision among the pairs that the two computations hash and no identifier of one list is an inner node of the
  other. The report of duplicated pairs is what rules out the lists that repeat their tail
  (CVE-2012-2459).
\<close>

theorem merkle_root_binds:
  assumes "xs \<noteq> []" "ys \<noteq> []"
    and "ComputeMerkleRoot H xs = (r, False)" "ComputeMerkleRoot H ys = (r, False)"
    and "inj_on (\<lambda>(a, b). H a b) (hashed_pairs H xs \<union> hashed_pairs H ys)"
    and "\<forall>(a, b) \<in> hashed_pairs H ys. H a b \<notin> set xs" "\<forall>(a, b) \<in> hashed_pairs H xs. H a b \<notin> set ys"
  shows "xs = ys"
proof -
  have loops: "merkle_loop H xs False = ([r], False)" "merkle_loop H ys False = ([r], False)"
    using assms(1-4) ComputeMerkleRoot_loop by blast+
  have d: "set xs \<inter> case_prod H ` hashed_pairs H ys = {}" "set ys \<inter> case_prod H ` hashed_pairs H xs = {}"
    using assms(6,7) by auto
  have inj: "inj_on (case_prod H) (hashed_pairs H ys \<union> hashed_pairs H xs)" using assms(5) by (simp add: Un_commute)
  show ?thesis
    using merkle_binding [OF loops assms(5) _ assms(1)] merkle_binding [OF loops(2,1) inj _ assms(2)] d
    by (metis linear)
qed

text \<open>A hash function for examples: it escapes its first argument, so that the pair can be read back.\<close>

definition example_H :: "uint256 \<Rightarrow> uint256 \<Rightarrow> uint256" where
  "example_H a b = concat (map (\<lambda>x. [1, x]) a) @ [0, 0] @ b"

lemma example_H_inj: "example_H a b = example_H c d \<Longrightarrow> a = c \<and> b = d"
proof (induction a arbitrary: c)
  case Nil
  then show ?case by (cases c) (simp_all add: example_H_def)
next
  case (Cons x a)
  then show ?case by (cases c) (simp_all add: example_H_def)
qed

lemma example_H_length: "length (example_H a b) \<ge> 2"
  by (simp add: example_H_def)

theorem merkle_root_binds_witness:
  "ComputeMerkleRoot example_H [[1], [2], [3], [3]] = (fst (ComputeMerkleRoot example_H [[1], [2], [3]]), True) \<and>
    ([[1], [2], [3]] :: uint256 list) = map (\<lambda>k. [k]) [1, 2, 3]"
proof -
  let ?xs = "[[1], [2], [3]] :: uint256 list" and ?ys = "map (\<lambda>k. [k]) [1, 2, 3] :: uint256 list"
  have root: "ComputeMerkleRoot example_H ?xs = (example_H (example_H [1] [2]) (example_H [3] [3]), False)"
    by (simp add: ComputeMerkleRoot_def merkle_loop.simps pad_even_def) (simp add: example_H_def)
  moreover have "ComputeMerkleRoot example_H [[1], [2], [3], [3]] = (example_H (example_H [1] [2]) (example_H [3] [3]), True)"
    by (simp add: ComputeMerkleRoot_def merkle_loop.simps pad_even_def)
  moreover have "?xs = ?ys"
  proof (rule merkle_root_binds [where H = example_H])
    show "inj_on (\<lambda>(a, b). example_H a b) (hashed_pairs example_H ?xs \<union> hashed_pairs example_H ?ys)"
      by (auto simp: inj_on_def dest: example_H_inj)
    have "example_H a b \<noteq> [k]" for a b k using example_H_length [of a b] by auto
    then show "\<forall>(a, b) \<in> hashed_pairs example_H ?ys. example_H a b \<notin> set ?xs"
      "\<forall>(a, b) \<in> hashed_pairs example_H ?xs. example_H a b \<notin> set ?ys" by simp_all
  qed (use root in simp_all)
  ultimately show ?thesis by (intro conjI) (simp_all only: fst_conv)
qed

end
