(* ===== verification/Block.thy ===== *)
theory Block
  imports Merkle TxVerify Difficulty
begin

text \<open>
  Blocks and their context-free checks (\<open>primitives/block.h\<close>; \<open>CheckBlockHeader\<close>, \<open>CheckMerkleRoot\<close> and
  \<open>CheckBlock\<close> in \<open>validation.cpp\<close>). A block carries two memory-only flags which remember that a check
  has passed, so that the checks return the block with its flags. The test of a signet solution is left out: every
  chain of \<open>tknc_chainparams.cpp\<close> has \<open>signet_blocks\<close> off.
\<close>

record CBlock =
  header :: CBlockHeader
  vtx :: "CTransaction list"
  fChecked :: bool
  m_checked_merkle_root :: bool

datatype BlockValidationResult =
    BLOCK_RESULT_UNSET | BLOCK_CONSENSUS | BLOCK_CACHED_INVALID | BLOCK_INVALID_HEADER | BLOCK_MUTATED
  | BLOCK_MISSING_PREV | BLOCK_INVALID_PREV | BLOCK_TIME_FUTURE | BLOCK_HEADER_LOW_WORK

type_synonym block_error = "BlockValidationResult \<times> string"

definition MAX_BLOCK_SIGOPS_COST :: int where "MAX_BLOCK_SIGOPS_COST = 80000"

definition ser_header :: "CBlockHeader \<Rightarrow> stream" where
  "ser_header obj = ser_writedata32 (hdr_nVersion obj) @ ser_uint256 (hdr_hashPrevBlock obj) @
     ser_uint256 (hdr_hashMerkleRoot obj) @ ser_writedata32 (hdr_nTime obj) @ ser_writedata32 (hdr_nBits obj) @
     ser_writedata32 (hdr_nNonce obj)"

definition ser_block :: "bool \<Rightarrow> CBlock \<Rightarrow> stream" where
  "ser_block fAllowWitness obj = ser_header (header obj) @ ser_vector (SerializeTransaction fAllowWitness) (vtx obj)"

text \<open>The hash functions that a block is checked with, and the parameters of the chain.\<close>

record block_hashes =
  bh_Hash :: "stream \<Rightarrow> uint256"
  bh_pair :: "uint256 \<Rightarrow> uint256 \<Rightarrow> uint256"
  bh_header :: "CBlockHeader \<Rightarrow> uint256"
  bh_work :: "CBlockHeader \<Rightarrow> uint256"

definition CheckBlockHeader :: "block_hashes \<Rightarrow> Params \<Rightarrow> CBlockHeader \<Rightarrow> bool \<Rightarrow> block_error + unit" where
  "CheckBlockHeader hs params hdr fCheckPOW =
     (if fCheckPOW \<and> \<not> CheckProofOfWork False (bh_header hs) (bh_work hs) hdr params
      then Inl (BLOCK_INVALID_HEADER, ''high-hash'') else Inr ())"

definition CheckMerkleRoot :: "block_hashes \<Rightarrow> CBlock \<Rightarrow> (block_error + unit) \<times> CBlock" where
  "CheckMerkleRoot hs block =
     (if m_checked_merkle_root block then (Inr (), block)
      else
        let (merkle_root, mutated) = BlockMerkleRoot (bh_pair hs) (bh_Hash hs) (vtx block) in
        if hdr_hashMerkleRoot (header block) \<noteq> merkle_root then (Inl (BLOCK_MUTATED, ''bad-txnmrklroot''), block)
        else if mutated then (Inl (BLOCK_MUTATED, ''bad-txns-duplicate''), block)
        else (Inr (), block\<lparr>m_checked_merkle_root := True\<rparr>))"

fun check_transactions_loop :: "CTransaction list \<Rightarrow> (block_error + unit) option" where
  "check_transactions_loop [] = Some (Inr ())"
| "check_transactions_loop (tx # txs) =
     (case CheckTransaction tx of
        Inr _ \<Rightarrow> check_transactions_loop txs
      | Inl (result, reason) \<Rightarrow> if result = TX_CONSENSUS then Some (Inl (BLOCK_CONSENSUS, reason)) else None)"

fun block_sigops_loop :: "CTransaction list \<Rightarrow> 32 word \<Rightarrow> 32 word option" where
  "block_sigops_loop [] nSigOps = Some nSigOps"
| "block_sigops_loop (tx # txs) nSigOps = do {
     n \<leftarrow> GetLegacySigOpCount tx;
     block_sigops_loop txs (nSigOps + n)
   }"

definition CheckBlock :: "block_hashes \<Rightarrow> Params \<Rightarrow> CBlock \<Rightarrow> bool \<Rightarrow> bool \<Rightarrow> ((block_error + unit) \<times> CBlock) option" where
  "CheckBlock hs params block fCheckPOW fCheckMerkleRoot =
     (if fChecked block then Some (Inr (), block)
      else case CheckBlockHeader hs params (header block) fCheckPOW of
        Inl e \<Rightarrow> Some (Inl e, block)
      | Inr _ \<Rightarrow>
        (case (if fCheckMerkleRoot then CheckMerkleRoot hs block else (Inr (), block)) of
           (Inl e, block) \<Rightarrow> Some (Inl e, block)
         | (Inr _, block) \<Rightarrow>
           if vtx block = [] \<or> length (vtx block) * WITNESS_SCALE_FACTOR > MAX_BLOCK_WEIGHT \<or>
             length (ser_block False block) * WITNESS_SCALE_FACTOR > MAX_BLOCK_WEIGHT
           then Some (Inl (BLOCK_CONSENSUS, ''bad-blk-length''), block)
           else if \<not> IsCoinBase (hd (vtx block)) then Some (Inl (BLOCK_CONSENSUS, ''bad-cb-missing''), block)
           else if list_ex IsCoinBase (tl (vtx block)) then Some (Inl (BLOCK_CONSENSUS, ''bad-cb-multiple''), block)
           else do {
             r \<leftarrow> check_transactions_loop (vtx block);
             case r of
               Inl e \<Rightarrow> Some (Inl e, block)
             | Inr _ \<Rightarrow> do {
                 nSigOps \<leftarrow> block_sigops_loop (vtx block) 0;
                 if uint (nSigOps * of_nat WITNESS_SCALE_FACTOR) > MAX_BLOCK_SIGOPS_COST
                 then Some (Inl (BLOCK_CONSENSUS, ''bad-blk-sigops''), block)
                 else Some (Inr (), if fCheckPOW \<and> fCheckMerkleRoot then block\<lparr>fChecked := True\<rparr> else block)
               }
           }))"

section \<open>What a checked block is\<close>

definition transactions_ok :: "CTransaction list \<Rightarrow> bool" where
  "transactions_ok txs \<longleftrightarrow> txs \<noteq> [] \<and> IsCoinBase (hd txs) \<and> list_all (\<lambda>tx. \<not> IsCoinBase tx) (tl txs) \<and>
     list_all (\<lambda>tx. CheckTransaction tx = Inr ()) txs"

definition merkle_ok :: "block_hashes \<Rightarrow> CBlock \<Rightarrow> bool" where
  "merkle_ok hs block \<longleftrightarrow>
     BlockMerkleRoot (bh_pair hs) (bh_Hash hs) (vtx block) = (hdr_hashMerkleRoot (header block), False)"

text \<open>The flags of a block only ever claim what is true of it.\<close>

definition flags_sound :: "block_hashes \<Rightarrow> Params \<Rightarrow> CBlock \<Rightarrow> bool" where
  "flags_sound hs params block \<longleftrightarrow>
     (m_checked_merkle_root block \<longrightarrow> merkle_ok hs block) \<and>
     (fChecked block \<longrightarrow> merkle_ok hs block \<and> transactions_ok (vtx block) \<and>
        CheckProofOfWork False (bh_header hs) (bh_work hs) (header block) params)"

lemma CheckTransaction_consensus: "CheckTransaction tx = Inl (result, reason) \<Longrightarrow> result = TX_CONSENSUS"
  by (auto simp: CheckTransaction_def split: if_splits option.splits)

lemma check_transactions_loop_correct:
  "\<exists>r. check_transactions_loop txs = Some r \<and> (r = Inr () \<longleftrightarrow> list_all (\<lambda>tx. CheckTransaction tx = Inr ()) txs)"
proof (induction txs)
  case (Cons tx txs)
  then show ?case
    by (cases "CheckTransaction tx") (auto dest: CheckTransaction_consensus)
qed simp

lemma block_sigops_loop_total: "block_sigops_loop txs n \<noteq> None"
proof (induction txs arbitrary: n)
  case (Cons tx txs)
  obtain k where "GetLegacySigOpCount tx = Some k" using GetLegacySigOpCount_total by blast
  then show ?case using Cons by simp
qed simp

lemma CheckMerkleRoot_sound:
  assumes "CheckMerkleRoot hs block = (r, block')" "flags_sound hs params block"
  shows "flags_sound hs params block'" "header block' = header block" "vtx block' = vtx block"
    "fChecked block' = fChecked block" "r = Inr () \<Longrightarrow> merkle_ok hs block"
  using assms by (auto simp: CheckMerkleRoot_def flags_sound_def merkle_ok_def split: if_splits prod.splits)

lemma CheckBlock_sound:
  assumes "flags_sound hs params block"
  shows "\<exists>r block'. CheckBlock hs params block fCheckPOW fCheckMerkleRoot = Some (r, block') \<and>
    flags_sound hs params block' \<and> header block' = header block \<and> vtx block' = vtx block \<and>
    (r = Inr () \<longrightarrow> transactions_ok (vtx block) \<and> (fCheckMerkleRoot \<longrightarrow> merkle_ok hs block) \<and>
      (fCheckPOW \<longrightarrow> CheckProofOfWork False (bh_header hs) (bh_work hs) (header block) params))"
proof (cases "fChecked block")
  case True
  then show ?thesis using assms by (auto simp: CheckBlock_def flags_sound_def)
next
  case nc: False
  show ?thesis
  proof (cases "CheckBlockHeader hs params (header block) fCheckPOW")
    case (Inl e)
    then show ?thesis using assms nc by (simp add: CheckBlock_def)
  next
    case hdr: (Inr u)
    then have pow: "fCheckPOW \<longrightarrow> CheckProofOfWork False (bh_header hs) (bh_work hs) (header block) params"
      by (auto simp: CheckBlockHeader_def split: if_splits)
    obtain r1 b1 where m: "(if fCheckMerkleRoot then CheckMerkleRoot hs block else (Inr (), block)) = (r1, b1)"
      by (cases "if fCheckMerkleRoot then CheckMerkleRoot hs block else (Inr (), block)") blast
    have b1: "flags_sound hs params b1" "header b1 = header block" "vtx b1 = vtx block" "\<not> fChecked b1"
      "r1 = Inr () \<longrightarrow> fCheckMerkleRoot \<longrightarrow> merkle_ok hs block"
    proof -
      have "flags_sound hs params b1 \<and> header b1 = header block \<and> vtx b1 = vtx block \<and> \<not> fChecked b1 \<and>
          (r1 = Inr () \<longrightarrow> fCheckMerkleRoot \<longrightarrow> merkle_ok hs block)"
      proof (cases fCheckMerkleRoot)
        case True
        then have "CheckMerkleRoot hs block = (r1, b1)" using m by simp
        from CheckMerkleRoot_sound [OF this assms] show ?thesis using nc by simp
      next
        case False
        then show ?thesis using m assms nc by simp
      qed
      then show "flags_sound hs params b1" "header b1 = header block" "vtx b1 = vtx block" "\<not> fChecked b1"
        "r1 = Inr () \<longrightarrow> fCheckMerkleRoot \<longrightarrow> merkle_ok hs block" by blast+
    qed
    obtain r2 where r2: "check_transactions_loop (vtx block) = Some r2"
      "r2 = Inr () \<longleftrightarrow> list_all (\<lambda>tx. CheckTransaction tx = Inr ()) (vtx block)"
      using check_transactions_loop_correct by blast
    obtain k where k: "block_sigops_loop (vtx block) 0 = Some k" using block_sigops_loop_total by blast
    have set_flag: "flags_sound hs params (b1\<lparr>fChecked := True\<rparr>)"
      if "merkle_ok hs block" "transactions_ok (vtx block)" "CheckProofOfWork False (bh_header hs) (bh_work hs) (header block) params"
      using that b1(1-3) by (auto simp: flags_sound_def merkle_ok_def)
    show ?thesis
    proof (cases r1)
      case (Inl e)
      then show ?thesis using nc hdr m b1 by (simp add: CheckBlock_def)
    next
      case (Inr v)
      show ?thesis
        using nc hdr m b1 Inr r2 k pow set_flag
        by (cases r2) (auto simp: CheckBlock_def transactions_ok_def list_all_iff list_ex_iff not_less)
    qed
  qed
qed

end
