(* ===== verification/Connect.thy ===== *)
theory Connect
  imports Block Emission
begin

text \<open>
  Connecting a block to the unspent outputs (\<open>UpdateCoins\<close>, \<open>CheckInputScripts\<close> and \<open>ConnectBlock\<close> in
  \<open>validation.cpp\<close>): the check against overwriting, the inputs and lock times of every transaction, fees, signature
  operations, the reward and its split with the team wallet, and the undo data. The outcome of executing the
  scripts of a transaction against the outputs it spends is the parameter \<open>script_checks\<close> (a reject
  reason or none), as are whether they are known to pass from an earlier execution (\<open>script_cached\<close>) and the script of the team
  wallet; script checks run in the calling thread. A result \<open>Inl\<close> is the reason of an invalid block or a corrupt one, \<open>None\<close> a failed
  assertion.
\<close>

type_synonym CTxUndo = "Coin list"

fun spend_inputs :: "'b CCoinsView \<Rightarrow> CTxIn list \<Rightarrow> 'b CCoinsViewCache \<Rightarrow> (CTxUndo \<times> 'b CCoinsViewCache) option" where
  "spend_inputs base [] inputs = Some ([], inputs)"
| "spend_inputs base (txin # ins) inputs = do {
     (r, inputs) \<leftarrow> SpendCoin base inputs (prevout txin);
     undo \<leftarrow> r;
     (vprevout, inputs) \<leftarrow> spend_inputs base ins inputs;
     Some (undo # vprevout, inputs)
   }"

definition UpdateCoins :: "(stream \<Rightarrow> uint256) \<Rightarrow> 'b CCoinsView \<Rightarrow> CTransaction \<Rightarrow> int \<Rightarrow> 'b CCoinsViewCache
    \<Rightarrow> (CTxUndo \<times> 'b CCoinsViewCache) option" where
  "UpdateCoins Hash base tx h inputs = do {
     (txundo, inputs) \<leftarrow> (if \<not> IsCoinBase tx then spend_inputs base (vin tx) inputs else Some ([], inputs));
     inputs \<leftarrow> AddCoins Hash base tx h False inputs;
     Some (txundo, inputs)
   }"

fun spent_outputs_loop :: "'b CCoinsView \<Rightarrow> CTxIn list \<Rightarrow> 'b CCoinsViewCache \<Rightarrow> (CTxOut list \<times> 'b CCoinsViewCache) option" where
  "spent_outputs_loop base [] inputs = Some ([], inputs)"
| "spent_outputs_loop base (txin # ins) inputs = do {
     (x, inputs) \<leftarrow> AccessCoin base inputs (prevout txin);
     if IsSpent x then None
     else do {
       (spent_outputs, inputs) \<leftarrow> spent_outputs_loop base ins inputs;
       Some (coin_out x # spent_outputs, inputs)
     }
   }"

definition CheckInputScripts :: "'b CCoinsView \<Rightarrow> (CTransaction \<Rightarrow> bool) \<Rightarrow> (CTransaction \<Rightarrow> CTxOut list \<Rightarrow> string option) \<Rightarrow> CTransaction
    \<Rightarrow> 'b CCoinsViewCache \<Rightarrow> (string option \<times> 'b CCoinsViewCache) option" where
  "CheckInputScripts base script_cached script_checks tx inputs =
     (if IsCoinBase tx then Some (None, inputs)
      else if script_cached tx then Some (None, inputs)
      else do {
        (spent_outputs, inputs) \<leftarrow> spent_outputs_loop base (vin tx) inputs;
        Some (script_checks tx spent_outputs, inputs)
      })"

section \<open>Overwriting\<close>

definition IsBIP30Repeat :: "int \<Rightarrow> uint256 \<Rightarrow> bool" where
  "IsBIP30Repeat h hash \<longleftrightarrow>
     (h = 91842 \<and> le_val hash = 0x00000000000a4d0a398161ffc163c503763b1f4360639393e0e4c8e300e0caec) \<or>
     (h = 91880 \<and> le_val hash = 0x00000000000743f190a18c5577a3c2d2a1f610ae9601ac046a38084ccb7cd721)"

definition BIP34_IMPLIES_BIP30_LIMIT :: int where "BIP34_IMPLIES_BIP30_LIMIT = 1983702"

text \<open>Whether overwriting is checked; \<open>BIP34Hash\<close> is the null hash in every chain of \<open>tknc_chainparams.cpp\<close>.\<close>

definition EnforceBIP30 :: "block_map \<Rightarrow> Params \<Rightarrow> uint256 \<Rightarrow> bool option" where
  "EnforceBIP30 m params block_hash = do {
     pindex \<leftarrow> m block_hash;
     prev \<leftarrow> pprev pindex;
     pindexBIP34height \<leftarrow> GetAncestor m prev (BIP34Height params);
     Some (\<not> IsBIP30Repeat (int (nHeight pindex)) block_hash \<and>
         (case pindexBIP34height of None \<Rightarrow> True | Some p \<Rightarrow> p \<noteq> uint256_null)
       \<or> int (nHeight pindex) \<ge> BIP34_IMPLIES_BIP30_LIMIT)
   }"

fun have_outputs :: "'b CCoinsView \<Rightarrow> uint256 \<Rightarrow> nat \<Rightarrow> nat \<Rightarrow> 'b CCoinsViewCache \<Rightarrow> (bool \<times> 'b CCoinsViewCache) option" where
  "have_outputs base txid i 0 view = Some (False, view)"
| "have_outputs base txid i (Suc n) view = do {
     (b, view) \<leftarrow> HaveCoin base view \<lparr>op_hash = txid, op_n = of_nat i\<rparr>;
     (b', view) \<leftarrow> have_outputs base txid (i + 1) n view;
     Some (b \<or> b', view)
   }"

fun bip30_loop :: "(stream \<Rightarrow> uint256) \<Rightarrow> 'b CCoinsView \<Rightarrow> CTransaction list \<Rightarrow> 'b CCoinsViewCache \<Rightarrow> (bool \<times> 'b CCoinsViewCache) option" where
  "bip30_loop Hash base [] view = Some (False, view)"
| "bip30_loop Hash base (tx # txs) view = do {
     (b, view) \<leftarrow> have_outputs base (GetTxid Hash tx) 0 (length (vout tx)) view;
     (b', view) \<leftarrow> bip30_loop Hash base txs view;
     Some (b \<or> b', view)
   }"

section \<open>The transactions of a block\<close>

fun access_heights :: "'b CCoinsView \<Rightarrow> CTxIn list \<Rightarrow> 'b CCoinsViewCache \<Rightarrow> (int list \<times> 'b CCoinsViewCache) option" where
  "access_heights base [] view = Some ([], view)"
| "access_heights base (txin # ins) view = do {
     (x, view) \<leftarrow> AccessCoin base view (prevout txin);
     (hs, view) \<leftarrow> access_heights base ins view;
     Some (uint (coin_nHeight x) # hs, view)
   }"

text \<open>
  The rules in force for a block: the flags for its lock times and for counting signature operations, whether
  scripts are executed, and their outcome.
\<close>

record connect_rules =
  nLockTimeFlags :: "32 word"
  verify_p2sh :: bool
  verify_witness :: bool
  fScriptChecks :: bool
  script_cached :: "CTransaction \<Rightarrow> bool"
  script_checks :: "CTransaction \<Rightarrow> CTxOut list \<Rightarrow> string option"

text \<open>One iteration: the running fees and signature operations, and the undo data of the transaction.\<close>

definition connect_inputs :: "'b CCoinsView \<Rightarrow> connect_rules \<Rightarrow> block_map \<Rightarrow> uint256 \<Rightarrow> int \<Rightarrow> CTransaction \<Rightarrow> CAmount
    \<Rightarrow> 'b CCoinsViewCache \<Rightarrow> ((string + CAmount) \<times> 'b CCoinsViewCache) option" where
  "connect_inputs base rules m block_hash h tx nFees view =
     (if IsCoinBase tx then Some (Inr nFees, view)
      else do {
        (fee, view) \<leftarrow> CheckTxInputs base tx view h;
        case fee of
          Inl (_, reason) \<Rightarrow> Some (Inl reason, view)
        | Inr txfee \<Rightarrow>
            if \<not> MoneyRange (nFees + txfee) then Some (Inl ''bad-txns-accumulated-fee-outofrange'', view)
            else do {
              (prevheights, view) \<leftarrow> access_heights base (vin tx) view;
              locks \<leftarrow> SequenceLocks m tx (nLockTimeFlags rules) prevheights block_hash;
              Some (if \<not> locks then Inl ''bad-txns-nonfinal'' else Inr (nFees + txfee), view)
            }
      })"

definition connect_scripts :: "'b CCoinsView \<Rightarrow> connect_rules \<Rightarrow> CTransaction \<Rightarrow> int \<Rightarrow> 'b CCoinsViewCache
    \<Rightarrow> ((string + int) \<times> 'b CCoinsViewCache) option" where
  "connect_scripts base rules tx nSigOpsCost view = do {
     (n, view) \<leftarrow> GetTransactionSigOpCost base tx (verify_p2sh rules) (verify_witness rules) view;
     if nSigOpsCost + n > MAX_BLOCK_SIGOPS_COST then Some (Inl ''bad-blk-sigops'', view)
     else if \<not> IsCoinBase tx \<and> fScriptChecks rules then do {
       (r, view) \<leftarrow> CheckInputScripts base (script_cached rules) (script_checks rules) tx view;
       Some (case r of Some reason \<Rightarrow> Inl reason | None \<Rightarrow> Inr (nSigOpsCost + n), view)
     }
     else Some (Inr (nSigOpsCost + n), view)
   }"

fun connect_loop :: "(stream \<Rightarrow> uint256) \<Rightarrow> 'b CCoinsView \<Rightarrow> connect_rules \<Rightarrow> block_map \<Rightarrow> uint256 \<Rightarrow> int \<Rightarrow> nat
    \<Rightarrow> CTransaction list \<Rightarrow> CAmount \<Rightarrow> int \<Rightarrow> 'b CCoinsViewCache
    \<Rightarrow> ((string + CAmount \<times> CTxUndo list) \<times> 'b CCoinsViewCache) option" where
  "connect_loop Hash base rules m block_hash h i [] nFees nSigOpsCost view = Some (Inr (nFees, []), view)"
| "connect_loop Hash base rules m block_hash h i (tx # txs) nFees nSigOpsCost view = do {
     (r, view) \<leftarrow> connect_inputs base rules m block_hash h tx nFees view;
     case r of
       Inl e \<Rightarrow> Some (Inl e, view)
     | Inr nFees \<Rightarrow> do {
         (r, view) \<leftarrow> connect_scripts base rules tx nSigOpsCost view;
         case r of
           Inl e \<Rightarrow> Some (Inl e, view)
         | Inr nSigOpsCost \<Rightarrow> do {
             (txundo, view) \<leftarrow> UpdateCoins Hash base tx h view;
             (r, view) \<leftarrow> connect_loop Hash base rules m block_hash h (i + 1) txs nFees nSigOpsCost view;
             Some (case r of
                 Inl e \<Rightarrow> Inl e
               | Inr (fees, undos) \<Rightarrow> Inr (fees, if i > 0 then txundo # undos else undos), view)
           }
       }
   }"

section \<open>The reward\<close>

definition TKNC_TEAM_SHARE_PERCENT :: int where "TKNC_TEAM_SHARE_PERCENT = 10"

definition GetBlockSubsidy :: "int \<Rightarrow> CAmount" where
  "GetBlockSubsidy h = GetTKNCBlockSubsidy h"

definition CheckReward :: "byte list \<Rightarrow> int \<Rightarrow> CAmount \<Rightarrow> CTransaction \<Rightarrow> (string option) option" where
  "CheckReward expectedTeamScript h nFees coinbase = do {
     totalCoinbase \<leftarrow> GetValueOut coinbase;
     if totalCoinbase > nFees + GetBlockSubsidy h then Some (Some ''bad-cb-amount'')
     else if h > 0 then
       (if length (vout coinbase) < 2 then Some (Some ''bad-cb-teamwallet'')
        else if scriptPubKey (vout coinbase ! 1) \<noteq> expectedTeamScript then Some (Some ''bad-cb-teamwallet'')
        else if totalCoinbase > 0 \<and>
          (let expectedTeam = (totalCoinbase * TKNC_TEAM_SHARE_PERCENT) sdiv 100; tolerance = 1 in
           nValue (vout coinbase ! 1) < expectedTeam - tolerance \<or> nValue (vout coinbase ! 1) > expectedTeam + tolerance)
          then Some (Some ''bad-cb-teamwallet'')
        else Some None)
     else Some None
   }"

text \<open>The transactions of \<open>CreateNewBlock\<close>'s coinbase (\<open>node/miner.cpp\<close>), before the witness commitment is added.\<close>

definition coinbase_outputs :: "byte list \<Rightarrow> byte list \<Rightarrow> CAmount \<Rightarrow> int \<Rightarrow> CTxOut list" where
  "coinbase_outputs coinbase_output_script teamScript nFees h =
     (let block_reward = nFees + GetBlockSubsidy h;
          team_reward = (block_reward * TKNC_TEAM_SHARE_PERCENT) sdiv 100;
          miner_reward = block_reward - team_reward
      in [\<lparr>nValue = miner_reward, scriptPubKey = coinbase_output_script\<rparr>,
          \<lparr>nValue = team_reward, scriptPubKey = teamScript\<rparr>])"

section \<open>Connecting a block\<close>

text \<open>
  A block is invalid for a reason, or corrupt: a block on disk whose transactions do not match its header is a fatal error of the node.
  Its undo data is returned, to be written by the caller.
\<close>

datatype connect_failure = InvalidBlock block_error | CorruptBlock

definition ConnectBlock :: "block_hashes \<Rightarrow> Params \<Rightarrow> 'b CCoinsView \<Rightarrow> connect_rules \<Rightarrow> byte list \<Rightarrow> block_map \<Rightarrow> CBlock \<Rightarrow> uint256
    \<Rightarrow> bool \<Rightarrow> 'b CCoinsViewCache \<Rightarrow> ((connect_failure + CTxUndo list) \<times> CBlock \<times> 'b CCoinsViewCache) option" where
  "ConnectBlock hs params base rules teamScript m block pindex fJustCheck view = do {
     b \<leftarrow> m pindex;
     (if pindex \<noteq> bh_header hs (header block) then None
      else do {
        (r, block) \<leftarrow> CheckBlock hs params block (\<not> fJustCheck) (\<not> fJustCheck);
        case r of
          Inl e \<Rightarrow> Some (Inl (if fst e = BLOCK_MUTATED then CorruptBlock else InvalidBlock e), block, view)
        | Inr _ \<Rightarrow>
          (let (best, view) = GetBestBlock base view;
               hashPrevBlock = (case pprev b of None \<Rightarrow> uint256_null | Some p \<Rightarrow> p) in
           if hashPrevBlock \<noteq> best then None
           else if pindex = hashGenesisBlock params then
             Some (Inr [], block, if fJustCheck then view else SetBestBlock pindex view)
           else do {
             enforce \<leftarrow> EnforceBIP30 m params pindex;
             (overwrites, view) \<leftarrow> (if enforce then bip30_loop (bh_Hash hs) base (vtx block) view else Some (False, view));
             if overwrites then Some (Inl (InvalidBlock (BLOCK_CONSENSUS, ''bad-txns-BIP30'')), block, view)
             else do {
               (r, view) \<leftarrow> connect_loop (bh_Hash hs) base rules m pindex (int (nHeight b)) 0 (vtx block) 0 0 view;
               case r of
                 Inl reason \<Rightarrow> Some (Inl (InvalidBlock (BLOCK_CONSENSUS, reason)), block, view)
               | Inr (nFees, vtxundo) \<Rightarrow> do {
                   reward \<leftarrow> CheckReward teamScript (int (nHeight b)) nFees (hd (vtx block));
                   case reward of
                     Some reason \<Rightarrow> Some (Inl (InvalidBlock (BLOCK_CONSENSUS, reason)), block, view)
                   | None \<Rightarrow> Some (Inr vtxundo, block, if fJustCheck then view else SetBestBlock pindex view)
                 }
             }
           })
      })
   }"

end
