(* ===== verification/Ledger.thy ===== *)
theory Ledger
  imports Connect
begin

text \<open>
  What connecting a block does to the unspent outputs as a map: the effect of a transaction, the total value, and that
  the operations of \<open>Connect\<close> on a coins cache implement it.
\<close>

section \<open>The effect of a transaction on the unspent outputs\<close>

fun remove_inputs :: "CTxIn list \<Rightarrow> utxo \<Rightarrow> utxo" where
  "remove_inputs [] u = u"
| "remove_inputs (i # ins) u = remove_inputs ins (u(prevout i := None))"

fun add_outputs :: "uint256 \<Rightarrow> bool \<Rightarrow> int \<Rightarrow> nat \<Rightarrow> CTxOut list \<Rightarrow> utxo \<Rightarrow> utxo" where
  "add_outputs txid cb h i [] u = u"
| "add_outputs txid cb h i (out # outs) u =
     add_outputs txid cb h (i + 1) outs
       (if IsUnspendable (scriptPubKey out) then u else u(\<lparr>op_hash = txid, op_n = of_nat i\<rparr> \<mapsto> mk_Coin out h cb))"

definition tx_effect :: "(stream \<Rightarrow> uint256) \<Rightarrow> int \<Rightarrow> CTransaction \<Rightarrow> utxo \<Rightarrow> utxo" where
  "tx_effect Hash h tx u = add_outputs (GetTxid Hash tx) (IsCoinBase tx) h 0 (vout tx)
     (if IsCoinBase tx then u else remove_inputs (vin tx) u)"

definition block_effect :: "(stream \<Rightarrow> uint256) \<Rightarrow> int \<Rightarrow> CTransaction list \<Rightarrow> utxo \<Rightarrow> utxo" where
  "block_effect Hash h txs u = fold (tx_effect Hash h) txs u"

fun block_undo :: "(stream \<Rightarrow> uint256) \<Rightarrow> int \<Rightarrow> CTransaction list \<Rightarrow> utxo \<Rightarrow> CTxUndo list" where
  "block_undo Hash h [] u = []"
| "block_undo Hash h (tx # txs) u = spent_coins u (vin tx) # block_undo Hash h txs (tx_effect Hash h tx u)"

text \<open>None of the outputs that a transaction would create exists.\<close>

definition fresh_outputs :: "(stream \<Rightarrow> uint256) \<Rightarrow> CTransaction \<Rightarrow> utxo \<Rightarrow> bool" where
  "fresh_outputs Hash tx u \<longleftrightarrow> (\<forall>j < length (vout tx). u \<lparr>op_hash = GetTxid Hash tx, op_n = of_nat j\<rparr> = None)"

definition inputs_present :: "CTransaction \<Rightarrow> utxo \<Rightarrow> bool" where
  "inputs_present tx u \<longleftrightarrow> list_all (\<lambda>i. u (prevout i) \<noteq> None) (vin tx)"

lemma mk_Coin_simps [simp]: "IsSpent (mk_Coin out h cb) \<longleftrightarrow> nValue out = -1" "coin_out (mk_Coin out h cb) = out"
  by (simp_all add: IsSpent_def mk_Coin_def)

lemma remove_inputs_eq: "remove_inputs ins u k = (if k \<in> prevout ` set ins then None else u k)"
  by (induction ins arbitrary: u) auto

lemma of_nat_index: "i < 2 ^ 32 \<Longrightarrow> j < 2 ^ 32 \<Longrightarrow> (of_nat i :: 32 word) = of_nat j \<longleftrightarrow> i = j"
  by (auto simp: word_of_nat_eq_iff take_bit_eq_mod)

lemma add_outputs_other:
  "op_hash k \<noteq> txid \<Longrightarrow> add_outputs txid cb h i outs u k = u k"
  by (induction outs arbitrary: i u) auto

lemma add_outputs_below:
  "j < i \<Longrightarrow> i + length outs \<le> 2 ^ 32 \<Longrightarrow>
    add_outputs txid cb h i outs u \<lparr>op_hash = txid, op_n = of_nat j\<rparr> = u \<lparr>op_hash = txid, op_n = of_nat j\<rparr>"
proof (induction outs arbitrary: i u)
  case (Cons out outs)
  then have "(of_nat j :: 32 word) \<noteq> of_nat i" by (subst of_nat_index) auto
  then show ?case using Cons by simp
qed simp

lemma ex_index_Suc:
  fixes P :: "nat \<Rightarrow> bool"
  shows "(\<exists>j. i \<le> j \<and> j < i + Suc n \<and> P j) \<longleftrightarrow> P i \<or> (\<exists>j. i + 1 \<le> j \<and> j < i + 1 + n \<and> P j)"
proof -
  have "i \<le> j \<and> j < i + Suc n \<longleftrightarrow> j = i \<or> i + 1 \<le> j \<and> j < i + 1 + n" for j by auto
  then show ?thesis by metis
qed

section \<open>Transactions are small\<close>

lemma length_concat_ge: "(\<And>x. x \<in> set xs \<Longrightarrow> 1 \<le> length (f x)) \<Longrightarrow> length xs \<le> length (concat (map f xs))"
proof (induction xs)
  case (Cons x xs)
  have "1 \<le> length (f x)" "length xs \<le> length (concat (map f xs))" using Cons by simp_all
  then have "Suc (length xs) \<le> length (f x) + length (concat (map f xs))" by linarith
  then show ?case by simp
qed simp

lemma checked_outputs: "CheckTransaction tx = Inr () \<Longrightarrow> length (vout tx) < 2 ^ 32"
proof -
  assume c: "CheckTransaction tx = Inr ()"
  then have "length (SerializeTransaction False tx) * WITNESS_SCALE_FACTOR \<le> MAX_BLOCK_WEIGHT"
    by (auto simp: CheckTransaction_def split: if_splits)
  moreover have "length (vout tx) \<le> length (concat (map ser_txout (vout tx)))"
    by (rule length_concat_ge) (simp add: ser_txout_def ser_i64_def ser_writedata64_def)
  then have "length (vout tx) \<le> length (SerializeTransaction False tx)"
    by (simp add: SerializeTransaction_def ser_vector_def)
  ultimately show ?thesis by (simp add: WITNESS_SCALE_FACTOR_def MAX_BLOCK_WEIGHT_def)
qed

lemma checked_values:
  assumes "CheckTransaction tx = Inr ()" "out \<in> set (vout tx)"
  shows "MoneyRange (nValue out)" "nValue out \<noteq> -1"
proof -
  have "GetValueOut tx \<noteq> None" using CheckTransaction_InrD(3) [OF assms(1)] .
  then have "list_all (\<lambda>out. MoneyRange (nValue out)) (vout tx)" by (auto simp: GetValueOut_eq split: if_splits)
  then show "MoneyRange (nValue out)" using assms(2) by (simp add: list_all_iff)
  then show "nValue out \<noteq> -1" by (simp add: MoneyRange_def)
qed

section \<open>The cache implements the effect\<close>

context coins_reader
begin

lemma SpendCoin_present:
  assumes "cache_inv binv babs c" "cache_abs babs c k = Some x"
  shows "\<exists>c'. SpendCoin base c k = Some (Some x, c') \<and> cache_inv binv babs c' \<and>
    cache_abs babs c' = (cache_abs babs c)(k := None)"
proof -
  obtain r c' where c': "SpendCoin base c k = Some (r, c')" "cache_inv binv babs c'"
    "cache_abs babs c' = (cache_abs babs c)(k := None)" "Option.bind r unspent = Some x"
    using SpendCoin_correct [OF assms(1), of k] assms(2) by auto
  moreover have "r = Some x" using c'(4) by (cases r) (auto simp: unspent_def split: if_splits)
  ultimately show ?thesis by blast
qed

lemma spend_inputs_correct:
  assumes "cache_inv binv babs c" "distinct (map prevout ins)"
    "list_all (\<lambda>i. cache_abs babs c (prevout i) \<noteq> None) ins"
  shows "\<exists>c'. spend_inputs base ins c = Some (spent_coins (cache_abs babs c) ins, c') \<and> cache_inv binv babs c' \<and>
    cache_abs babs c' = remove_inputs ins (cache_abs babs c)"
  using assms
proof (induction ins arbitrary: c)
  case (Cons i ins)
  obtain x where x: "cache_abs babs c (prevout i) = Some x" using Cons.prems(3) by auto
  obtain c1 where c1: "SpendCoin base c (prevout i) = Some (Some x, c1)" "cache_inv binv babs c1"
    "cache_abs babs c1 = (cache_abs babs c)(prevout i := None)"
    using SpendCoin_present [OF Cons.prems(1) x] by blast
  have ne: "prevout j \<noteq> prevout i" if "j \<in> set ins" for j
    using Cons.prems(2) imageI [OF that, of prevout] by auto
  have "list_all (\<lambda>j. cache_abs babs c1 (prevout j) \<noteq> None) ins"
    using Cons.prems(3) ne by (simp add: c1(3) list_all_iff)
  moreover have "spent_coins (cache_abs babs c1) ins = spent_coins (cache_abs babs c) ins"
    using ne by (simp add: c1(3) spent_coins_def)
  ultimately obtain c2 where "spend_inputs base ins c1 = Some (spent_coins (cache_abs babs c) ins, c2)"
    "cache_inv binv babs c2" "cache_abs babs c2 = remove_inputs ins (cache_abs babs c1)"
    using Cons.IH [OF c1(2)] Cons.prems(2) by (metis distinct.simps(2) list.simps(9))
  then show ?case using x c1(1,3) by (simp add: spent_coins_def)
qed (simp add: spent_coins_def)

lemma add_coins_loop_correct:
  assumes "cache_inv binv babs c" "list_all (\<lambda>out. nValue out \<noteq> -1) outs" "i + length outs < 2 ^ 32"
    "\<And>j. i \<le> j \<Longrightarrow> j < i + length outs \<Longrightarrow> cache_abs babs c \<lparr>op_hash = txid, op_n = of_nat j\<rparr> = None"
  shows "\<exists>c'. add_coins_loop base txid cb h False i outs c = Some c' \<and> cache_inv binv babs c' \<and>
    cache_abs babs c' = add_outputs txid cb h i outs (cache_abs babs c)"
  using assms
proof (induction outs arbitrary: i c)
  case (Cons out outs)
  let ?k = "\<lparr>op_hash = txid, op_n = of_nat i\<rparr> :: COutPoint"
  let ?x = "mk_Coin out h cb"
  have none: "cache_abs babs c ?k = None" using Cons.prems(4) [of i] by simp
  let ?u = "if IsUnspendable (scriptPubKey out) then cache_abs babs c else (cache_abs babs c)(?k \<mapsto> ?x)"
  obtain c1 where c1: "AddCoin ?k ?x cb c = Some c1" "cache_inv binv babs c1" "cache_abs babs c1 = ?u"
  proof (cases "IsUnspendable (scriptPubKey out)")
    case True
    then show ?thesis using that Cons.prems(1,2) by (simp add: AddCoin_def)
  next
    case False
    then show ?thesis using that AddCoin_correct [OF Cons.prems(1), of ?x cb ?k] Cons.prems(2) none by auto
  qed
  have "cache_abs babs c1 \<lparr>op_hash = txid, op_n = of_nat j\<rparr> = None" if "i + 1 \<le> j" "j < i + 1 + length outs" for j
  proof -
    have "(of_nat j :: 32 word) \<noteq> of_nat i" using that Cons.prems(3) by (subst of_nat_index) auto
    then show ?thesis using Cons.prems(4) [of j] that by (auto simp: c1(3))
  qed
  then show ?case using Cons.IH [OF c1(2), of "i + 1"] Cons.prems(2,3) c1(1,3) by simp
qed simp

lemma UpdateCoins_correct:
  assumes "cache_inv binv babs c" "CheckTransaction tx = Inr ()"
    "\<not> IsCoinBase tx \<Longrightarrow> inputs_present tx (cache_abs babs c)" "fresh_outputs Hash tx (cache_abs babs c)"
  shows "\<exists>c'. UpdateCoins Hash base tx h c =
      Some (if IsCoinBase tx then [] else spent_coins (cache_abs babs c) (vin tx), c') \<and>
    cache_inv binv babs c' \<and> cache_abs babs c' = tx_effect Hash h tx (cache_abs babs c)"
proof -
  let ?u = "if IsCoinBase tx then cache_abs babs c else remove_inputs (vin tx) (cache_abs babs c)"
  obtain c1 where c1: "(if \<not> IsCoinBase tx then spend_inputs base (vin tx) c else Some ([], c))
      = Some (if IsCoinBase tx then [] else spent_coins (cache_abs babs c) (vin tx), c1)"
    "cache_inv binv babs c1" "cache_abs babs c1 = ?u"
    using spend_inputs_correct [OF assms(1) CheckTransaction_InrD(4) [OF assms(2)]] assms(1,3)
    by (cases "IsCoinBase tx") (auto simp: inputs_present_def)
  have "list_all (\<lambda>out. nValue out \<noteq> -1) (vout tx)"
    using checked_values(2) [OF assms(2)] by (auto simp: list_all_iff)
  moreover have "cache_abs babs c1 \<lparr>op_hash = GetTxid Hash tx, op_n = of_nat j\<rparr> = None" if "j < length (vout tx)" for j
    using assms(4) that by (simp add: c1(3) fresh_outputs_def remove_inputs_eq)
  ultimately have "\<exists>c'. AddCoins Hash base tx h False c1 = Some c' \<and> cache_inv binv babs c' \<and>
      cache_abs babs c' = tx_effect Hash h tx (cache_abs babs c)"
    using add_coins_loop_correct [OF c1(2), of "vout tx" 0 "GetTxid Hash tx" "IsCoinBase tx" h] checked_outputs [OF assms(2)]
    by (simp add: AddCoins_def GetTxid_def tx_effect_def c1(3))
  then show ?thesis using c1(1) by (auto simp: UpdateCoins_def)
qed

lemma spent_outputs_loop_total:
  assumes "cache_inv binv babs c" "list_all (\<lambda>i. cache_abs babs c (prevout i) \<noteq> None) ins"
  shows "\<exists>outs c'. spent_outputs_loop base ins c = Some (outs, c') \<and> cache_inv binv babs c' \<and> cache_abs babs c' = cache_abs babs c"
  using assms
proof (induction ins arbitrary: c)
  case (Cons i ins)
  obtain x c1 where c1: "AccessCoin base c (prevout i) = Some (x, c1)" "\<not> IsSpent x" "cache_inv binv babs c1"
    "cache_abs babs c1 = cache_abs babs c"
    using AccessCoin_present [OF Cons.prems(1), of "prevout i"] Cons.prems(2) by auto
  obtain outs c2 where "spent_outputs_loop base ins c1 = Some (outs, c2)" "cache_inv binv babs c2"
    "cache_abs babs c2 = cache_abs babs c1"
    using Cons.IH [OF c1(3)] c1(4) Cons.prems(2) by auto
  then show ?case using c1 by auto
qed simp

lemma access_heights_correct:
  assumes "cache_inv binv babs c" "list_all (\<lambda>i. cache_abs babs c (prevout i) \<noteq> None) ins"
  shows "\<exists>c'. access_heights base ins c = Some (map (uint \<circ> coin_nHeight) (spent_coins (cache_abs babs c) ins), c') \<and>
    cache_inv binv babs c' \<and> cache_abs babs c' = cache_abs babs c"
  using assms
proof (induction ins arbitrary: c)
  case (Cons i ins)
  obtain x c1 where c1: "AccessCoin base c (prevout i) = Some (x, c1)" "cache_abs babs c (prevout i) = Some x"
    "cache_inv binv babs c1" "cache_abs babs c1 = cache_abs babs c"
    using AccessCoin_present [OF Cons.prems(1), of "prevout i"] Cons.prems(2) by auto
  obtain c2 where "access_heights base ins c1 = Some (map (uint \<circ> coin_nHeight) (spent_coins (cache_abs babs c1) ins), c2)"
    "cache_inv binv babs c2" "cache_abs babs c2 = cache_abs babs c1"
    using Cons.IH [OF c1(3)] c1(4) Cons.prems(2) by auto
  then show ?case using c1 by (simp add: spent_coins_def)
qed (simp add: spent_coins_def)

lemma have_outputs_correct:
  assumes "cache_inv binv babs c"
  shows "\<exists>c'. have_outputs base txid i n c =
      Some (\<exists>j. i \<le> j \<and> j < i + n \<and> cache_abs babs c \<lparr>op_hash = txid, op_n = of_nat j\<rparr> \<noteq> None, c') \<and>
    cache_inv binv babs c' \<and> cache_abs babs c' = cache_abs babs c"
  using assms
proof (induction n arbitrary: i c)
  case (Suc n)
  let ?k = "\<lparr>op_hash = txid, op_n = of_nat i\<rparr> :: COutPoint"
  let ?P = "\<lambda>j. cache_abs babs c \<lparr>op_hash = txid, op_n = of_nat j\<rparr> \<noteq> None"
  obtain c1 where c1: "HaveCoin base c ?k = Some (?P i, c1)" "cache_inv binv babs c1" "cache_abs babs c1 = cache_abs babs c"
    using HaveCoin_correct [OF Suc.prems] by metis
  obtain c2 where c2: "have_outputs base txid (i + 1) n c1 = Some (\<exists>j. i + 1 \<le> j \<and> j < i + 1 + n \<and> ?P j, c2)"
    "cache_inv binv babs c2" "cache_abs babs c2 = cache_abs babs c1"
    using Suc.IH [OF c1(2), of "i + 1"] unfolding c1(3) by blast
  have "have_outputs base txid i (Suc n) c = Some (?P i \<or> (\<exists>j. i + 1 \<le> j \<and> j < i + 1 + n \<and> ?P j), c2)"
    using c1(1) c2(1) by (simp only: have_outputs.simps Option.bind.simps prod.case)
  then show ?case unfolding ex_index_Suc using c2(2,3) c1(3) by simp
qed simp

lemma bip30_loop_correct:
  assumes "cache_inv binv babs c"
  shows "\<exists>c'. bip30_loop Hash base txs c = Some (\<not> list_all (\<lambda>tx. fresh_outputs Hash tx (cache_abs babs c)) txs, c') \<and>
    cache_inv binv babs c' \<and> cache_abs babs c' = cache_abs babs c"
  using assms
proof (induction txs arbitrary: c)
  case (Cons tx txs)
  obtain c1 where c1: "have_outputs base (GetTxid Hash tx) 0 (length (vout tx)) c =
      Some (\<not> fresh_outputs Hash tx (cache_abs babs c), c1)" "cache_inv binv babs c1" "cache_abs babs c1 = cache_abs babs c"
    using have_outputs_correct [OF Cons.prems, of "GetTxid Hash tx" 0 "length (vout tx)"] by (auto simp: fresh_outputs_def)
  then show ?case using Cons.IH [OF c1(2)] by auto
qed simp

end

end
