(* ===== verification/Supply.thy ===== *)
theory Supply
  imports Ledger
begin

text \<open>
  Connecting a block creates no value beyond its subsidy: the total of the unspent outputs, how each transaction
  changes it, and the same for \<open>ConnectBlock\<close> as a whole.
\<close>

section \<open>The total of the unspent outputs\<close>

definition total_value :: "utxo \<Rightarrow> CAmount" where
  "total_value u = (\<Sum>k \<in> dom u. nValue (coin_out (the (u k))))"

text \<open>Unspent outputs as they stand below height \<open>h\<close>.\<close>

definition utxo_ok :: "int \<Rightarrow> utxo \<Rightarrow> bool" where
  "utxo_ok h u \<longleftrightarrow> finite (dom u) \<and>
     (\<forall>k x. u k = Some x \<longrightarrow> MoneyRange (nValue (coin_out x)) \<and> 1 \<le> uint (coin_nHeight x) \<and> uint (coin_nHeight x) \<le> h \<and>
       \<not> IsUnspendable (scriptPubKey (coin_out x)))"

lemma utxo_okD:
  "utxo_ok h u \<Longrightarrow> finite (dom u)"
  "utxo_ok h u \<Longrightarrow> u k = Some x \<Longrightarrow> MoneyRange (nValue (coin_out x)) \<and> 1 \<le> uint (coin_nHeight x) \<and> uint (coin_nHeight x) \<le> h \<and>
    \<not> IsUnspendable (scriptPubKey (coin_out x))"
  by (auto simp: utxo_ok_def)

lemma total_remove:
  assumes "finite (dom u)" "u k = Some x"
  shows "total_value (u(k := None)) = total_value u - nValue (coin_out x)"
proof -
  have "total_value u = nValue (coin_out x) + (\<Sum>j \<in> dom u - {k}. nValue (coin_out (the (u j))))"
    unfolding total_value_def 
    using sum.remove [OF assms(1) domI [of u k x, OF assms(2)], of "\<lambda>j. nValue (coin_out (the (u j)))"] assms(2) by simp
  moreover have "total_value (u(k := None)) = (\<Sum>j \<in> dom u - {k}. nValue (coin_out (the (u j))))"
    unfolding total_value_def by (rule sum.cong) auto
  ultimately show ?thesis by simp
qed

lemma total_add:
  assumes "finite (dom u)" "u k = None"
  shows "total_value (u(k \<mapsto> x)) = total_value u + nValue (coin_out x)"
  using total_remove [of "u(k \<mapsto> x)" k x] assms by (simp add: fun_upd_idem)

lemma total_remove_inputs:
  assumes "finite (dom u)" "distinct (map prevout ins)" "list_all (\<lambda>i. u (prevout i) \<noteq> None) ins"
  shows "total_value (remove_inputs ins u) = total_value u - value_in u ins"
  using assms
proof (induction ins arbitrary: u)
  case (Cons i ins)
  obtain x where x: "u (prevout i) = Some x" using Cons.prems(3) by auto
  let ?u = "u(prevout i := None)"
  have ne: "prevout j \<noteq> prevout i" if "j \<in> set ins" for j
    using Cons.prems(2) imageI [OF that, of prevout] by auto
  have "list_all (\<lambda>j. ?u (prevout j) \<noteq> None) ins" using Cons.prems(3) ne by (simp add: list_all_iff)
  moreover have "finite (dom ?u)" using Cons.prems(1) by simp
  ultimately have "total_value (remove_inputs ins ?u) = total_value ?u - value_in ?u ins"
    using Cons.IH [of ?u] Cons.prems(2) by (metis distinct.simps(2) list.simps(9))
  moreover have "value_in ?u ins = value_in u ins" using ne by (simp add: value_in_def spent_coins_def cong: map_cong)
  ultimately show ?case using total_remove [OF Cons.prems(1) x] x by (simp add: value_in_def spent_coins_def)
qed (simp add: value_in_def spent_coins_def)

lemma total_add_outputs:
  assumes "finite (dom u)" "list_all (\<lambda>out. 0 \<le> nValue out) outs" "i + length outs < 2 ^ 32"
    "\<And>j. i \<le> j \<Longrightarrow> j < i + length outs \<Longrightarrow> u \<lparr>op_hash = txid, op_n = of_nat j\<rparr> = None"
  shows "total_value (add_outputs txid cb h i outs u) \<le> total_value u + sum_list (map nValue outs) \<and>
    finite (dom (add_outputs txid cb h i outs u))"
  using assms
proof (induction outs arbitrary: i u)
  case (Cons out outs)
  let ?k = "\<lparr>op_hash = txid, op_n = of_nat i\<rparr> :: COutPoint"
  let ?u = "if IsUnspendable (scriptPubKey out) then u else u(?k \<mapsto> mk_Coin out h cb)"
  have none: "u ?k = None" using Cons.prems(4) [of i] by simp
  have fin: "finite (dom ?u)" using Cons.prems(1) by simp
  have le: "total_value ?u \<le> total_value u + nValue out"
    using total_add [OF Cons.prems(1) none, of "mk_Coin out h cb"] Cons.prems(2) by simp
  have "?u \<lparr>op_hash = txid, op_n = of_nat j\<rparr> = None" if "i + 1 \<le> j" "j < i + 1 + length outs" for j
  proof -
    have "(of_nat j :: 32 word) \<noteq> of_nat i" using that Cons.prems(3) by (subst of_nat_index) auto
    then show ?thesis using Cons.prems(4) [of j] that by auto
  qed
  then have "total_value (add_outputs txid cb h (i + 1) outs ?u) \<le> total_value ?u + sum_list (map nValue outs) \<and>
      finite (dom (add_outputs txid cb h (i + 1) outs ?u))"
    using Cons.prems(2,3) by (intro Cons.IH fin) auto
  then show ?case using le by auto
qed simp

lemma add_outputs_cases:
  "add_outputs txid cb h i outs u k = Some x \<Longrightarrow> u k = Some x \<or> (\<exists>out \<in> set outs. \<not> IsUnspendable (scriptPubKey out) \<and> x = mk_Coin out h cb)"
  by (induction outs arbitrary: i u) (fastforce split: if_splits)+

section \<open>One transaction\<close>

lemma tx_effect_total:
  assumes "utxo_ok h u" "CheckTransaction tx = Inr ()" "fresh_outputs Hash tx u" "GetValueOut tx = Some out"
    "\<not> IsCoinBase tx \<Longrightarrow> inputs_present tx u"
  shows "total_value (tx_effect Hash h tx u) \<le> total_value u - (if IsCoinBase tx then 0 else value_in u (vin tx)) + out \<and>
    finite (dom (tx_effect Hash h tx u))"
proof -
  let ?u = "if IsCoinBase tx then u else remove_inputs (vin tx) u"
  have "dom ?u \<subseteq> dom u" by (auto simp: remove_inputs_eq split: if_splits)
  then have fin: "finite (dom ?u)" using utxo_okD(1) [OF assms(1)] finite_subset by blast
  have "total_value ?u = total_value u - (if IsCoinBase tx then 0 else value_in u (vin tx))"
    using total_remove_inputs [OF utxo_okD(1) [OF assms(1)] CheckTransaction_InrD(4) [OF assms(2)]] assms(5)
    by (simp add: inputs_present_def)
  moreover have "out = sum_list (map nValue (vout tx))" using assms(4) by (auto simp: GetValueOut_eq split: if_splits)
  moreover have "list_all (\<lambda>out. 0 \<le> nValue out) (vout tx)"
    using checked_values(1) [OF assms(2)] by (auto simp: list_all_iff MoneyRange_def)
  moreover have "?u \<lparr>op_hash = GetTxid Hash tx, op_n = of_nat j\<rparr> = None" if "j < length (vout tx)" for j
    using assms(3) that by (simp add: fresh_outputs_def remove_inputs_eq)
  ultimately show ?thesis
    using total_add_outputs [OF fin, of "vout tx" 0 "GetTxid Hash tx" "IsCoinBase tx" h] checked_outputs [OF assms(2)]
    by (simp add: tx_effect_def)
qed

lemma tx_effect_ok:
  assumes "utxo_ok h u" "CheckTransaction tx = Inr ()" "fresh_outputs Hash tx u" "1 \<le> h" "h < 2 ^ 31"
    "\<not> IsCoinBase tx \<Longrightarrow> inputs_present tx u"
  shows "utxo_ok h (tx_effect Hash h tx u)"
proof -
  obtain out where "GetValueOut tx = Some out" using CheckTransaction_InrD(3) [OF assms(2)] by blast
  then have "finite (dom (tx_effect Hash h tx u))" using tx_effect_total [OF assms(1-3)] assms(6) by blast
  moreover have "uint (coin_nHeight (mk_Coin out h cb)) = h" for out cb
    using assms(4,5) by (simp add: mk_Coin_def uint_word_of_int)
  moreover have "u k = Some x \<or> (\<exists>out \<in> set (vout tx). \<not> IsUnspendable (scriptPubKey out) \<and> x = mk_Coin out h (IsCoinBase tx))"
    if "tx_effect Hash h tx u k = Some x" for k x
    using add_outputs_cases [OF that [unfolded tx_effect_def]] by (auto simp: remove_inputs_eq split: if_splits)
  moreover have "MoneyRange (nValue (coin_out x)) \<and> 1 \<le> uint (coin_nHeight x) \<and> uint (coin_nHeight x) \<le> h \<and>
      \<not> IsUnspendable (scriptPubKey (coin_out x))"
    if "tx_effect Hash h tx u k = Some x" for k x
    using calculation(3) [OF that]
  proof
    assume "u k = Some x"
    then show ?thesis by (rule utxo_okD(2) [OF assms(1)])
  next
    assume "\<exists>out \<in> set (vout tx). \<not> IsUnspendable (scriptPubKey out) \<and> x = mk_Coin out h (IsCoinBase tx)"
    then show ?thesis using calculation(2) checked_values(1) [OF assms(2)] assms(4) by auto
  qed
  ultimately show ?thesis unfolding utxo_ok_def by blast
qed

lemma tx_effect_fresh:
  assumes "GetTxid Hash tx' \<noteq> GetTxid Hash tx" "fresh_outputs Hash tx' u"
  shows "fresh_outputs Hash tx' (tx_effect Hash h tx u)"
  using assms by (auto simp: fresh_outputs_def tx_effect_def add_outputs_other remove_inputs_eq)

fun connectable :: "(stream \<Rightarrow> uint256) \<Rightarrow> int \<Rightarrow> CTransaction list \<Rightarrow> utxo \<Rightarrow> bool" where
  "connectable Hash h [] u \<longleftrightarrow> True"
| "connectable Hash h (tx # txs) u \<longleftrightarrow> CheckTransaction tx = Inr () \<and> (IsCoinBase tx \<or> inputs_present tx u) \<and>
     fresh_outputs Hash tx u \<and> connectable Hash h txs (tx_effect Hash h tx u)"

section \<open>The steps of a block\<close>

context coins_reader
begin

lemma connect_inputs_correct:
  assumes "cache_inv binv babs c" "CheckTransaction tx = Inr ()" "\<not> IsCoinBase tx" "GetValueOut tx = Some out"
    and wf: "block_map_wf m" "m bh = Some b" "pprev b = Some p" and h: "h = int (nHeight b)"
    and ok: "utxo_ok h (cache_abs babs c)"
  shows "\<exists>r c'. connect_inputs base rules m bh h tx nFees c = Some (r, c') \<and> cache_inv binv babs c' \<and>
    cache_abs babs c' = cache_abs babs c \<and>
    (\<forall>fees. r = Inr fees \<longrightarrow> inputs_present tx (cache_abs babs c) \<and>
      fees = nFees + (value_in (cache_abs babs c) (vin tx) - out))"
proof -
  let ?u = "cache_abs babs c"
  obtain r c1 where c1: "CheckTxInputs base tx c h = Some (r, c1)" "cache_inv binv babs c1" "cache_abs babs c1 = ?u"
    "\<forall>fee. r = Inr fee \<longrightarrow> list_all (\<lambda>i. ?u (prevout i) \<noteq> None) (vin tx) \<and> fee = value_in ?u (vin tx) - out"
    using CheckTxInputs_correct [OF assms(1,3,4), of h] by (elim exE conjE) simp
  show ?thesis
  proof (cases r)
    case (Inl e)
    then show ?thesis using c1 assms(3) by (cases e) (simp add: connect_inputs_def)
  next
    case (Inr fee)
    have present: "list_all (\<lambda>i. ?u (prevout i) \<noteq> None) (vin tx)" "fee = value_in ?u (vin tx) - out"
      using c1(4) Inr by simp_all
    obtain c2 where c2: "access_heights base (vin tx) c1 = Some (map (uint \<circ> coin_nHeight) (spent_coins ?u (vin tx)), c2)"
      "cache_inv binv babs c2" "cache_abs babs c2 = ?u"
      using access_heights_correct [OF c1(2), of "vin tx"] present(1) unfolding c1(3) by blast
    have "list_all (\<lambda>k. 0 \<le> k \<and> k \<le> int (nHeight b)) (map (uint \<circ> coin_nHeight) (spent_coins ?u (vin tx)))"
      using present(1) utxo_okD(2) [OF ok] by (fastforce simp: list_all_iff spent_coins_def h)
    then obtain locks where "SequenceLocks m tx (nLockTimeFlags rules) (map (uint \<circ> coin_nHeight) (spent_coins ?u (vin tx))) bh = Some locks"
      using SequenceLocks_correct [OF wf, of "map (uint \<circ> coin_nHeight) (spent_coins ?u (vin tx))" tx "nLockTimeFlags rules"]
      by (auto simp: spent_coins_def)
    then have "connect_inputs base rules m bh h tx nFees c =
        (if \<not> MoneyRange (nFees + fee) then Some (Inl ''bad-txns-accumulated-fee-outofrange'', c1)
         else Some (if \<not> locks then Inl ''bad-txns-nonfinal'' else Inr (nFees + fee), c2))"
      using c1(1) c2(1) Inr assms(3) by (simp add: connect_inputs_def)
    then show ?thesis
      using c1(2,3) c2(2,3) present by (cases "MoneyRange (nFees + fee)") (simp_all add: inputs_present_def)
  qed
qed

lemma connect_scripts_correct:
  assumes "cache_inv binv babs c" "\<not> IsCoinBase tx \<Longrightarrow> inputs_present tx (cache_abs babs c)" "verify_p2sh rules"
  shows "\<exists>r c'. connect_scripts base rules tx n c = Some (r, c') \<and> cache_inv binv babs c' \<and> cache_abs babs c' = cache_abs babs c"
proof -
  obtain k c1 where c1: "GetTransactionSigOpCost base tx (verify_p2sh rules) (verify_witness rules) c = Some (k, c1)"
    "cache_inv binv babs c1" "cache_abs babs c1 = cache_abs babs c"
    using GetTransactionSigOpCost_total [OF assms(1) _ assms(3)] assms(2) by (metis inputs_present_def)
  obtain r c2 where c2: "CheckInputScripts base (script_cached rules) (script_checks rules) tx c1 = Some (r, c2)"
    "cache_inv binv babs c2" "cache_abs babs c2 = cache_abs babs c1"
  proof (cases "IsCoinBase tx \<or> script_cached rules tx")
    case True
    then show ?thesis using that c1(2) by (auto simp: CheckInputScripts_def)
  next
    case False
    then show ?thesis
      using spent_outputs_loop_total [OF c1(2), of "vin tx"] assms(2) that
      by (auto simp: CheckInputScripts_def inputs_present_def c1(3))
  qed
  show ?thesis using c1 c2 by (auto simp: connect_scripts_def)
qed

lemma connect_step:
  assumes inv: "cache_inv binv babs c" and tx: "CheckTransaction tx = Inr ()" "GetValueOut tx = Some out"
    and wf: "block_map_wf m" "m bh = Some b" "pprev b = Some p" and h: "h = int (nHeight b)"
    and ok: "utxo_ok h (cache_abs babs c)" and fresh: "fresh_outputs Hash tx (cache_abs babs c)" and p2sh: "verify_p2sh rules"
  shows "(\<exists>e c'. cache_inv binv babs c' \<and>
      connect_loop Hash base rules m bh h i (tx # txs) nFees n c = Some (Inl e, c')) \<or>
    (\<exists>fees n' c'. cache_inv binv babs c' \<and> cache_abs babs c' = tx_effect Hash h tx (cache_abs babs c) \<and>
      (\<not> IsCoinBase tx \<longrightarrow> inputs_present tx (cache_abs babs c)) \<and>
      fees = nFees + (if IsCoinBase tx then 0 else value_in (cache_abs babs c) (vin tx) - out) \<and>
      connect_loop Hash base rules m bh h i (tx # txs) nFees n c = do {
        (r, view) \<leftarrow> connect_loop Hash base rules m bh h (i + 1) txs fees n' c';
        Some (case r of Inl e \<Rightarrow> Inl e
          | Inr (fees, undos) \<Rightarrow> Inr (fees, if i > 0
              then (if IsCoinBase tx then [] else spent_coins (cache_abs babs c) (vin tx)) # undos else undos), view) })"
proof -
  let ?u = "cache_abs babs c"
  obtain r c1 where c1: "connect_inputs base rules m bh h tx nFees c = Some (r, c1)" "cache_inv binv babs c1" "cache_abs babs c1 = ?u"
    "\<And>fees. r = Inr fees \<Longrightarrow> (\<not> IsCoinBase tx \<longrightarrow> inputs_present tx ?u) \<and>
      fees = nFees + (if IsCoinBase tx then 0 else value_in ?u (vin tx) - out)"
  proof (cases "IsCoinBase tx")
    case True
    then show ?thesis using that inv by (simp add: connect_inputs_def)
  next
    case False
    then show ?thesis using that connect_inputs_correct [OF inv tx(1) False tx(2) wf h ok, of rules nFees] by auto
  qed
  show ?thesis
  proof (cases r)
    case (Inl e)
    then show ?thesis using c1 by simp
  next
    case (Inr fees)
    then have present: "\<not> IsCoinBase tx \<Longrightarrow> inputs_present tx (cache_abs babs c1)" using c1(3,4) by auto
    obtain r2 c2 where c2: "connect_scripts base rules tx n c1 = Some (r2, c2)" "cache_inv binv babs c2" "cache_abs babs c2 = ?u"
      using connect_scripts_correct [OF c1(2) present p2sh] unfolding c1(3) by blast
    show ?thesis
    proof (cases r2)
      case (Inl e)
      then show ?thesis using c1 c2 Inr by simp
    next
      case r2: (Inr n')
      obtain c3 where "UpdateCoins Hash base tx h c2 = Some (if IsCoinBase tx then [] else spent_coins ?u (vin tx), c3)"
        "cache_inv binv babs c3" "cache_abs babs c3 = tx_effect Hash h tx ?u"
        using UpdateCoins_correct [OF c2(2) tx(1), of Hash h] present fresh unfolding c2(3) c1(3) by blast
      then have "cache_inv binv babs c3 \<and> cache_abs babs c3 = tx_effect Hash h tx ?u \<and>
          (\<not> IsCoinBase tx \<longrightarrow> inputs_present tx ?u) \<and>
          fees = nFees + (if IsCoinBase tx then 0 else value_in ?u (vin tx) - out) \<and>
          connect_loop Hash base rules m bh h i (tx # txs) nFees n c = do {
            (r, view) \<leftarrow> connect_loop Hash base rules m bh h (i + 1) txs fees n' c3;
            Some (case r of Inl e \<Rightarrow> Inl e
              | Inr (fees, undos) \<Rightarrow> Inr (fees, if i > 0
                  then (if IsCoinBase tx then [] else spent_coins ?u (vin tx)) # undos else undos), view) }"
        using c1 c2 Inr r2 by simp
      then show ?thesis by (intro disjI2 exI)
    qed
  qed
qed

end

section \<open>The whole block\<close>

definition txids :: "(stream \<Rightarrow> uint256) \<Rightarrow> CTransaction list \<Rightarrow> uint256 list" where
  "txids Hash txs = map (GetTxid Hash) txs"

lemma fresh_rest:
  assumes "distinct (txids Hash (tx # txs))" "list_all (\<lambda>t. fresh_outputs Hash t u) (tx # txs)"
  shows "distinct (txids Hash txs)" "list_all (\<lambda>t. fresh_outputs Hash t (tx_effect Hash h tx u)) txs" "fresh_outputs Hash tx u"
proof -
  have "GetTxid Hash t \<noteq> GetTxid Hash tx" if "t \<in> set txs" for t
    using assms(1) imageI [OF that, of "GetTxid Hash"] by (auto simp: txids_def)
  then show "list_all (\<lambda>t. fresh_outputs Hash t (tx_effect Hash h tx u)) txs"
    using assms(2) tx_effect_fresh by (simp add: list_all_iff)
qed (use assms in \<open>simp_all add: txids_def\<close>)

lemma EnforceBIP30_tknc:
  assumes "block_map_wf m" "m bh = Some b" "pprev b = Some p" "m uint256_null = None" "\<not> IsBIP30Repeat (int (nHeight b)) bh"
  shows "EnforceBIP30 m params bh = Some True"
proof -
  obtain c where c: "m p = Some c" using wf_closed(1) [OF assms(1,2)] assms(3) by blast
  have "up m n p \<noteq> Some uint256_null" if "n \<le> nHeight c" for n
    using up_total [OF assms(1) c that] assms(4) by (metis option.distinct(1) option.inject)
  then show ?thesis
    using assms(2,3,5) GetAncestor_eq [OF assms(1) c, of "BIP34Height params"]
    by (auto simp: EnforceBIP30_def split: option.splits)
qed

lemma CheckReward_total:
  assumes "GetValueOut cb = Some out"
  shows "\<exists>rw. CheckReward teamScript h fees cb = Some rw \<and> (rw = None \<longrightarrow> out \<le> fees + GetBlockSubsidy h)"
  using assms by (auto simp: CheckReward_def not_less)

context coins_reader
begin

lemma connect_tail:
  assumes "cache_inv binv babs c" "list_all (\<lambda>tx. CheckTransaction tx = Inr () \<and> \<not> IsCoinBase tx) txs"
    and "distinct (txids Hash txs)" "list_all (\<lambda>tx. fresh_outputs Hash tx (cache_abs babs c)) txs" "utxo_ok h (cache_abs babs c)"
    and wf: "block_map_wf m" "m bh = Some b" "pprev b = Some p" and h: "h = int (nHeight b)" "1 \<le> h" "h < 2 ^ 31"
    and p2sh: "verify_p2sh rules" and i: "0 < i"
  shows "\<exists>r c'. connect_loop Hash base rules m bh h i txs nFees n c = Some (r, c') \<and> cache_inv binv babs c' \<and>
    (\<forall>fees undos. r = Inr (fees, undos) \<longrightarrow> cache_abs babs c' = block_effect Hash h txs (cache_abs babs c) \<and>
      undos = block_undo Hash h txs (cache_abs babs c) \<and> utxo_ok h (cache_abs babs c') \<and>
      total_value (cache_abs babs c') + fees \<le> total_value (cache_abs babs c) + nFees \<and>
      connectable Hash h txs (cache_abs babs c))"
  using assms(1-5) i
proof (induction txs arbitrary: c i nFees n)
  case (Cons tx txs)
  let ?u = "cache_abs babs c"
  note rest = fresh_rest [OF Cons.prems(3,4)]
  have tx: "CheckTransaction tx = Inr ()" "\<not> IsCoinBase tx" using Cons.prems(2) by auto
  obtain out where out: "GetValueOut tx = Some out" using CheckTransaction_InrD(3) [OF tx(1)] by blast
  from connect_step [OF Cons.prems(1) tx(1) out wf h(1) Cons.prems(5) rest(3) p2sh, of i txs nFees n]
  show ?case
  proof (elim disjE exE conjE)
    fix e c' assume "cache_inv binv babs c'" "connect_loop Hash base rules m bh h i (tx # txs) nFees n c = Some (Inl e, c')"
    then show ?thesis by simp
  next
    fix fees1 n' c1
    assume c1: "cache_inv binv babs c1" "cache_abs babs c1 = tx_effect Hash h tx ?u"
      and present: "\<not> IsCoinBase tx \<longrightarrow> inputs_present tx ?u"
      and fees1: "fees1 = nFees + (if IsCoinBase tx then 0 else value_in ?u (vin tx) - out)"
      and loop: "connect_loop Hash base rules m bh h i (tx # txs) nFees n c = do {
        (r, view) \<leftarrow> connect_loop Hash base rules m bh h (i + 1) txs fees1 n' c1;
        Some (case r of Inl e \<Rightarrow> Inl e
          | Inr (fees, undos) \<Rightarrow> Inr (fees, if i > 0
              then (if IsCoinBase tx then [] else spent_coins ?u (vin tx)) # undos else undos), view) }"
    have ok: "utxo_ok h (tx_effect Hash h tx ?u)"
      using tx_effect_ok [OF Cons.prems(5) tx(1) rest(3) h(2,3)] present tx(2) by blast
    have total: "total_value (tx_effect Hash h tx ?u) \<le> total_value ?u - value_in ?u (vin tx) + out"
      using tx_effect_total [OF Cons.prems(5) tx(1) rest(3) out] present tx(2) by simp
    obtain r c2 where c2: "connect_loop Hash base rules m bh h (i + 1) txs fees1 n' c1 = Some (r, c2)" "cache_inv binv babs c2"
      "\<forall>fees undos. r = Inr (fees, undos) \<longrightarrow> cache_abs babs c2 = block_effect Hash h txs (cache_abs babs c1) \<and>
        undos = block_undo Hash h txs (cache_abs babs c1) \<and> utxo_ok h (cache_abs babs c2) \<and>
        total_value (cache_abs babs c2) + fees \<le> total_value (cache_abs babs c1) + fees1 \<and>
        connectable Hash h txs (cache_abs babs c1)"
      using Cons.IH [OF c1(1), of "i + 1" fees1 n'] Cons.prems(2) rest(1,2) ok unfolding c1(2) by auto
    show ?thesis
    proof (cases r)
      case (Inl e)
      then show ?thesis using c2(1,2) loop by simp
    next
      case (Inr q)
      obtain fees undos where q: "q = (fees, undos)" by (cases q)
      then have eq: "connect_loop Hash base rules m bh h i (tx # txs) nFees n c =
          Some (Inr (fees, spent_coins ?u (vin tx) # undos), c2)"
        using loop c2(1) Inr Cons.prems(6) tx(2) by simp
      have c2': "cache_abs babs c2 = block_effect Hash h txs (cache_abs babs c1)"
          "undos = block_undo Hash h txs (cache_abs babs c1)" "utxo_ok h (cache_abs babs c2)"
          "total_value (cache_abs babs c2) + fees \<le> total_value (cache_abs babs c1) + fees1"
          "connectable Hash h txs (cache_abs babs c1)"
        using c2(3) Inr q by blast+
      have "total_value (cache_abs babs c2) + fees \<le> total_value ?u + nFees"
        using c2'(4) total fees1 tx(2) c1(2) by simp
      then show ?thesis
        using eq c2(2) c2' present tx rest(3) by (simp add: block_effect_def c1(2))
    qed
  qed
qed (simp add: block_effect_def)

lemma connect_block_loop:
  assumes "cache_inv binv babs c" "transactions_ok txs" "distinct (txids Hash txs)"
    and "list_all (\<lambda>tx. fresh_outputs Hash tx (cache_abs babs c)) txs" "utxo_ok h (cache_abs babs c)"
    and wf: "block_map_wf m" "m bh = Some b" "pprev b = Some p" and h: "h = int (nHeight b)" "1 \<le> h" "h < 2 ^ 31"
    and p2sh: "verify_p2sh rules"
  shows "\<exists>r c'. connect_loop Hash base rules m bh h 0 txs 0 0 c = Some (r, c') \<and> cache_inv binv babs c' \<and>
    (\<forall>fees undos. r = Inr (fees, undos) \<longrightarrow> cache_abs babs c' = block_effect Hash h txs (cache_abs babs c) \<and>
      undos = block_undo Hash h (tl txs) (tx_effect Hash h (hd txs) (cache_abs babs c)) \<and> utxo_ok h (cache_abs babs c') \<and>
      total_value (cache_abs babs c') + fees \<le> total_value (cache_abs babs c) + the (GetValueOut (hd txs)) \<and>
      connectable Hash h txs (cache_abs babs c))"
proof -
  let ?u = "cache_abs babs c"
  obtain tx rest_txs where txs: "txs = tx # rest_txs" using assms(2) by (cases txs) (auto simp: transactions_ok_def)
  have tx: "CheckTransaction tx = Inr ()" "IsCoinBase tx"
    and rest_ok: "list_all (\<lambda>tx. CheckTransaction tx = Inr () \<and> \<not> IsCoinBase tx) rest_txs"
    using assms(2) by (auto simp: transactions_ok_def txs list_all_iff)
  note rest = fresh_rest [OF assms(3,4) [unfolded txs]]
  obtain out where out: "GetValueOut tx = Some out" using CheckTransaction_InrD(3) [OF tx(1)] by blast
  from connect_step [OF assms(1) tx(1) out wf h(1) assms(5) rest(3) p2sh, of 0 rest_txs 0 0]
  show ?thesis
  proof (elim disjE exE conjE)
    fix e c' assume "cache_inv binv babs c'" "connect_loop Hash base rules m bh h 0 (tx # rest_txs) 0 0 c = Some (Inl e, c')"
    then show ?thesis by (simp add: txs)
  next
    fix fees1 n' c1
    assume c1: "cache_inv binv babs c1" "cache_abs babs c1 = tx_effect Hash h tx ?u"
      and fees1: "fees1 = 0 + (if IsCoinBase tx then 0 else value_in ?u (vin tx) - out)"
      and loop: "connect_loop Hash base rules m bh h 0 (tx # rest_txs) 0 0 c = do {
        (r, view) \<leftarrow> connect_loop Hash base rules m bh h (0 + 1) rest_txs fees1 n' c1;
        Some (case r of Inl e \<Rightarrow> Inl e
          | Inr (fees, undos) \<Rightarrow> Inr (fees, if (0::nat) > 0
              then (if IsCoinBase tx then [] else spent_coins ?u (vin tx)) # undos else undos), view) }"
    have ok: "utxo_ok h (tx_effect Hash h tx ?u)" using tx_effect_ok [OF assms(5) tx(1) rest(3) h(2,3)] tx(2) by blast
    have total: "total_value (tx_effect Hash h tx ?u) \<le> total_value ?u + out"
      using tx_effect_total [OF assms(5) tx(1) rest(3) out] tx(2) by simp
    obtain r c2 where c2: "connect_loop Hash base rules m bh h 1 rest_txs 0 n' c1 = Some (r, c2)" "cache_inv binv babs c2"
      "\<forall>fees undos. r = Inr (fees, undos) \<longrightarrow> cache_abs babs c2 = block_effect Hash h rest_txs (cache_abs babs c1) \<and>
        undos = block_undo Hash h rest_txs (cache_abs babs c1) \<and> utxo_ok h (cache_abs babs c2) \<and>
        total_value (cache_abs babs c2) + fees \<le> total_value (cache_abs babs c1) + 0 \<and>
        connectable Hash h rest_txs (cache_abs babs c1)"
      using connect_tail [OF c1(1) rest_ok rest(1) _ _ wf h p2sh, of 1 0 n'] rest(2) ok unfolding c1(2) by auto
    have "connect_loop Hash base rules m bh h 0 txs 0 0 c = Some (r, c2)"
      using loop c2(1) fees1 tx(2) by (simp add: txs split: sum.splits prod.splits)
    moreover have "cache_abs babs c2 = block_effect Hash h txs ?u \<and>
        undos = block_undo Hash h (tl txs) (tx_effect Hash h (hd txs) ?u) \<and> utxo_ok h (cache_abs babs c2) \<and>
        total_value (cache_abs babs c2) + fees \<le> total_value ?u + the (GetValueOut (hd txs)) \<and>
        connectable Hash h txs ?u" if "r = Inr (fees, undos)" for fees undos
      using c2(3) that total out tx rest(3) by (auto simp: txs block_effect_def c1(2))
    ultimately show ?thesis using c2(2) by blast
  qed
qed

lemma ConnectBlock_correct:
  assumes inv: "cache_inv binv babs c" and best: "cache_best bbest c = p"
    and ok: "utxo_ok h (cache_abs babs c)" and flags: "flags_sound hs params block"
    and wf: "block_map_wf m" "m bh = Some b" "pprev b = Some p" and h: "h = int (nHeight b)" "h < 2 ^ 31"
    and bh: "bh = bh_header hs (header block)" "bh \<noteq> hashGenesisBlock params"
    and b30: "m uint256_null = None" "\<not> IsBIP30Repeat h bh"
    and ids: "distinct (txids (bh_Hash hs) (vtx block))" and p2sh: "verify_p2sh rules"
  shows "\<exists>r block' c'. ConnectBlock hs params base rules teamScript m block bh fJustCheck c = Some (r, block', c') \<and>
    flags_sound hs params block' \<and> cache_inv binv babs c' \<and>
    (\<forall>undos. r = Inr undos \<longrightarrow> cache_abs babs c' = block_effect (bh_Hash hs) h (vtx block) (cache_abs babs c) \<and>
      undos = block_undo (bh_Hash hs) h (tl (vtx block)) (tx_effect (bh_Hash hs) h (hd (vtx block)) (cache_abs babs c)) \<and>
      utxo_ok h (cache_abs babs c') \<and>
      total_value (cache_abs babs c') \<le> total_value (cache_abs babs c) + GetBlockSubsidy h \<and>
      connectable (bh_Hash hs) h (vtx block) (cache_abs babs c) \<and> transactions_ok (vtx block) \<and>
      (\<not> fJustCheck \<longrightarrow> merkle_ok hs block \<and> (\<not> IsNull bh \<longrightarrow> cache_best bbest c' = bh)))"
proof -
  let ?u = "cache_abs babs c" and ?Hash = "bh_Hash hs"
  have h1: "1 \<le> h" using block_map_wfD [OF wf(1,2)] wf(3) h(1) by (auto simp: entry_wf_def split: option.splits)
  obtain r1 block1 where b1: "CheckBlock hs params block (\<not> fJustCheck) (\<not> fJustCheck) = Some (r1, block1)"
    "flags_sound hs params block1" "vtx block1 = vtx block"
    "r1 = Inr () \<longrightarrow> transactions_ok (vtx block) \<and> (\<not> fJustCheck \<longrightarrow> merkle_ok hs block)"
    using CheckBlock_sound [OF flags, of "\<not> fJustCheck" "\<not> fJustCheck"] by (elim exE conjE) simp
  show ?thesis
  proof (cases r1)
    case (Inl e)
    then have "ConnectBlock hs params base rules teamScript m block bh fJustCheck c =
        Some (Inl (if fst e = BLOCK_MUTATED then CorruptBlock else InvalidBlock e), block1, c)"
      using wf(2) bh(1) b1(1) by (simp add: ConnectBlock_def)
    then show ?thesis using b1(2) inv by simp
  next
    case (Inr v)
    then have tok: "transactions_ok (vtx block)" "\<not> fJustCheck \<longrightarrow> merkle_ok hs block" using b1(4) by simp_all
    obtain c1 where c1: "GetBestBlock base c = (p, c1)" "cache_inv binv babs c1" "cache_abs babs c1 = ?u"
      using GetBestBlock_correct [OF inv] best by metis
    have enf: "EnforceBIP30 m params bh = Some True" using EnforceBIP30_tknc wf b30 h(1) by metis
    obtain c2 where c2: "bip30_loop ?Hash base (vtx block) c1 =
        Some (\<not> list_all (\<lambda>tx. fresh_outputs ?Hash tx ?u) (vtx block), c2)" "cache_inv binv babs c2" "cache_abs babs c2 = ?u"
      using bip30_loop_correct [OF c1(2), of ?Hash "vtx block"] unfolding c1(3) by blast
    note start = wf(2) bh b1(1,3) Inr c1(1) wf(3) enf c2(1)
    show ?thesis
    proof (cases "list_all (\<lambda>tx. fresh_outputs ?Hash tx ?u) (vtx block)")
      case False
      then have "ConnectBlock hs params base rules teamScript m block bh fJustCheck c =
          Some (Inl (InvalidBlock (BLOCK_CONSENSUS, ''bad-txns-BIP30'')), block1, c2)"
        using start by (simp add: ConnectBlock_def)
      then show ?thesis using b1(2) c2(2) by simp
    next
      case True
      obtain r3 c3 where c3: "connect_loop ?Hash base rules m bh h 0 (vtx block) 0 0 c2 = Some (r3, c3)" "cache_inv binv babs c3"
        "\<forall>fees undos. r3 = Inr (fees, undos) \<longrightarrow> cache_abs babs c3 = block_effect ?Hash h (vtx block) ?u \<and>
          undos = block_undo ?Hash h (tl (vtx block)) (tx_effect ?Hash h (hd (vtx block)) ?u) \<and> utxo_ok h (cache_abs babs c3) \<and>
          total_value (cache_abs babs c3) + fees \<le> total_value ?u + the (GetValueOut (hd (vtx block))) \<and>
          connectable ?Hash h (vtx block) ?u"
        using connect_block_loop [OF c2(2) tok(1) ids _ _ wf h(1) h1 h(2) p2sh] True ok unfolding c2(3) by blast
      obtain out where out: "GetValueOut (hd (vtx block)) = Some out"
        using tok(1) CheckTransaction_InrD(3) [of "hd (vtx block)"] by (cases "vtx block") (auto simp: transactions_ok_def)
      show ?thesis
      proof (cases r3)
        case (Inl e)
        then have "ConnectBlock hs params base rules teamScript m block bh fJustCheck c =
            Some (Inl (InvalidBlock (BLOCK_CONSENSUS, e)), block1, c3)"
          using start c3(1) True h(1) by (simp add: ConnectBlock_def)
        then show ?thesis using b1(2) c3(2) by simp
      next
        case r3: (Inr q)
        obtain fees undos where q: "q = (fees, undos)" by (cases q)
        have res: "cache_abs babs c3 = block_effect ?Hash h (vtx block) ?u"
          "undos = block_undo ?Hash h (tl (vtx block)) (tx_effect ?Hash h (hd (vtx block)) ?u)" "utxo_ok h (cache_abs babs c3)"
          "total_value (cache_abs babs c3) + fees \<le> total_value ?u + out" "connectable ?Hash h (vtx block) ?u"
          using c3(3) [unfolded out option.sel] r3 q by blast+
        obtain rw where rw: "CheckReward teamScript h fees (hd (vtx block)) = Some rw" "rw = None \<longrightarrow> out \<le> fees + GetBlockSubsidy h"
          using CheckReward_total [OF out, of teamScript h fees] by blast
        have eq: "ConnectBlock hs params base rules teamScript m block bh fJustCheck c =
            (case rw of Some reason \<Rightarrow> Some (Inl (InvalidBlock (BLOCK_CONSENSUS, reason)), block1, c3)
             | None \<Rightarrow> Some (Inr undos, block1, if fJustCheck then c3 else SetBestBlock bh c3))"
          using start c3(1) True h(1) r3 q rw(1) by (cases rw) (simp_all add: ConnectBlock_def)
        let ?c = "if fJustCheck then c3 else SetBestBlock bh c3"
        have c': "cache_inv binv babs ?c" "cache_abs babs ?c = cache_abs babs c3"
          "\<not> fJustCheck \<longrightarrow> \<not> IsNull bh \<longrightarrow> cache_best bbest ?c = bh"
          using c3(2) inv_block_hash [where c = c3] by (simp_all add: SetBestBlock_def cache_best_def)
        show ?thesis
        proof (cases rw)
          case None
          then have "total_value (cache_abs babs c3) \<le> total_value ?u + GetBlockSubsidy h" using res(4) rw(2) by simp
          then show ?thesis using eq None b1(2) c' res tok by auto
        next
          case (Some reason)
          then show ?thesis using eq b1(2) c3(2) by simp
        qed
      qed
    qed
  qed
qed

end

end
