(* ===== verification/Disconnect.thy ===== *)
theory Disconnect
  imports Supply
begin

text \<open>
  Undoing a block (\<open>ApplyTxInUndo\<close> and \<open>DisconnectBlock\<close> in \<open>validation.cpp\<close>): its outputs are removed and its inputs
  restored from the undo data, in reverse order. The undo data is what was read back from disk, or \<open>None\<close> when reading
  it failed. With the data that connecting the block produced, disconnecting it restores the unspent outputs.
\<close>

datatype DisconnectResult = DISCONNECT_OK | DISCONNECT_UNCLEAN | DISCONNECT_FAILED

definition ApplyTxInUndo :: "'b CCoinsView \<Rightarrow> Coin \<Rightarrow> 'b CCoinsViewCache \<Rightarrow> COutPoint \<Rightarrow> (DisconnectResult \<times> 'b CCoinsViewCache) option" where
  "ApplyTxInUndo base undo view out = do {
     (have_it, view) \<leftarrow> HaveCoin base view out;
     let fClean = (\<not> have_it);
     (undo, view) \<leftarrow>
       (if coin_nHeight undo = 0 then do {
          (alternate, view) \<leftarrow> AccessByTxid base view (op_hash out);
          Some (if \<not> IsSpent alternate
             then Some (undo\<lparr>coin_nHeight := coin_nHeight alternate, fCoinBase := fCoinBase alternate\<rparr>) else None, view)
        } else Some (Some undo, view));
     case undo of
       None \<Rightarrow> Some (DISCONNECT_FAILED, view)
     | Some undo \<Rightarrow> do {
         view \<leftarrow> AddCoin out undo (\<not> fClean) view;
         Some (if fClean then DISCONNECT_OK else DISCONNECT_UNCLEAN, view)
       }
   }"

fun undo_outputs_loop :: "'b CCoinsView \<Rightarrow> uint256 \<Rightarrow> int \<Rightarrow> bool \<Rightarrow> bool \<Rightarrow> nat \<Rightarrow> CTxOut list \<Rightarrow> bool \<Rightarrow> 'b CCoinsViewCache
    \<Rightarrow> (bool \<times> 'b CCoinsViewCache) option" where
  "undo_outputs_loop base hash h is_coinbase is_bip30_exception i [] fClean view = Some (fClean, view)"
| "undo_outputs_loop base hash h is_coinbase is_bip30_exception i (txout # outs) fClean view =
     (if \<not> IsUnspendable (scriptPubKey txout) then do {
        (r, view) \<leftarrow> SpendCoin base view \<lparr>op_hash = hash, op_n = of_nat i\<rparr>;
        let mismatch = (case r of
            None \<Rightarrow> True
          | Some x \<Rightarrow> txout \<noteq> coin_out x \<or> h \<noteq> uint (coin_nHeight x) \<or> is_coinbase \<noteq> fCoinBase x);
        undo_outputs_loop base hash h is_coinbase is_bip30_exception (i + 1) outs
          (if mismatch \<and> \<not> is_bip30_exception then False else fClean) view
      }
      else undo_outputs_loop base hash h is_coinbase is_bip30_exception (i + 1) outs fClean view)"

text \<open>The inputs are restored from the last to the first; the list holds them in that order.\<close>

fun restore_inputs_loop :: "'b CCoinsView \<Rightarrow> (CTxIn \<times> Coin) list \<Rightarrow> bool \<Rightarrow> 'b CCoinsViewCache
    \<Rightarrow> (bool option \<times> 'b CCoinsViewCache) option" where
  "restore_inputs_loop base [] fClean view = Some (Some fClean, view)"
| "restore_inputs_loop base ((txin, undo) # ins) fClean view = do {
     (res, view) \<leftarrow> ApplyTxInUndo base undo view (prevout txin);
     if res = DISCONNECT_FAILED then Some (None, view)
     else restore_inputs_loop base ins (fClean \<and> res \<noteq> DISCONNECT_UNCLEAN) view
   }"

text \<open>One iteration of the loop over the transactions; the undo data is absent for the first of the block.\<close>

definition undo_transaction :: "(stream \<Rightarrow> uint256) \<Rightarrow> 'b CCoinsView \<Rightarrow> int \<Rightarrow> bool \<Rightarrow> CTransaction \<Rightarrow> CTxUndo option \<Rightarrow> bool
    \<Rightarrow> 'b CCoinsViewCache \<Rightarrow> (bool option \<times> 'b CCoinsViewCache) option" where
  "undo_transaction Hash base h fEnforceBIP30 tx txundo fClean view = do {
     (fClean, view) \<leftarrow> undo_outputs_loop base (GetTxid Hash tx) h (IsCoinBase tx) (IsCoinBase tx \<and> \<not> fEnforceBIP30) 0
       (vout tx) fClean view;
     case txundo of
       None \<Rightarrow> Some (Some fClean, view)
     | Some vprevout \<Rightarrow>
         if length vprevout \<noteq> length (vin tx) then Some (None, view)
         else restore_inputs_loop base (rev (zip (vin tx) vprevout)) fClean view
   }"

fun disconnect_loop :: "(stream \<Rightarrow> uint256) \<Rightarrow> 'b CCoinsView \<Rightarrow> int \<Rightarrow> bool \<Rightarrow> (CTransaction \<times> CTxUndo option) list \<Rightarrow> bool
    \<Rightarrow> 'b CCoinsViewCache \<Rightarrow> (bool option \<times> 'b CCoinsViewCache) option" where
  "disconnect_loop Hash base h fEnforceBIP30 [] fClean view = Some (Some fClean, view)"
| "disconnect_loop Hash base h fEnforceBIP30 ((tx, txundo) # txs) fClean view = do {
     (r, view) \<leftarrow> undo_transaction Hash base h fEnforceBIP30 tx txundo fClean view;
     case r of
       None \<Rightarrow> Some (None, view)
     | Some fClean \<Rightarrow> disconnect_loop Hash base h fEnforceBIP30 txs fClean view
   }"

definition IsBIP30Unspendable :: "uint256 \<Rightarrow> int \<Rightarrow> bool" where
  "IsBIP30Unspendable block_hash block_height \<longleftrightarrow>
     (block_height = 91722 \<and> le_val block_hash = 0x00000000000271a2dc26e7667f8419f2e15416dc6955e5a6c6cdf3f2574dd08e) \<or>
     (block_height = 91812 \<and> le_val block_hash = 0x00000000000af0aed4792b1acee3d966af36cf5def14935db8de83d6f9306f2f)"

definition DisconnectBlock :: "(stream \<Rightarrow> uint256) \<Rightarrow> 'b CCoinsView \<Rightarrow> CTxUndo list option \<Rightarrow> block_map \<Rightarrow> CBlock \<Rightarrow> uint256
    \<Rightarrow> 'b CCoinsViewCache \<Rightarrow> (DisconnectResult \<times> 'b CCoinsViewCache) option" where
  "DisconnectBlock Hash base blockUndo m block pindex view = do {
     b \<leftarrow> m pindex;
     case blockUndo of
       None \<Rightarrow> Some (DISCONNECT_FAILED, view)
     | Some vtxundo \<Rightarrow>
         if length vtxundo + 1 \<noteq> length (vtx block) then Some (DISCONNECT_FAILED, view)
         else do {
           (r, view) \<leftarrow> disconnect_loop Hash base (int (nHeight b)) (\<not> IsBIP30Unspendable pindex (int (nHeight b)))
             (rev (zip (vtx block) (None # map Some vtxundo))) True view;
           case r of
             None \<Rightarrow> Some (DISCONNECT_FAILED, view)
           | Some fClean \<Rightarrow> do {
               prev \<leftarrow> pprev b;
               Some (if fClean then DISCONNECT_OK else DISCONNECT_UNCLEAN, SetBestBlock prev view)
             }
         }
   }"

section \<open>Undoing a transaction\<close>

fun remove_outputs :: "uint256 \<Rightarrow> nat \<Rightarrow> CTxOut list \<Rightarrow> utxo \<Rightarrow> utxo" where
  "remove_outputs txid i [] u = u"
| "remove_outputs txid i (out # outs) u = remove_outputs txid (i + 1) outs
     (if IsUnspendable (scriptPubKey out) then u else u(\<lparr>op_hash = txid, op_n = of_nat i\<rparr> := None))"

fun restore_inputs :: "(CTxIn \<times> Coin) list \<Rightarrow> utxo \<Rightarrow> utxo" where
  "restore_inputs [] u = u"
| "restore_inputs ((i, x) # ins) u = restore_inputs ins (u(prevout i \<mapsto> x))"

lemma add_outputs_upd:
  assumes "\<And>j. i \<le> j \<Longrightarrow> j < i + length outs \<Longrightarrow> k \<noteq> \<lparr>op_hash = txid, op_n = of_nat j\<rparr>"
  shows "(add_outputs txid cb h i outs u)(k := v) = add_outputs txid cb h i outs (u(k := v))"
  using assms
proof (induction outs arbitrary: i u)
  case (Cons out outs)
  let ?k = "\<lparr>op_hash = txid, op_n = of_nat i\<rparr> :: COutPoint" and ?x = "mk_Coin out h cb"
  have ne: "k \<noteq> ?k" using Cons.prems [of i] by simp
  have "(add_outputs txid cb h (i + 1) outs w)(k := v) = add_outputs txid cb h (i + 1) outs (w(k := v))" for w
    by (rule Cons.IH) (use Cons.prems in simp)
  then show ?case using fun_upd_twist [OF ne, of u v "Some ?x"] by (simp del: fun_upd_apply)
qed simp

lemma outputs_keys_distinct:
  assumes "i + length outs \<le> 2 ^ 32" "i + 1 \<le> j" "j < i + length outs"
  shows "(\<lparr>op_hash = txid, op_n = of_nat i\<rparr> :: COutPoint) \<noteq> \<lparr>op_hash = txid, op_n = of_nat j\<rparr>"
  using assms of_nat_index [of i j] by simp

lemma remove_add_outputs:
  assumes "i + length outs < 2 ^ 32"
    "\<And>j. i \<le> j \<Longrightarrow> j < i + length outs \<Longrightarrow> u \<lparr>op_hash = txid, op_n = of_nat j\<rparr> = None"
  shows "remove_outputs txid i outs (add_outputs txid cb h i outs u) = u"
  using assms
proof (induction outs arbitrary: i u)
  case (Cons out outs)
  let ?k = "\<lparr>op_hash = txid, op_n = of_nat i\<rparr> :: COutPoint"
  have none: "u ?k = None" using Cons.prems(2) [of i] by simp
  have ne: "?k \<noteq> \<lparr>op_hash = txid, op_n = of_nat j\<rparr>" if "i + 1 \<le> j" "j < i + 1 + length outs" for j
    using outputs_keys_distinct [of i "out # outs" j] Cons.prems(1) that by simp
  have IH: "remove_outputs txid (i + 1) outs (add_outputs txid cb h (i + 1) outs u) = u"
    using Cons.IH [of "i + 1" u] Cons.prems by simp
  have "(add_outputs txid cb h (i + 1) outs (u(?k \<mapsto> x)))(?k := None) = add_outputs txid cb h (i + 1) outs u" for x
    using add_outputs_upd [of "i + 1" outs ?k txid cb h "u(?k \<mapsto> x)" None] ne none by (simp add: fun_upd_idem)
  then show ?case using IH by simp
qed simp

fun outputs_present :: "uint256 \<Rightarrow> bool \<Rightarrow> int \<Rightarrow> nat \<Rightarrow> CTxOut list \<Rightarrow> utxo \<Rightarrow> bool" where
  "outputs_present txid cb h i [] u \<longleftrightarrow> True"
| "outputs_present txid cb h i (out # outs) u \<longleftrightarrow>
     (IsUnspendable (scriptPubKey out) \<or> u \<lparr>op_hash = txid, op_n = of_nat i\<rparr> = Some (mk_Coin out h cb)) \<and>
     outputs_present txid cb h (i + 1) outs u"

lemma outputs_present_upd:
  assumes "\<And>j. i \<le> j \<Longrightarrow> j < i + length outs \<Longrightarrow> k \<noteq> \<lparr>op_hash = txid, op_n = of_nat j\<rparr>"
  shows "outputs_present txid cb h i outs (u(k := v)) \<longleftrightarrow> outputs_present txid cb h i outs u"
  using assms
proof (induction outs arbitrary: i)
  case (Cons out outs)
  have "k \<noteq> \<lparr>op_hash = txid, op_n = of_nat i\<rparr>" using Cons.prems [of i] by simp
  then have "(u(k := v)) \<lparr>op_hash = txid, op_n = of_nat i\<rparr> = u \<lparr>op_hash = txid, op_n = of_nat i\<rparr>" by auto
  moreover have "outputs_present txid cb h (i + 1) outs (u(k := v)) \<longleftrightarrow> outputs_present txid cb h (i + 1) outs u"
    by (rule Cons.IH) (use Cons.prems in simp)
  ultimately show ?case by (simp del: fun_upd_apply)
qed simp

lemma add_outputs_present:
  assumes "i + length outs < 2 ^ 32"
  shows "outputs_present txid cb h i outs (add_outputs txid cb h i outs u)"
  using assms
proof (induction outs arbitrary: i u)
  case (Cons out outs)
  have "add_outputs txid cb h (i + 1) outs w \<lparr>op_hash = txid, op_n = of_nat i\<rparr> = w \<lparr>op_hash = txid, op_n = of_nat i\<rparr>" for w
    using Cons.prems by (intro add_outputs_below) auto
  then show ?case using Cons by simp
qed simp

lemma restore_inputs_eq:
  "restore_inputs xs u = u ++ map_of (rev (map (\<lambda>(i, x). (prevout i, x)) xs))"
  by (induction xs arbitrary: u) (auto simp: map_add_def fun_eq_iff split: option.splits)

lemma restore_removed:
  assumes "list_all (\<lambda>i. u (prevout i) \<noteq> None) ins"
  shows "restore_inputs (rev (zip ins (spent_coins u ins))) (remove_inputs ins u) = u"
proof -
  have zip: "map (\<lambda>(i, x). (prevout i, x)) (zip ins (spent_coins u ins)) = map (\<lambda>i. (prevout i, the (u (prevout i)))) ins"
    by (induction ins) (simp_all add: spent_coins_def)
  have "map_of (map (\<lambda>i. (prevout i, the (u (prevout i)))) ins) k = (if k \<in> prevout ` set ins then Some (the (u k)) else None)" for k
    by (induction ins) auto
  then show ?thesis
    using assms by (auto simp: restore_inputs_eq rev_map [symmetric] zip fun_eq_iff map_add_def remove_inputs_eq list_all_iff split: option.splits)
qed

lemma length_block_undo [simp]: "length (block_undo Hash h txs u) = length txs"
  by (induction txs arbitrary: u) simp_all

section \<open>Undoing on the cache\<close>

context coins_reader
begin

lemma ApplyTxInUndo_clean:
  assumes "cache_inv binv babs c" "cache_abs babs c out = None" "coin_nHeight undo \<noteq> 0" "\<not> IsSpent undo"
    "\<not> IsUnspendable (scriptPubKey (coin_out undo))"
  shows "\<exists>c'. ApplyTxInUndo base undo c out = Some (DISCONNECT_OK, c') \<and> cache_inv binv babs c' \<and>
    cache_abs babs c' = (cache_abs babs c)(out \<mapsto> undo)"
proof -
  obtain c1 where c1: "HaveCoin base c out = Some (False, c1)" "cache_inv binv babs c1" "cache_abs babs c1 = cache_abs babs c"
    using HaveCoin_correct [OF assms(1), of out] assms(2) by auto
  show ?thesis
    using AddCoin_correct [OF c1(2) assms(4,5), of False out] c1 assms(2,3) by (auto simp: ApplyTxInUndo_def)
qed

lemma restore_inputs_loop_correct:
  assumes "cache_inv binv babs c" "distinct (map (prevout \<circ> fst) xs)"
    "list_all (\<lambda>(i, x). cache_abs babs c (prevout i) = None \<and> coin_nHeight x \<noteq> 0 \<and> \<not> IsSpent x \<and>
      \<not> IsUnspendable (scriptPubKey (coin_out x))) xs"
  shows "\<exists>c'. restore_inputs_loop base xs fClean c = Some (Some fClean, c') \<and> cache_inv binv babs c' \<and>
    cache_abs babs c' = restore_inputs xs (cache_abs babs c)"
  using assms
proof (induction xs arbitrary: c)
  case (Cons p xs)
  obtain i x where p: "p = (i, x)" by (cases p)
  obtain c1 where c1: "ApplyTxInUndo base x c (prevout i) = Some (DISCONNECT_OK, c1)" "cache_inv binv babs c1"
    "cache_abs babs c1 = (cache_abs babs c)(prevout i \<mapsto> x)"
    using ApplyTxInUndo_clean [OF Cons.prems(1), of "prevout i" x] Cons.prems(3) by (auto simp: p)
  have "prevout (fst q) \<noteq> prevout i" if "q \<in> set xs" for q
    using Cons.prems(2) imageI [OF that, of "prevout \<circ> fst"] unfolding p
    by (metis comp_apply distinct.simps(2) fst_conv list.set_map list.simps(9))
  then have "list_all (\<lambda>(i, x). cache_abs babs c1 (prevout i) = None \<and> coin_nHeight x \<noteq> 0 \<and> \<not> IsSpent x \<and>
      \<not> IsUnspendable (scriptPubKey (coin_out x))) xs"
    using Cons.prems(3) by (fastforce simp: c1(3) list_all_iff p)
  then show ?case using Cons.IH [OF c1(2)] Cons.prems(2) c1(1,3) by (simp add: p del: fun_upd_apply)
qed simp

lemma undo_outputs_loop_correct:
  assumes "cache_inv binv babs c" "outputs_present txid cb h i outs (cache_abs babs c)" "i + length outs < 2 ^ 32"
    "0 \<le> h" "h < 2 ^ 31"
  shows "\<exists>c'. undo_outputs_loop base txid h cb ex i outs fClean c = Some (fClean, c') \<and> cache_inv binv babs c' \<and>
    cache_abs babs c' = remove_outputs txid i outs (cache_abs babs c)"
  using assms(1-3)
proof (induction outs arbitrary: i c)
  case (Cons out outs)
  let ?k = "\<lparr>op_hash = txid, op_n = of_nat i\<rparr> :: COutPoint"
  show ?case
  proof (cases "IsUnspendable (scriptPubKey out)")
    case True
    then show ?thesis using Cons.IH [OF Cons.prems(1), of "i + 1"] Cons.prems(2,3) by simp
  next
    case False
    then have x: "cache_abs babs c ?k = Some (mk_Coin out h cb)" using Cons.prems(2) by simp
    obtain c1 where c1: "SpendCoin base c ?k = Some (Some (mk_Coin out h cb), c1)" "cache_inv binv babs c1"
      "cache_abs babs c1 = (cache_abs babs c)(?k := None)"
      using SpendCoin_present [OF Cons.prems(1) x] by blast
    have "?k \<noteq> \<lparr>op_hash = txid, op_n = of_nat j\<rparr>" if "i + 1 \<le> j" "j < i + 1 + length outs" for j
      using outputs_keys_distinct [of i "out # outs" j] Cons.prems(3) that by simp
    then have "outputs_present txid cb h (i + 1) outs (cache_abs babs c1)"
      using outputs_present_upd [of "i + 1" outs ?k txid] Cons.prems(2) unfolding c1(3) by simp
    moreover have "h = uint (coin_nHeight (mk_Coin out h cb))" "fCoinBase (mk_Coin out h cb) = cb"
      using assms(4,5) by (simp_all add: mk_Coin_def uint_word_of_int)
    ultimately show ?thesis
      using Cons.IH [OF c1(2), of "i + 1"] Cons.prems(3) False c1(1,3) by (simp del: fun_upd_apply)
  qed
qed simp

lemma undo_transaction_correct:
  assumes inv: "cache_inv binv babs c" and abs: "cache_abs babs c = tx_effect Hash h tx u"
    and ok: "utxo_ok h u" "CheckTransaction tx = Inr ()" "fresh_outputs Hash tx u"
    and present: "IsCoinBase tx \<or> inputs_present tx u" and h: "1 \<le> h" "h < 2 ^ 31"
    and undo: "undo = (if IsCoinBase tx then None else Some (spent_coins u (vin tx)))"
  shows "\<exists>c'. undo_transaction Hash base h enf tx undo fClean c = Some (Some fClean, c') \<and> cache_inv binv babs c' \<and>
    cache_abs babs c' = u"
proof -
  let ?txid = "GetTxid Hash tx" and ?cb = "IsCoinBase tx"
  let ?v = "if ?cb then u else remove_inputs (vin tx) u"
  note len = checked_outputs [OF ok(2)]
  have "outputs_present ?txid ?cb h 0 (vout tx) (cache_abs babs c)"
    unfolding abs tx_effect_def using len by (intro add_outputs_present) simp
  then obtain c1 where c1: "undo_outputs_loop base ?txid h ?cb (?cb \<and> \<not> enf) 0 (vout tx) fClean c = Some (fClean, c1)"
    "cache_inv binv babs c1" "cache_abs babs c1 = remove_outputs ?txid 0 (vout tx) (cache_abs babs c)"
    using undo_outputs_loop_correct [OF inv, of ?txid ?cb h 0 "vout tx" "?cb \<and> \<not> enf" fClean] len h by auto
  have "?v \<lparr>op_hash = ?txid, op_n = of_nat j\<rparr> = None" if "j < length (vout tx)" for j
    using ok(3) that by (simp add: fresh_outputs_def remove_inputs_eq)
  then have v: "cache_abs babs c1 = ?v"
    unfolding c1(3) abs tx_effect_def using len by (intro remove_add_outputs) auto
  show ?thesis
  proof (cases ?cb)
    case True
    then show ?thesis using c1(1,2) v undo by (simp add: undo_transaction_def)
  next
    case False
    let ?xs = "rev (zip (vin tx) (spent_coins u (vin tx)))"
    have pres: "list_all (\<lambda>i. u (prevout i) \<noteq> None) (vin tx)" using present False by (simp add: inputs_present_def)
    have len': "length (spent_coins u (vin tx)) = length (vin tx)" by (simp add: spent_coins_def)
    then have "map (prevout \<circ> fst) ?xs = rev (map prevout (vin tx))" by (simp add: rev_map [symmetric] map_map [symmetric] del: map_map)
    then have dist: "distinct (map (prevout \<circ> fst) ?xs)" using CheckTransaction_InrD(4) [OF ok(2)] by simp
    have "cache_abs babs c1 (prevout i) = None \<and> coin_nHeight x \<noteq> 0 \<and> \<not> IsSpent x \<and> \<not> IsUnspendable (scriptPubKey (coin_out x))"
      if "(i, x) \<in> set ?xs" for i x
    proof -
      have "i \<in> set (vin tx)" "x = the (u (prevout i))"
        using that by (auto simp: spent_coins_def zip_map2 set_zip)
      then have "u (prevout i) = Some x" "i \<in> set (vin tx)" using pres by (auto simp: list_all_iff)
      moreover from this(1) have "MoneyRange (nValue (coin_out x))" "1 \<le> uint (coin_nHeight x)" "\<not> IsUnspendable (scriptPubKey (coin_out x))"
        using utxo_okD(2) [OF ok(1)] by blast+
      ultimately show ?thesis
        using v False by (auto simp: remove_inputs_eq MoneyRange_def IsSpent_def)
    qed
    then have "list_all (\<lambda>(i, x). cache_abs babs c1 (prevout i) = None \<and> coin_nHeight x \<noteq> 0 \<and> \<not> IsSpent x \<and>
        \<not> IsUnspendable (scriptPubKey (coin_out x))) ?xs" by (auto simp: list_all_iff)
    from restore_inputs_loop_correct [OF c1(2) dist this, of fClean] show ?thesis
      using c1(1) v undo False restore_removed [OF pres] len' by (auto simp: undo_transaction_def)
  qed
qed

lemma disconnect_loop_append:
  "disconnect_loop Hash base h enf (xs @ ys) fClean c = do {
     (r, c) \<leftarrow> disconnect_loop Hash base h enf xs fClean c;
     case r of None \<Rightarrow> Some (None, c) | Some fClean \<Rightarrow> disconnect_loop Hash base h enf ys fClean c }"
proof (induction xs arbitrary: fClean c)
  case (Cons p xs)
  obtain tx un where p: "p = (tx, un)" by (cases p)
  show ?case
  proof (cases "undo_transaction Hash base h enf tx un fClean c")
    case (Some q)
    then show ?thesis using Cons.IH by (cases q; cases "fst q") (auto simp: p)
  qed (simp add: p)
qed simp

lemma disconnect_tail:
  assumes "cache_inv binv babs c" "cache_abs babs c = block_effect Hash h txs u" "connectable Hash h txs u"
    "list_all (\<lambda>tx. \<not> IsCoinBase tx) txs" "utxo_ok h u" "1 \<le> h" "h < 2 ^ 31"
  shows "\<exists>c'. disconnect_loop Hash base h enf (rev (zip txs (map Some (block_undo Hash h txs u)))) fClean c = Some (Some fClean, c') \<and>
    cache_inv binv babs c' \<and> cache_abs babs c' = u"
  using assms
proof (induction txs arbitrary: c u)
  case (Cons tx txs)
  let ?v = "tx_effect Hash h tx u"
  have tx: "CheckTransaction tx = Inr ()" "inputs_present tx u" "fresh_outputs Hash tx u" "\<not> IsCoinBase tx" "connectable Hash h txs ?v"
    using Cons.prems(3,4) by auto
  have ok: "utxo_ok h ?v" using tx_effect_ok [OF Cons.prems(5) tx(1,3) Cons.prems(6,7)] tx(2) by blast
  obtain c1 where c1: "disconnect_loop Hash base h enf (rev (zip txs (map Some (block_undo Hash h txs ?v)))) fClean c = Some (Some fClean, c1)"
    "cache_inv binv babs c1" "cache_abs babs c1 = ?v"
    using Cons.IH [OF Cons.prems(1) _ tx(5) _ ok Cons.prems(6,7)] Cons.prems(2,4) by (auto simp: block_effect_def)
  obtain c2 where c2: "undo_transaction Hash base h enf tx (Some (spent_coins u (vin tx))) fClean c1 = Some (Some fClean, c2)"
    "cache_inv binv babs c2" "cache_abs babs c2 = u"
    using undo_transaction_correct [OF c1(2,3) Cons.prems(5) tx(1,3) _ Cons.prems(6,7), of _ enf fClean] tx(2,4) by auto
  then show ?case using c1(1) by (simp add: disconnect_loop_append)
qed (simp add: block_effect_def)

lemma DisconnectBlock_correct:
  assumes "cache_inv binv babs c" "cache_abs babs c = block_effect Hash h (vtx block) u" "connectable Hash h (vtx block) u"
    "transactions_ok (vtx block)" "utxo_ok h u" "1 \<le> h" "h < 2 ^ 31"
    and m: "m bh = Some b" "pprev b = Some p" "h = int (nHeight b)"
  shows "\<exists>c'. DisconnectBlock Hash base (Some (block_undo Hash h (tl (vtx block)) (tx_effect Hash h (hd (vtx block)) u))) m block bh c =
      Some (DISCONNECT_OK, c') \<and> cache_inv binv babs c' \<and> cache_abs babs c' = u \<and> (\<not> IsNull p \<longrightarrow> cache_best bbest c' = p)"
proof -
  obtain tx txs where vtx: "vtx block = tx # txs" using assms(4) by (cases "vtx block") (auto simp: transactions_ok_def)
  let ?v = "tx_effect Hash h tx u" and ?enf = "\<not> IsBIP30Unspendable bh h"
  have tx: "CheckTransaction tx = Inr ()" "IsCoinBase tx" "fresh_outputs Hash tx u" "connectable Hash h txs ?v"
    "list_all (\<lambda>tx. \<not> IsCoinBase tx) txs"
    using assms(3,4) by (auto simp: vtx transactions_ok_def)
  have ok: "utxo_ok h ?v" using tx_effect_ok [OF assms(5) tx(1,3) assms(6,7)] tx(2) by blast
  obtain c1 where c1: "disconnect_loop Hash base h ?enf (rev (zip txs (map Some (block_undo Hash h txs ?v)))) True c = Some (Some True, c1)"
    "cache_inv binv babs c1" "cache_abs babs c1 = ?v"
    using disconnect_tail [OF assms(1) _ tx(4,5) ok assms(6,7), of ?enf True] assms(2) by (auto simp: vtx block_effect_def)
  obtain c2 where c2: "undo_transaction Hash base h ?enf tx None True c1 = Some (Some True, c2)"
    "cache_inv binv babs c2" "cache_abs babs c2 = u"
    using undo_transaction_correct [OF c1(2,3) assms(5) tx(1,3) _ assms(6,7), of None ?enf True] tx(2) by auto
  have "disconnect_loop Hash base h ?enf (rev (zip (vtx block) (None # map Some (block_undo Hash h txs ?v)))) True c = Some (Some True, c2)"
    using c1(1) c2(1) by (simp add: vtx disconnect_loop_append)
  then have "DisconnectBlock Hash base (Some (block_undo Hash h (tl (vtx block)) (tx_effect Hash h (hd (vtx block)) u))) m block bh c =
      Some (DISCONNECT_OK, SetBestBlock p c2)"
    using m by (simp add: DisconnectBlock_def vtx)
  then show ?thesis
    using c2(2,3) inv_block_hash [where c = c2 and h = p] by (simp add: SetBestBlock_def cache_best_def)
qed

end

end
