(* ===== verification/Chainstate.thy ===== *)
theory Chainstate
  imports Disconnect Chain
begin

text \<open>
  The chainstate (\<open>validation.cpp\<close>): the active chain, the coins of its tip, and the undo data on disk.
  \<open>ConnectTip\<close> and \<open>DisconnectTip\<close> move the tip by one block, each through a temporary cache which is flushed
  only on success, \<open>FlushStateToDisk\<close> writes the coins of the tip to the database when it must, and
  \<open>ActivateBestChainStep\<close> reorganizes towards a given block. The memory pool, the notifications and the marking of
  failed blocks in the index are left out; what the disk, the clock and the memory usage decide are parameters.
\<close>

section \<open>Writing the coins to disk\<close>

datatype FlushStateMode = NONE | IF_NEEDED | PERIODIC | FORCE_FLUSH | FORCE_SYNC

datatype CoinsCacheSizeState = CRITICAL | LARGE | OK

fun cache_state_value :: "CoinsCacheSizeState \<Rightarrow> nat" where
  "cache_state_value CRITICAL = 2"
| "cache_state_value LARGE = 1"
| "cache_state_value OK = 0"

lemma cache_state_value_inject: "cache_state_value a = cache_state_value b \<longleftrightarrow> a = b"
  by (cases a; cases b) simp_all

instantiation CoinsCacheSizeState :: linorder
begin

definition less_eq_CoinsCacheSizeState :: "CoinsCacheSizeState \<Rightarrow> CoinsCacheSizeState \<Rightarrow> bool" where
  "a \<le> b \<longleftrightarrow> cache_state_value a \<le> cache_state_value b"

definition less_CoinsCacheSizeState :: "CoinsCacheSizeState \<Rightarrow> CoinsCacheSizeState \<Rightarrow> bool" where
  "a < b \<longleftrightarrow> cache_state_value a < cache_state_value b"

instance
  by standard (auto simp: less_eq_CoinsCacheSizeState_def less_CoinsCacheSizeState_def cache_state_value_inject [symmetric])

end

definition LargeCoinsCacheThreshold :: "int \<Rightarrow> int" where
  "LargeCoinsCacheThreshold total_space = max ((total_space * 9) sdiv 10) (total_space - 10 * 1024 * 1024)"

definition GetCoinsCacheSizeState :: "int \<Rightarrow> int \<Rightarrow> int \<Rightarrow> int \<Rightarrow> CoinsCacheSizeState" where
  "GetCoinsCacheSizeState cacheSize nMempoolUsage max_coins_cache_size_bytes max_mempool_size_bytes =
     (let nTotalSpace = max_coins_cache_size_bytes + max (max_mempool_size_bytes - nMempoolUsage) 0 in
      if cacheSize > nTotalSpace then CRITICAL
      else if cacheSize > LargeCoinsCacheThreshold nTotalSpace then LARGE
      else OK)"

text \<open>What memory, clock, pruning and disk say when \<open>FlushStateToDisk\<close> is called.\<close>

record flush_env =
  cacheSize :: int
  nMempoolUsage :: int
  max_coins_cache_size :: int
  max_mempool_size :: int
  write_due :: bool
  fFlushForPrune :: bool
  blocks_space :: bool
  CheckDiskSpace :: "nat \<Rightarrow> bool"

definition FlushStateToDisk :: "'b CCoinsView \<Rightarrow> FlushStateMode \<Rightarrow> flush_env \<Rightarrow> 'b CCoinsViewCache \<Rightarrow> (bool \<times> 'b CCoinsViewCache) option" where
  "FlushStateToDisk base mode fl tip =
     (let cache_state = GetCoinsCacheSizeState (cacheSize fl) (nMempoolUsage fl) (max_coins_cache_size fl) (max_mempool_size fl);
          fCacheLarge = (mode = PERIODIC \<and> cache_state \<ge> LARGE);
          fCacheCritical = (mode = IF_NEEDED \<and> cache_state \<ge> CRITICAL);
          fPeriodicWrite = (mode = PERIODIC \<and> write_due fl);
          empty_cache = (mode = FORCE_FLUSH \<or> fCacheLarge \<or> fCacheCritical);
          should_write = (mode = FORCE_SYNC \<or> empty_cache \<or> fPeriodicWrite \<or> fFlushForPrune fl)
      in if \<not> should_write then Some (True, tip)
         else if \<not> blocks_space fl then Some (False, tip)
         else (let (best, tip) = GetBestBlock base tip in
           if \<not> IsNull best then
             if \<not> CheckDiskSpace fl (48 * 2 * 2 * m_dirty_count tip) then Some (False, tip)
             else map_option (Pair True) (if empty_cache then Flush base tip else Sync base tip)
           else Some (True, tip)))"

section \<open>Moving the tip\<close>

record Chainstate =
  m_chain :: CChain
  CoinsTip :: "CCoinsViewDB CCoinsViewCache"
  undo_data :: "uint256 \<Rightarrow> CTxUndo list option"

text \<open>
  The parameters of the chain, the hash functions, the script of the team wallet, the rules in force for a block, the blocks on disk (what
  \<open>ReadBlock\<close> returns for an index entry), and how the database cuts its batches.
\<close>

record chain_env =
  hashes :: block_hashes
  consensus :: Params
  teamScript :: "byte list"
  rules :: "uint256 \<Rightarrow> connect_rules"
  ReadBlock :: "uint256 \<Rightarrow> CBlock option"
  ApproximateSize :: "db_batch_op list \<Rightarrow> nat"
  batch_write_bytes :: nat

abbreviation coins_base :: "chain_env \<Rightarrow> CCoinsViewDB CCoinsView" where
  "coins_base env \<equiv> db_view (ApproximateSize env) (batch_write_bytes env)"

text \<open>Undo data is written once: a block that has some keeps it.\<close>

definition WriteBlockUndo :: "CTxUndo list \<Rightarrow> uint256 \<Rightarrow> (uint256 \<Rightarrow> CTxUndo list option) \<Rightarrow> uint256 \<Rightarrow> CTxUndo list option" where
  "WriteBlockUndo blockundo block undo = (if undo block = None then undo(block \<mapsto> blockundo) else undo)"

datatype tip_result = TIP_OK | TIP_INVALID block_error | TIP_ERROR

definition ConnectTip :: "chain_env \<Rightarrow> block_map \<Rightarrow> (Chainstate \<Rightarrow> flush_env) \<Rightarrow> uint256 \<Rightarrow> CBlock option \<Rightarrow> Chainstate
    \<Rightarrow> (tip_result \<times> Chainstate) option" where
  "ConnectTip env m fl pindexNew block_to_connect st = do {
     b \<leftarrow> m pindexNew;
     (if pprev b \<noteq> chain_Tip (m_chain st) then None
      else case (if block_to_connect = None then ReadBlock env pindexNew else block_to_connect) of
        None \<Rightarrow> Some (TIP_ERROR, st)
      | Some block \<Rightarrow> do {
          let base = cache_view (coins_base env);
          (r, _, view) \<leftarrow> ConnectBlock (hashes env) (consensus env) base (rules env pindexNew) (teamScript env) m block pindexNew
            False (new_cache True (CoinsTip st));
          case r of
            Inl e \<Rightarrow> Some (case e of CorruptBlock \<Rightarrow> TIP_ERROR | InvalidBlock e \<Rightarrow> TIP_INVALID e, st\<lparr>CoinsTip := cache_base view\<rparr>)
          | Inr blockundo \<Rightarrow> do {
              view \<leftarrow> Flush base view;
              let st = st\<lparr>CoinsTip := cache_base view,
                undo_data := if pindexNew = hashGenesisBlock (consensus env) then undo_data st
                  else WriteBlockUndo blockundo pindexNew (undo_data st)\<rparr>;
              (ok, tip) \<leftarrow> FlushStateToDisk (coins_base env) IF_NEEDED (fl st) (CoinsTip st);
              let st = st\<lparr>CoinsTip := tip\<rparr>;
              if \<not> ok then Some (TIP_ERROR, st)
              else do {
                chain \<leftarrow> SetTip m (m_chain st) pindexNew;
                Some (TIP_OK, st\<lparr>m_chain := chain\<rparr>)
              }
            }
        })
   }"

definition DisconnectTip :: "chain_env \<Rightarrow> block_map \<Rightarrow> (Chainstate \<Rightarrow> flush_env) \<Rightarrow> Chainstate \<Rightarrow> (bool \<times> Chainstate) option" where
  "DisconnectTip env m fl st = do {
     pindexDelete \<leftarrow> chain_Tip (m_chain st);
     b \<leftarrow> m pindexDelete;
     prev \<leftarrow> pprev b;
     case ReadBlock env pindexDelete of
       None \<Rightarrow> Some (False, st)
     | Some block \<Rightarrow>
         (let base = cache_view (coins_base env);
              (best, view) = GetBestBlock base (new_cache False (CoinsTip st))
          in if best \<noteq> pindexDelete then None
             else do {
               (r, view) \<leftarrow> DisconnectBlock (bh_Hash (hashes env)) base (undo_data st pindexDelete) m block pindexDelete view;
               if r \<noteq> DISCONNECT_OK then Some (False, st\<lparr>CoinsTip := cache_base view\<rparr>)
               else do {
                 view \<leftarrow> Flush base view;
                 let st = st\<lparr>CoinsTip := cache_base view\<rparr>;
                 (ok, tip) \<leftarrow> FlushStateToDisk (coins_base env) IF_NEEDED (fl st) (CoinsTip st);
                 let st = st\<lparr>CoinsTip := tip\<rparr>;
                 if \<not> ok then Some (False, st)
                 else do {
                   chain \<leftarrow> SetTip m (m_chain st) prev;
                   Some (True, st\<lparr>m_chain := chain\<rparr>)
                 }
               }
             })
   }"

section \<open>A step towards the best chain\<close>

partial_function (option) disconnect_tips :: "chain_env \<Rightarrow> block_map \<Rightarrow> (Chainstate \<Rightarrow> flush_env) \<Rightarrow> ptr \<Rightarrow> Chainstate
    \<Rightarrow> (bool \<times> Chainstate) option" where
  "disconnect_tips env m fl pindexFork st =
     (if chain_Tip (m_chain st) \<noteq> None \<and> chain_Tip (m_chain st) \<noteq> pindexFork then do {
        (ok, st) \<leftarrow> DisconnectTip env m fl st;
        if \<not> ok then Some (False, st) else disconnect_tips env m fl pindexFork st
      }
      else Some (True, st))"

partial_function (option) collect_blocks :: "block_map \<Rightarrow> int \<Rightarrow> ptr \<Rightarrow> uint256 list \<Rightarrow> uint256 list option" where
  "collect_blocks m h pindexIter vpindexToConnect =
     (case pindexIter of
        None \<Rightarrow> Some vpindexToConnect
      | Some p \<Rightarrow> do {
          b \<leftarrow> m p;
          if int (nHeight b) \<noteq> h then collect_blocks m h (pprev b) (vpindexToConnect @ [p]) else Some vpindexToConnect
        })"

text \<open>How connecting a run of blocks ended: all connected, in a better position than before, at an invalid block, or by a system error.\<close>

datatype connect_outcome = CONNECT_CONTINUE | CONNECT_BETTER | CONNECT_INVALID | CONNECT_ERROR

definition better_tip :: "block_map \<Rightarrow> ptr \<Rightarrow> ptr \<Rightarrow> bool option" where
  "better_tip m pindexOldTip pindexTip = (case pindexOldTip of
     None \<Rightarrow> Some True
   | Some old \<Rightarrow> do {
       a \<leftarrow> m old;
       p \<leftarrow> pindexTip;
       b \<leftarrow> m p;
       Some (CompareTo (nChainWork b) (nChainWork a) > 0)
     })"

fun connect_tips :: "chain_env \<Rightarrow> block_map \<Rightarrow> (Chainstate \<Rightarrow> flush_env) \<Rightarrow> uint256 \<Rightarrow> CBlock option \<Rightarrow> ptr \<Rightarrow> uint256 list \<Rightarrow> Chainstate
    \<Rightarrow> (connect_outcome \<times> Chainstate) option" where
  "connect_tips env m fl index_most_work pblock pindexOldTip [] st = Some (CONNECT_CONTINUE, st)"
| "connect_tips env m fl index_most_work pblock pindexOldTip (pindexConnect # ps) st = do {
     (r, st) \<leftarrow> ConnectTip env m fl pindexConnect (if pindexConnect = index_most_work then pblock else None) st;
     case r of
       TIP_INVALID _ \<Rightarrow> Some (CONNECT_INVALID, st)
     | TIP_ERROR \<Rightarrow> Some (CONNECT_ERROR, st)
     | TIP_OK \<Rightarrow> do {
         better \<leftarrow> better_tip m pindexOldTip (chain_Tip (m_chain st));
         if better then Some (CONNECT_BETTER, st)
         else connect_tips env m fl index_most_work pblock pindexOldTip ps st
       }
   }"

partial_function (option) connect_batches :: "chain_env \<Rightarrow> block_map \<Rightarrow> (Chainstate \<Rightarrow> flush_env) \<Rightarrow> uint256 \<Rightarrow> CBlock option \<Rightarrow> ptr \<Rightarrow> int
    \<Rightarrow> Chainstate \<Rightarrow> (connect_outcome \<times> Chainstate) option" where
  "connect_batches env m fl index_most_work pblock pindexOldTip h st = do {
     b \<leftarrow> m index_most_work;
     if h \<noteq> int (nHeight b) then do {
       let nTargetHeight = min (h + 32) (int (nHeight b));
       pindexIter \<leftarrow> GetAncestor m index_most_work nTargetHeight;
       vpindexToConnect \<leftarrow> collect_blocks m h pindexIter [];
       (outcome, st) \<leftarrow> connect_tips env m fl index_most_work pblock pindexOldTip (rev vpindexToConnect) st;
       if outcome = CONNECT_CONTINUE then connect_batches env m fl index_most_work pblock pindexOldTip nTargetHeight st
       else Some (outcome, st)
     }
     else Some (CONNECT_CONTINUE, st)
   }"

text \<open>Whether the step succeeded, whether it found an invalid block, and the new chainstate.\<close>

definition ActivateBestChainStep :: "chain_env \<Rightarrow> block_map \<Rightarrow> (Chainstate \<Rightarrow> flush_env) \<Rightarrow> uint256 \<Rightarrow> CBlock option \<Rightarrow> Chainstate
    \<Rightarrow> (bool \<times> bool \<times> Chainstate) option" where
  "ActivateBestChainStep env m fl index_most_work pblock st = do {
     let pindexOldTip = chain_Tip (m_chain st);
     pindexFork \<leftarrow> FindFork m (m_chain st) index_most_work;
     (ok, st) \<leftarrow> disconnect_tips env m fl pindexFork st;
     if \<not> ok then Some (False, False, st)
     else do {
       h \<leftarrow> (case pindexFork of None \<Rightarrow> Some (- 1) | Some f \<Rightarrow> map_option (\<lambda>b. int (nHeight b)) (m f));
       (outcome, st) \<leftarrow> connect_batches env m fl index_most_work pblock pindexOldTip h st;
       Some (outcome \<noteq> CONNECT_ERROR, outcome = CONNECT_INVALID, st)
     }
   }"

end
