(* ===== verification/Activate.thy ===== *)
theory Activate
  imports Chainstate
begin

text \<open>
  Why the chainstate stays right: the coins of the tip are at all times the unspent outputs of the blocks of the active
  chain, however it was reached, the undo data on disk is that of its blocks, and a block that is rejected leaves no trace.
\<close>

section \<open>Views that only change above their base\<close>

text \<open>Reading through a cache leaves its base standing for the same coins and the same block.\<close>

interpretation frozen_tip: coins_reader "cache_view (db_view sz lim)"
  "\<lambda>c. cache_inv db_inv db_coins c \<and> cache_abs db_coins c = u \<and> cache_best DB_GetBestBlock c = h"
  "cache_abs db_coins" "cache_best DB_GetBestBlock" for sz lim u h
proof
  fix c k assume c: "cache_inv db_inv db_coins c \<and> cache_abs db_coins c = u \<and> cache_best DB_GetBestBlock c = h"
  show "\<exists>b'. view_GetCoin (cache_view (db_view sz lim)) c k = Some (cache_abs db_coins c k, b') \<and>
      (cache_inv db_inv db_coins b' \<and> cache_abs db_coins b' = u \<and> cache_best DB_GetBestBlock b' = h) \<and>
      cache_abs db_coins b' = cache_abs db_coins c \<and> cache_best DB_GetBestBlock b' = cache_best DB_GetBestBlock c"
    using coins_tip.get [of c sz lim k] c by auto
  show "\<exists>b'. view_HaveCoin (cache_view (db_view sz lim)) c k = Some (cache_abs db_coins c k \<noteq> None, b') \<and>
      (cache_inv db_inv db_coins b' \<and> cache_abs db_coins b' = u \<and> cache_best DB_GetBestBlock b' = h) \<and>
      cache_abs db_coins b' = cache_abs db_coins c \<and> cache_best DB_GetBestBlock b' = cache_best DB_GetBestBlock c"
    using coins_tip.have_coin [of c sz lim k] c by auto
  show "\<exists>b'. view_GetBestBlock (cache_view (db_view sz lim)) c = (cache_best DB_GetBestBlock c, b') \<and>
      (cache_inv db_inv db_coins b' \<and> cache_abs db_coins b' = u \<and> cache_best DB_GetBestBlock b' = h) \<and>
      cache_abs db_coins b' = cache_abs db_coins c \<and> cache_best DB_GetBestBlock b' = cache_best DB_GetBestBlock c"
    using coins_tip.best [of c sz lim] c by auto
qed (use coins_tip.peek coins_tip.unspent_only in blast)+

abbreviation tip_inv :: "CCoinsViewDB CCoinsViewCache \<Rightarrow> bool" where
  "tip_inv \<equiv> cache_inv db_inv db_coins"

abbreviation tip_utxo :: "CCoinsViewDB CCoinsViewCache \<Rightarrow> utxo" where
  "tip_utxo \<equiv> cache_abs db_coins"

abbreviation tip_best :: "CCoinsViewDB CCoinsViewCache \<Rightarrow> uint256" where
  "tip_best \<equiv> cache_best DB_GetBestBlock"

text \<open>A view over a tip whose coins are \<open>u\<close> and whose best block is \<open>h\<close>.\<close>

abbreviation view_over :: "utxo \<Rightarrow> uint256 \<Rightarrow> CCoinsViewDB CCoinsViewCache CCoinsViewCache \<Rightarrow> bool" where
  "view_over u h \<equiv> cache_inv (\<lambda>c. tip_inv c \<and> tip_utxo c = u \<and> tip_best c = h) tip_utxo"

lemma view_over_inv:
  assumes "view_over u h c"
  shows "cache_inv tip_inv tip_utxo c" "tip_inv (cache_base c)" "tip_utxo (cache_base c) = u" "tip_best (cache_base c) = h"
  using assms unfolding cache_inv_def [of _ _ c] by auto

lemma cache_best_new [simp]: "cache_best bbest (new_cache ov b) = bbest b"
  by (simp add: cache_best_def new_cache_def IsNull_def list_all_iff)

lemma view_over_new:
  assumes "tip_inv tip" "tip_utxo tip = u" "tip_best tip = h"
  shows "view_over u h (new_cache ov tip)" "cache_abs tip_utxo (new_cache ov tip) = u"
    "cache_best tip_best (new_cache ov tip) = h"
  using frozen_tip.inv_new_cache [of tip u h ov] frozen_tip.abs_new_cache [of ov tip] assms by simp_all

section \<open>Flushing\<close>

lemma cursor_block_hash: "m_block_hash (fold (NextAndMaybeErase will_erase) es c) = m_block_hash c"
proof (induction es arbitrary: c)
  case (Cons e es)
  have "m_block_hash (NextAndMaybeErase will_erase e c) = m_block_hash c"
    by (auto simp: NextAndMaybeErase_def Let_def flag_defs SetClean_def split: option.splits)
  then show ?case using Cons by simp
qed simp

lemma write_block_hash:
  "Flush base c = Some c' \<Longrightarrow> m_block_hash c' = m_block_hash c" "Sync base c = Some c' \<Longrightarrow> m_block_hash c' = m_block_hash c"
  by (auto simp: Flush_def Sync_def Let_def cursor_block_hash bind_eq_Some_conv split: if_splits)

text \<open>A view whose best block is not that of its base is flushed into the base.\<close>

lemma Flush_view:
  assumes "view_over u h c" "cache_best tip_best c = p" "p \<noteq> h"
  shows "\<exists>c'. Flush (cache_view (db_view sz lim)) c = Some c' \<and> tip_inv (cache_base c') \<and>
    tip_utxo (cache_base c') = cache_abs tip_utxo c \<and> tip_best (cache_base c') = p"
proof -
  have h: "\<not> IsNull (m_block_hash c)" "m_block_hash c = p"
    using assms view_over_inv(4) [OF assms(1)] by (auto simp: cache_best_def split: if_splits)
  obtain c' where "Flush (cache_view (db_view sz lim)) c = Some c'" "cache_inv tip_inv tip_utxo c'"
    "tip_utxo (cache_base c') = cache_abs tip_utxo c" "tip_best (cache_base c') = m_block_hash c"
    using coins_tip.Flush_correct [OF view_over_inv(1) [OF assms(1)] h(1), of sz lim] by blast
  then show ?thesis using h(2) by (auto simp: cache_inv_def)
qed

lemma FlushStateToDisk_correct:
  assumes "tip_inv tip"
  shows "\<exists>ok tip'. FlushStateToDisk (db_view sz lim) mode fl tip = Some (ok, tip') \<and> tip_inv tip' \<and>
    tip_utxo tip' = tip_utxo tip \<and> tip_best tip' = tip_best tip \<and>
    (blocks_space fl \<and> (\<forall>n. CheckDiskSpace fl n) \<longrightarrow> ok)"
proof -
  obtain tip1 where t1: "GetBestBlock (db_view sz lim) tip = (tip_best tip, tip1)" "tip_inv tip1" "tip_utxo tip1 = tip_utxo tip"
    "tip_best tip1 = tip_best tip"
    using coins_db.GetBestBlock_correct [OF assms, of sz lim] by blast
  have h: "m_block_hash tip1 = tip_best tip" if "\<not> IsNull (tip_best tip)"
    using t1(1) that by (auto simp: GetBestBlock_def cache_best_def split: if_splits prod.splits)
  have written: "\<exists>tip'. (if e then Flush (db_view sz lim) tip1 else Sync (db_view sz lim) tip1) = Some tip' \<and> tip_inv tip' \<and>
      tip_utxo tip' = tip_utxo tip \<and> tip_best tip' = tip_best tip" if n: "\<not> IsNull (tip_best tip)" for e
  proof (cases e)
    case True
    obtain c where c: "Flush (db_view sz lim) tip1 = Some c" "tip_inv c" "tip_utxo c = tip_utxo tip1"
      using coins_db.Flush_correct [OF t1(2), of sz lim] h n by metis
    then show ?thesis using True t1(3) write_block_hash(1) [OF c(1)] h n by (simp add: cache_best_def)
  next
    case False
    obtain c where c: "Sync (db_view sz lim) tip1 = Some c" "tip_inv c" "tip_utxo c = tip_utxo tip1"
      using coins_db.Sync_correct [OF t1(2), of sz lim] h n by metis
    then show ?thesis using False t1(3) write_block_hash(2) [OF c(1)] h n by (simp add: cache_best_def)
  qed
  have "\<exists>w e. FlushStateToDisk (db_view sz lim) mode fl tip =
      (if \<not> w then Some (True, tip) else if \<not> blocks_space fl then Some (False, tip)
       else if \<not> IsNull (tip_best tip) then
         if \<not> CheckDiskSpace fl (48 * 2 * 2 * m_dirty_count tip1) then Some (False, tip1)
         else map_option (Pair True) (if e then Flush (db_view sz lim) tip1 else Sync (db_view sz lim) tip1)
       else Some (True, tip1))"
    unfolding FlushStateToDisk_def Let_def t1(1) prod.case by (intro exI) (rule refl)
  then obtain w e where eq: "FlushStateToDisk (db_view sz lim) mode fl tip =
      (if \<not> w then Some (True, tip) else if \<not> blocks_space fl then Some (False, tip)
       else if \<not> IsNull (tip_best tip) then
         if \<not> CheckDiskSpace fl (48 * 2 * 2 * m_dirty_count tip1) then Some (False, tip1)
         else map_option (Pair True) (if e then Flush (db_view sz lim) tip1 else Sync (db_view sz lim) tip1)
       else Some (True, tip1))"
    by blast
  show ?thesis
  proof (cases "w \<and> blocks_space fl \<and> \<not> IsNull (tip_best tip) \<and> CheckDiskSpace fl (48 * 2 * 2 * m_dirty_count tip1)")
    case True
    obtain tip' where "(if e then Flush (db_view sz lim) tip1 else Sync (db_view sz lim) tip1) = Some tip'" "tip_inv tip'"
      "tip_utxo tip' = tip_utxo tip" "tip_best tip' = tip_best tip"
      using written [of e] True by blast
    then show ?thesis using True unfolding eq by (intro exI [of _ True] exI [of _ tip']) simp
  next
    case False
    then show ?thesis using t1 assms unfolding eq by auto
  qed
qed

section \<open>The ledger of a chain\<close>

text \<open>
  What is relied on: the index is a well-formed tree whose only root is the genesis block, its heights fit into the 31 bits a coin has
  for them, its hashes are not null and are not those of the two blocks exempt from the check against overwriting; a block read
  from disk is the one that was asked for, with flags that claim only what is true, and without two transactions of the same
  identifier; and pay-to-script-hash is enforced.
\<close>

definition env_ok :: "chain_env \<Rightarrow> block_map \<Rightarrow> bool" where
  "env_ok env m \<longleftrightarrow> block_map_wf m \<and>
     (\<forall>bh b. m bh = Some b \<longrightarrow> \<not> IsNull bh \<and> int (nHeight b) < 2 ^ 31 \<and> \<not> IsBIP30Repeat (int (nHeight b)) bh \<and>
        (bh = hashGenesisBlock (consensus env) \<longleftrightarrow> pprev b = None)) \<and>
     (\<forall>bh block. ReadBlock env bh = Some block \<longrightarrow> bh = bh_header (hashes env) (header block) \<and>
        flags_sound (hashes env) (consensus env) block \<and> distinct (txids (bh_Hash (hashes env)) (vtx block))) \<and>
     (\<forall>bh. verify_p2sh (rules env bh))"

text \<open>
  The unspent outputs after a block: none after the genesis block, and after any other those of its parent with the block's
  transactions applied, provided they can be, the first is the only coinbase and they create no more than the subsidy.
\<close>

inductive ledger :: "chain_env \<Rightarrow> block_map \<Rightarrow> uint256 \<Rightarrow> utxo \<Rightarrow> bool" for env m where
  ledger_genesis: "m g = Some b \<Longrightarrow> pprev b = None \<Longrightarrow> ledger env m g Map.empty"
| ledger_block: "ledger env m p u \<Longrightarrow> m bh = Some b \<Longrightarrow> pprev b = Some p \<Longrightarrow> ReadBlock env bh = Some block \<Longrightarrow>
    connectable (bh_Hash (hashes env)) (int (nHeight b)) (vtx block) u \<Longrightarrow> transactions_ok (vtx block) \<Longrightarrow>
    u' = block_effect (bh_Hash (hashes env)) (int (nHeight b)) (vtx block) u \<Longrightarrow> utxo_ok (int (nHeight b)) u' \<Longrightarrow>
    total_value u' \<le> total_value u + GetBlockSubsidy (int (nHeight b)) \<Longrightarrow> ledger env m bh u'"

inductive_cases ledgerE: "ledger env m bh u"

lemma ledger_unique: "ledger env m bh u \<Longrightarrow> ledger env m bh v \<Longrightarrow> u = v"
proof (induction arbitrary: v rule: ledger.induct)
  case (ledger_genesis g b)
  then show ?case by (auto elim: ledgerE)
next
  case (ledger_block p u bh b block u')
  note hyps = ledger_block.hyps(2-4) ledger_block.hyps(7)
  from ledger_block.prems show ?case
  proof (rule ledgerE)
    fix c assume "m bh = Some c" "pprev c = None"
    then show ?thesis using hyps by simp
  next
    fix q w c s
    assume w: "ledger env m q w" "v = block_effect (bh_Hash (hashes env)) (int (nHeight c)) (vtx s) w"
      and "m bh = Some c" "pprev c = Some q" "ReadBlock env bh = Some s"
    then have "c = b" "q = p" "s = block" using hyps by simp_all
    then show ?thesis using ledger_block.IH w hyps(4) by simp
  qed
qed

lemma utxo_ok_mono: "utxo_ok h u \<Longrightarrow> h \<le> h' \<Longrightarrow> utxo_ok h' u"
  unfolding utxo_ok_def by (meson order_trans)

lemma ledger_ok: "ledger env m bh u \<Longrightarrow> \<exists>b. m bh = Some b \<and> utxo_ok (int (nHeight b)) u"
  by (induction rule: ledger.induct) (auto simp: utxo_ok_def)

lemma env_okD:
  assumes "env_ok env m"
  shows "block_map_wf m" "m uint256_null = None"
    "m bh = Some b \<Longrightarrow> \<not> IsNull bh \<and> int (nHeight b) < 2 ^ 31 \<and> \<not> IsBIP30Repeat (int (nHeight b)) bh"
    "m bh = Some b \<Longrightarrow> bh = hashGenesisBlock (consensus env) \<longleftrightarrow> pprev b = None"
    "ReadBlock env bh = Some block \<Longrightarrow> bh = bh_header (hashes env) (header block) \<and>
        flags_sound (hashes env) (consensus env) block \<and> distinct (txids (bh_Hash (hashes env)) (vtx block))"
    "verify_p2sh (rules env bh)"
proof -
  have wf: "block_map_wf m"
    and tree: "\<forall>bh b. m bh = Some b \<longrightarrow> \<not> IsNull bh \<and> int (nHeight b) < 2 ^ 31 \<and> \<not> IsBIP30Repeat (int (nHeight b)) bh \<and>
        (bh = hashGenesisBlock (consensus env) \<longleftrightarrow> pprev b = None)"
    and disk: "\<forall>bh block. ReadBlock env bh = Some block \<longrightarrow> bh = bh_header (hashes env) (header block) \<and>
        flags_sound (hashes env) (consensus env) block \<and> distinct (txids (bh_Hash (hashes env)) (vtx block))"
    and p2sh: "\<forall>bh. verify_p2sh (rules env bh)"
    using assms unfolding env_ok_def by blast+
  have "IsNull uint256_null" by (simp add: IsNull_def uint256_null_def list_all_iff)
  then show "m uint256_null = None" using tree by (metis option.exhaust)
  show "block_map_wf m" by (rule wf)
  show "m bh = Some b \<Longrightarrow> \<not> IsNull bh \<and> int (nHeight b) < 2 ^ 31 \<and> \<not> IsBIP30Repeat (int (nHeight b)) bh"
    "m bh = Some b \<Longrightarrow> bh = hashGenesisBlock (consensus env) \<longleftrightarrow> pprev b = None"
    using tree by blast+
  show "ReadBlock env bh = Some block \<Longrightarrow> bh = bh_header (hashes env) (header block) \<and>
      flags_sound (hashes env) (consensus env) block \<and> distinct (txids (bh_Hash (hashes env)) (vtx block))"
    using disk by blast
  show "verify_p2sh (rules env bh)" using p2sh by blast
qed

lemma parentD:
  assumes "env_ok env m" "m bh = Some b" "pprev b = Some p"
  obtains c where "m p = Some c" "nHeight b = Suc (nHeight c)" "p \<noteq> bh"
proof -
  obtain c where c: "m p = Some c" "nHeight b = Suc (nHeight c)"
    using block_map_wfD [OF env_okD(1) [OF assms(1)] assms(2)] assms(3) by (auto simp: entry_wf_def split: option.splits)
  moreover have "p \<noteq> bh" using c assms(2) by auto
  ultimately show ?thesis by (rule that)
qed

text \<open>The block that is connected: the one on disk, or a copy of it in memory.\<close>

definition copy_of :: "chain_env \<Rightarrow> uint256 \<Rightarrow> CBlock \<Rightarrow> bool" where
  "copy_of env bh block \<longleftrightarrow> (\<exists>s. ReadBlock env bh = Some s \<and> header block = header s \<and> vtx block = vtx s) \<and>
     flags_sound (hashes env) (consensus env) block"

section \<open>The invariant of the chainstate\<close>

definition undo_of :: "chain_env \<Rightarrow> block_map \<Rightarrow> uint256 \<Rightarrow> CTxUndo list \<Rightarrow> bool" where
  "undo_of env m bh us \<longleftrightarrow> (\<forall>b p u block. m bh = Some b \<longrightarrow> pprev b = Some p \<longrightarrow> ledger env m p u \<longrightarrow> ReadBlock env bh = Some block \<longrightarrow>
     us = block_undo (bh_Hash (hashes env)) (int (nHeight b)) (tl (vtx block))
       (tx_effect (bh_Hash (hashes env)) (int (nHeight b)) (hd (vtx block)) u))"

definition undo_ok :: "chain_env \<Rightarrow> block_map \<Rightarrow> ptr \<Rightarrow> (uint256 \<Rightarrow> CTxUndo list option) \<Rightarrow> bool" where
  "undo_ok env m tip undo \<longleftrightarrow> (\<forall>bh us. undo bh = Some us \<longrightarrow> undo_of env m bh us) \<and>
     (\<forall>t bh b. tip = Some t \<longrightarrow> anc m bh t \<longrightarrow> m bh = Some b \<longrightarrow> pprev b \<noteq> None \<longrightarrow> undo bh \<noteq> None)"

definition tip_ok :: "chain_env \<Rightarrow> block_map \<Rightarrow> Chainstate \<Rightarrow> ptr \<Rightarrow> bool" where
  "tip_ok env m st tip \<longleftrightarrow> (case tip of
     None \<Rightarrow> m_chain st = [] \<and> tip_utxo (CoinsTip st) = Map.empty \<and> tip_best (CoinsTip st) = uint256_null
   | Some t \<Rightarrow> (\<exists>b. m t = Some b \<and> m_chain st = path_to m t b) \<and> tip_best (CoinsTip st) = t \<and> ledger env m t (tip_utxo (CoinsTip st)))"

definition state_ok :: "chain_env \<Rightarrow> block_map \<Rightarrow> Chainstate \<Rightarrow> bool" where
  "state_ok env m st \<longleftrightarrow> tip_inv (CoinsTip st) \<and> tip_ok env m st (chain_Tip (m_chain st)) \<and>
     undo_ok env m (chain_Tip (m_chain st)) (undo_data st)"

lemma chain_Tip_path [simp]: "chain_Tip (path_to m t b) = Some t"
  by (simp add: chain_Tip_def path_to_nth)

lemma chain_Tip_Nil [simp]: "chain_Tip [] = None"
  by (simp add: chain_Tip_def)

lemma state_okD:
  assumes "state_ok env m st"
  shows "tip_inv (CoinsTip st)" "undo_ok env m (chain_Tip (m_chain st)) (undo_data st)" "chain_ok m (m_chain st)"
    "chain_Tip (m_chain st) = None \<Longrightarrow> m_chain st = [] \<and> tip_utxo (CoinsTip st) = Map.empty \<and> tip_best (CoinsTip st) = uint256_null"
    "chain_Tip (m_chain st) = Some t \<Longrightarrow> (\<exists>b. m t = Some b \<and> m_chain st = path_to m t b) \<and> tip_best (CoinsTip st) = t \<and>
       ledger env m t (tip_utxo (CoinsTip st))"
  using assms by (auto simp: state_ok_def tip_ok_def chain_ok_def split: option.splits)

end
