(* ===== verification/Tip.thy ===== *)
theory Tip
  imports Activate
begin

text \<open>
  Moving the tip by one block keeps the chainstate right, and leaves it as it was when the block is rejected.
\<close>

section \<open>Connecting a block to the tip\<close>

abbreviation connect_view :: "chain_env \<Rightarrow> block_map \<Rightarrow> CBlock \<Rightarrow> uint256 \<Rightarrow> CCoinsViewDB CCoinsViewCache
    \<Rightarrow> ((connect_failure + CTxUndo list) \<times> CBlock \<times> CCoinsViewDB CCoinsViewCache CCoinsViewCache) option" where
  "connect_view env m block bh tip \<equiv> ConnectBlock (hashes env) (consensus env) (cache_view (coins_base env)) (rules env bh) (teamScript env)
     m block bh False (new_cache True tip)"

lemma connect_genesis:
  assumes "env_ok env m" "m bh = Some b" "pprev b = None" "copy_of env bh block"
    and tip: "tip_inv tip" "tip_utxo tip = u" "tip_best tip = uint256_null"
  shows "\<exists>r block' c'. connect_view env m block bh tip = Some (r, block', c') \<and> view_over u uint256_null c' \<and>
    (\<forall>undos. r = Inr undos \<longrightarrow> cache_abs tip_utxo c' = u \<and> cache_best tip_best c' = bh)"
proof -
  note new = view_over_new [OF tip, of True]
  have bh: "bh = bh_header (hashes env) (header block)" "flags_sound (hashes env) (consensus env) block"
    using assms(4) env_okD(5) [OF assms(1)] by (auto simp: copy_of_def)
  have g: "bh = hashGenesisBlock (consensus env)" "\<not> IsNull bh" using env_okD(3,4) [OF assms(1,2)] assms(3) by simp_all
  obtain r1 block1 where b1: "CheckBlock (hashes env) (consensus env) block True True = Some (r1, block1)"
    using CheckBlock_sound [OF bh(2), of True True] by blast
  obtain c1 where c1: "GetBestBlock (cache_view (coins_base env)) (new_cache True tip) = (uint256_null, c1)" "view_over u uint256_null c1"
    "cache_abs tip_utxo c1 = u"
    using frozen_tip.GetBestBlock_correct [OF new(1), of "ApproximateSize env" "batch_write_bytes env"] unfolding new(2,3) by blast
  show ?thesis
  proof (cases r1)
    case (Inl e)
    then show ?thesis using b1 bh(1) assms(2) new(1) by (simp add: ConnectBlock_def)
  next
    case (Inr v)
    have "view_over u uint256_null (SetBestBlock bh c1)" "cache_abs tip_utxo (SetBestBlock bh c1) = u" "cache_best tip_best (SetBestBlock bh c1) = bh"
      using c1(2,3) g(2) cache_best_def [of tip_best "SetBestBlock bh c1"]
      by (simp_all add: SetBestBlock_def frozen_tip.inv_block_hash)
    then show ?thesis using Inr b1 bh(1) g(1) assms(2,3) c1(1) by (simp add: ConnectBlock_def)
  qed
qed

lemma connect_block:
  assumes env: "env_ok env m" and b: "m bh = Some b" "pprev b = Some p" and s: "copy_of env bh block" "ReadBlock env bh = Some s"
    and tip: "tip_inv tip" "tip_utxo tip = u" "tip_best tip = p" and l: "ledger env m p u"
  shows "\<exists>r block' c'. connect_view env m block bh tip = Some (r, block', c') \<and> view_over u p c' \<and>
    (\<forall>undos. r = Inr undos \<longrightarrow> ledger env m bh (cache_abs tip_utxo c') \<and> cache_best tip_best c' = bh \<and>
      undos = block_undo (bh_Hash (hashes env)) (int (nHeight b)) (tl (vtx s))
        (tx_effect (bh_Hash (hashes env)) (int (nHeight b)) (hd (vtx s)) u))"
proof -
  note new = view_over_new [OF tip, of True]
  let ?h = "int (nHeight b)" and ?Hash = "bh_Hash (hashes env)"
  have blk: "header block = header s" "vtx block = vtx s" "flags_sound (hashes env) (consensus env) block" "bh = bh_header (hashes env) (header block)"
      "distinct (txids ?Hash (vtx block))"
    using s env_okD(5) [OF env s(2)] by (auto simp: copy_of_def)
  obtain c where c: "m p = Some c" "nHeight b = Suc (nHeight c)" using parentD [OF env b] by metis
  have ok: "utxo_ok ?h u" using ledger_ok [OF l] c utxo_ok_mono [of "int (nHeight c)" u ?h] by auto
  have bh: "\<not> IsNull bh" "?h < 2 ^ 31" "\<not> IsBIP30Repeat ?h bh" "bh \<noteq> hashGenesisBlock (consensus env)"
    using env_okD(3,4) [OF env b(1)] b(2) by simp_all
  have ok': "utxo_ok ?h (cache_abs tip_utxo (new_cache True tip))" using ok new(2) by simp
  obtain r block' c' where r: "connect_view env m block bh tip = Some (r, block', c')" "view_over u p c'"
    and inr: "\<forall>undos. r = Inr undos \<longrightarrow> cache_abs tip_utxo c' = block_effect ?Hash ?h (vtx block) u \<and>
      undos = block_undo ?Hash ?h (tl (vtx block)) (tx_effect ?Hash ?h (hd (vtx block)) u) \<and>
      utxo_ok ?h (cache_abs tip_utxo c') \<and> total_value (cache_abs tip_utxo c') \<le> total_value u + GetBlockSubsidy ?h \<and>
      connectable ?Hash ?h (vtx block) u \<and> transactions_ok (vtx block) \<and>
      (\<not> False \<longrightarrow> merkle_ok (hashes env) block \<and> (\<not> IsNull bh \<longrightarrow> cache_best tip_best c' = bh))"
    using frozen_tip.ConnectBlock_correct [OF new(1) new(3) ok' blk(3) env_okD(1) [OF env] b refl bh(2) blk(4) bh(4) env_okD(2) [OF env] bh(3) blk(5)
        env_okD(6) [OF env], of "ApproximateSize env" "batch_write_bytes env" bh "teamScript env" False]
    unfolding new(2) by (elim exE conjE) (rule that)
  have r3: "cache_abs tip_utxo c' = block_effect ?Hash ?h (vtx s) u" "utxo_ok ?h (cache_abs tip_utxo c')"
      "undos = block_undo ?Hash ?h (tl (vtx s)) (tx_effect ?Hash ?h (hd (vtx s)) u)"
      "total_value (cache_abs tip_utxo c') \<le> total_value u + GetBlockSubsidy ?h" "connectable ?Hash ?h (vtx s) u"
      "transactions_ok (vtx s)" "cache_best tip_best c' = bh" if "r = Inr undos" for undos
    using inr [rule_format, OF that] bh(1) unfolding blk(2) by blast+
  have "ledger env m bh (cache_abs tip_utxo c')" if "r = Inr undos" for undos
    using ledger_block [OF l b s(2) r3(5,6,1,2,4) [OF that]] .
  then show ?thesis using r r3(3,7) by blast
qed

lemma connect_tip_block:
  assumes env: "env_ok env m" and st: "state_ok env m st" and b: "m bh = Some b" "pprev b = chain_Tip (m_chain st)"
    and blk: "copy_of env bh block"
  shows "\<exists>r block' c'. connect_view env m block bh (CoinsTip st) = Some (r, block', c') \<and>
    view_over (tip_utxo (CoinsTip st)) (tip_best (CoinsTip st)) c' \<and>
    (\<forall>undos. r = Inr undos \<longrightarrow> ledger env m bh (cache_abs tip_utxo c') \<and> cache_best tip_best c' = bh \<and>
      bh \<noteq> tip_best (CoinsTip st) \<and> (pprev b \<noteq> None \<longrightarrow> undo_of env m bh undos))"
proof (cases "pprev b")
  case None
  then have t: "tip_utxo (CoinsTip st) = Map.empty" "tip_best (CoinsTip st) = uint256_null" using state_okD(4) [OF st] b(2) by simp_all
  have "bh \<noteq> uint256_null" using env_okD(2) [OF env] b(1) by auto
  then show ?thesis
    using connect_genesis [OF env b(1) None blk state_okD(1) [OF st] t] ledger_genesis [of m bh b env] b(1) None t by auto
next
  case (Some p)
  then have t: "tip_best (CoinsTip st) = p" "ledger env m p (tip_utxo (CoinsTip st))" using state_okD(5) [OF st] b(2) by simp_all
  obtain s where s: "ReadBlock env bh = Some s" using blk by (auto simp: copy_of_def)
  have ne: "bh \<noteq> p" using parentD [OF env b(1) Some] by metis
  have "undo_of env m bh (block_undo (bh_Hash (hashes env)) (int (nHeight b)) (tl (vtx s))
      (tx_effect (bh_Hash (hashes env)) (int (nHeight b)) (hd (vtx s)) (tip_utxo (CoinsTip st))))"
    unfolding undo_of_def using b(1) Some s ledger_unique [OF t(2)] by auto
  then show ?thesis
    using connect_block [OF env b(1) Some blk s state_okD(1) [OF st] refl t] t(1) ne by auto
qed

text \<open>When a block is reported as corrupt, its transactions do not match its header.\<close>

lemma check_transactions_loop_result:
  "check_transactions_loop txs = Some (Inl e) \<Longrightarrow> fst e = BLOCK_CONSENSUS"
  by (induction txs) (auto split: sum.splits if_splits)

lemma CheckBlock_mutated:
  assumes "CheckBlock hs params block True True = Some (Inl e, block')" "fst e = BLOCK_MUTATED"
  shows "\<not> merkle_ok hs block"
proof
  assume "merkle_ok hs block"
  then have "\<exists>b1. CheckMerkleRoot hs block = (Inr (), b1)" by (auto simp: CheckMerkleRoot_def merkle_ok_def Let_def)
  then obtain b1 where b1: "CheckMerkleRoot hs block = (Inr (), b1)" by blast
  obtain r2 where "check_transactions_loop (vtx b1) = Some r2" using check_transactions_loop_correct by blast
  then show False
    using assms b1 by (cases r2) (auto simp: CheckBlock_def CheckBlockHeader_def bind_eq_Some_conv dest: check_transactions_loop_result
        split: if_splits)
qed

lemma ConnectBlock_corrupt:
  assumes "ConnectBlock hs params base rs team m block bh False view = Some (Inl CorruptBlock, block', view')"
  shows "\<not> merkle_ok hs block"
proof -
  obtain r block1 where c: "CheckBlock hs params block True True = Some (r, block1)"
    using assms by (auto simp: ConnectBlock_def bind_eq_Some_conv split: if_splits)
  then have "\<exists>e. r = Inl e \<and> fst e = BLOCK_MUTATED"
    using assms by (auto simp: ConnectBlock_def split: bind_split_asm if_split_asm sum.split_asm prod.split_asm option.split_asm)
  then show ?thesis using CheckBlock_mutated c by blast
qed

definition disk_ok :: "(Chainstate \<Rightarrow> flush_env) \<Rightarrow> bool" where
  "disk_ok fl \<longleftrightarrow> (\<forall>st. blocks_space (fl st) \<and> (\<forall>n. CheckDiskSpace (fl st) n))"

definition readable :: "chain_env \<Rightarrow> uint256 \<Rightarrow> bool" where
  "readable env bh \<longleftrightarrow> (\<exists>s. ReadBlock env bh = Some s \<and> merkle_ok (hashes env) s)"

lemma undo_ok_connect:
  assumes "undo_ok env m (pprev b) undo" "m bh = Some b" "pprev b \<noteq> None \<longrightarrow> undo_of env m bh undos"
  shows "undo_ok env m (Some bh) (if pprev b = None then undo else WriteBlockUndo undos bh undo)"
proof -
  have anc: "anc m x bh \<Longrightarrow> x = bh \<or> (\<exists>q. pprev b = Some q \<and> anc m x q)" for x
    using anc_cases [where m = m and p = bh and x = x, OF assms(2)] by blast
  show ?thesis
    unfolding undo_ok_def
  proof (intro conjI allI impI)
    fix x us assume "(if pprev b = None then undo else WriteBlockUndo undos bh undo) x = Some us"
    then show "undo_of env m x us" using assms by (auto simp: undo_ok_def WriteBlockUndo_def split: if_splits)
  next
    fix t x c assume "Some bh = Some t" "anc m x t" "m x = Some c" "pprev c \<noteq> None"
    then show "(if pprev b = None then undo else WriteBlockUndo undos bh undo) x \<noteq> None"
      using assms(1,2) anc [of x] by (auto simp: undo_ok_def WriteBlockUndo_def)
  qed
qed

lemma ConnectTip_correct:
  assumes env: "env_ok env m" and st: "state_ok env m st" and b: "m bh = Some b" "pprev b = chain_Tip (m_chain st)"
    and copy: "\<And>block. block_to_connect = Some block \<Longrightarrow> copy_of env bh block"
  shows "\<exists>r st'. ConnectTip env m fl bh block_to_connect st = Some (r, st') \<and>
    (r = TIP_OK \<longrightarrow> state_ok env m st' \<and> chain_Tip (m_chain st') = Some bh) \<and>
    (\<forall>e. r = TIP_INVALID e \<longrightarrow> state_ok env m st' \<and> m_chain st' = m_chain st \<and>
      tip_utxo (CoinsTip st') = tip_utxo (CoinsTip st) \<and> undo_data st' = undo_data st) \<and>
    (r = TIP_ERROR \<longrightarrow> \<not> (readable env bh \<and> disk_ok fl))"
proof (cases "if block_to_connect = None then ReadBlock env bh else block_to_connect")
  case None
  then have "ConnectTip env m fl bh block_to_connect st = Some (TIP_ERROR, st)" using b by (simp add: ConnectTip_def)
  moreover have "\<not> readable env bh" using None by (auto simp: readable_def split: if_splits)
  ultimately show ?thesis by simp
next
  case (Some block)
  have cp: "copy_of env bh block"
    using Some copy env_okD(5) [OF env] by (auto simp: copy_of_def split: if_splits)
  obtain r block' c' where r: "connect_view env m block bh (CoinsTip st) = Some (r, block', c')"
    "view_over (tip_utxo (CoinsTip st)) (tip_best (CoinsTip st)) c'"
    "\<forall>undos. r = Inr undos \<longrightarrow> ledger env m bh (cache_abs tip_utxo c') \<and> cache_best tip_best c' = bh \<and>
      bh \<noteq> tip_best (CoinsTip st) \<and> (pprev b \<noteq> None \<longrightarrow> undo_of env m bh undos)"
    using connect_tip_block [OF env st b cp] by blast
  note base = view_over_inv [OF r(2)]
  show ?thesis
  proof (cases r)
    case (Inl e)
    let ?st = "st\<lparr>CoinsTip := cache_base c'\<rparr>"
    have "ConnectTip env m fl bh block_to_connect st = Some (case e of CorruptBlock \<Rightarrow> TIP_ERROR | InvalidBlock e \<Rightarrow> TIP_INVALID e, ?st)"
      using Inl Some b r(1) by (simp add: ConnectTip_def Let_def)
    moreover have "\<not> readable env bh" if "e = CorruptBlock"
      using ConnectBlock_corrupt [OF r(1) [unfolded Inl that]] cp by (auto simp: readable_def copy_of_def merkle_ok_def)
    moreover have "state_ok env m ?st" using st base(2-4) by (auto simp: state_ok_def tip_ok_def split: option.splits)
    ultimately show ?thesis using base(3) by (cases e) auto
  next
    case (Inr undos)
    let ?undo = "if pprev b = None then undo_data st else WriteBlockUndo undos bh (undo_data st)"
    have conn: "ledger env m bh (cache_abs tip_utxo c')" "cache_best tip_best c' = bh" "bh \<noteq> tip_best (CoinsTip st)"
      "pprev b \<noteq> None \<longrightarrow> undo_of env m bh undos"
      using r(3) Inr by blast+
    obtain c'' where c'': "Flush (cache_view (coins_base env)) c' = Some c''" "tip_inv (cache_base c'')"
      "tip_utxo (cache_base c'') = cache_abs tip_utxo c'" "tip_best (cache_base c'') = bh"
      using Flush_view [OF r(2) conn(2,3)] by blast
    let ?st = "st\<lparr>CoinsTip := cache_base c'', undo_data := ?undo\<rparr>"
    obtain ok tip' where t: "FlushStateToDisk (coins_base env) IF_NEEDED (fl ?st) (cache_base c'') = Some (ok, tip')" "tip_inv tip'"
      "tip_utxo tip' = cache_abs tip_utxo c'" "tip_best tip' = bh" "blocks_space (fl ?st) \<and> (\<forall>n. CheckDiskSpace (fl ?st) n) \<longrightarrow> ok"
      using FlushStateToDisk_correct [OF c''(2), of "ApproximateSize env" "batch_write_bytes env" IF_NEEDED "fl ?st"] c''(3,4) by auto
    have chain: "SetTip m (m_chain st) bh = Some (path_to m bh b)"
      using SetTip_spec [OF env_okD(1) [OF env] state_okD(3) [OF st] b(1)] .
    have "undo_ok env m (Some bh) ?undo"
      using undo_ok_connect [OF _ b(1) conn(4)] state_okD(2) [OF st] b(2) by simp
    with t(2-4) conn(1) b(1) have "state_ok env m (?st\<lparr>CoinsTip := tip', m_chain := path_to m bh b\<rparr>)"
      by (simp add: state_ok_def tip_ok_def)
    moreover have "ConnectTip env m fl bh block_to_connect st =
        Some (if ok then (TIP_OK, ?st\<lparr>CoinsTip := tip', m_chain := path_to m bh b\<rparr>) else (TIP_ERROR, ?st\<lparr>CoinsTip := tip'\<rparr>))"
      using Inr Some b r(1) c''(1) t(1) chain env_okD(4) [OF env b(1)] by (simp add: ConnectTip_def Let_def)
    ultimately show ?thesis using t(5) by (auto simp: disk_ok_def)
  qed
qed

section \<open>Disconnecting the tip\<close>

lemma undo_ok_disconnect:
  assumes "undo_ok env m (Some t) undo" "m t = Some b" "pprev b = Some p"
  shows "undo_ok env m (Some p) undo"
proof -
  have "anc m x p \<Longrightarrow> anc m x t" for x using anc_up [of m 1 t p x] assms(2,3) by simp
  then show ?thesis using assms(1) by (auto simp: undo_ok_def)
qed

lemma ledger_parent:
  assumes "ledger env m t v" "m t = Some b" "pprev b = Some p"
  obtains u block where "ledger env m p u" "ReadBlock env t = Some block"
    "connectable (bh_Hash (hashes env)) (int (nHeight b)) (vtx block) u" "transactions_ok (vtx block)"
    "v = block_effect (bh_Hash (hashes env)) (int (nHeight b)) (vtx block) u"
  using assms(1)
proof (rule ledgerE)
  fix c assume "m t = Some c" "pprev c = None"
  then show ?thesis using assms(2,3) by simp
next
  fix q u c block
  assume l: "ledger env m q u" "ReadBlock env t = Some block" "transactions_ok (vtx block)"
    and c: "m t = Some c" "pprev c = Some q" "connectable (bh_Hash (hashes env)) (int (nHeight c)) (vtx block) u"
      "v = block_effect (bh_Hash (hashes env)) (int (nHeight c)) (vtx block) u"
  then have "c = b" "q = p" using assms(2,3) by simp_all
  then show ?thesis using that l c by simp
qed

lemma DisconnectTip_correct:
  assumes env: "env_ok env m" and st: "state_ok env m st" and t: "chain_Tip (m_chain st) = Some t" "m t = Some b" "pprev b = Some p"
  shows "\<exists>ok st'. DisconnectTip env m fl st = Some (ok, st') \<and>
    (ok \<longrightarrow> state_ok env m st' \<and> chain_Tip (m_chain st') = Some p) \<and> (disk_ok fl \<longrightarrow> ok)"
proof -
  let ?h = "int (nHeight b)" and ?Hash = "bh_Hash (hashes env)"
  have inv: "tip_inv (CoinsTip st)" "tip_best (CoinsTip st) = t" using state_okD(1,5) [OF st] t(1) by simp_all
  have "ledger env m t (tip_utxo (CoinsTip st))" using state_okD(5) [OF st t(1)] by blast
  from ledger_parent [where m = m and t = t and p = p, OF this t(2,3)]
  obtain u block where l: "ledger env m p u" "ReadBlock env t = Some block" "connectable ?Hash ?h (vtx block) u" "transactions_ok (vtx block)"
    "tip_utxo (CoinsTip st) = block_effect ?Hash ?h (vtx block) u"
    by blast
  obtain c where c: "m p = Some c" "nHeight b = Suc (nHeight c)" "p \<noteq> t" using parentD [OF env t(2,3)] by metis
  have ok: "utxo_ok ?h u" using ledger_ok [OF l(1)] c utxo_ok_mono [of "int (nHeight c)" u ?h] by auto
  have bnd: "1 \<le> ?h" "?h < 2 ^ 31" "\<not> IsNull p" using c(2) env_okD(3) [OF env t(2)] env_okD(3) [OF env c(1)] by simp_all
  have undo: "undo_data st t = Some (block_undo ?Hash ?h (tl (vtx block)) (tx_effect ?Hash ?h (hd (vtx block)) u))"
  proof -
    have "undo_data st t \<noteq> None" using state_okD(2) [OF st] t anc_refl [of m t] unfolding undo_ok_def by blast
    then obtain us where us: "undo_data st t = Some us" by blast
    then have "undo_of env m t us" using state_okD(2) [OF st] unfolding undo_ok_def by blast
    then show ?thesis using us t(2,3) l(1,2) unfolding undo_of_def by blast
  qed
  note new = view_over_new [OF inv(1) refl inv(2), of False]
  obtain c1 where c1: "GetBestBlock (cache_view (coins_base env)) (new_cache False (CoinsTip st)) = (t, c1)"
    "view_over (tip_utxo (CoinsTip st)) t c1" "cache_abs tip_utxo c1 = tip_utxo (CoinsTip st)"
    using frozen_tip.GetBestBlock_correct [OF new(1), of "ApproximateSize env" "batch_write_bytes env"] unfolding new(2,3) by blast
  obtain c2 where c2: "DisconnectBlock ?Hash (cache_view (coins_base env)) (undo_data st t) m block t c1 = Some (DISCONNECT_OK, c2)"
    "view_over (tip_utxo (CoinsTip st)) t c2" "cache_abs tip_utxo c2 = u" "\<not> IsNull p \<longrightarrow> cache_best tip_best c2 = p"
    using frozen_tip.DisconnectBlock_correct [where m = m and bh = t and p = p and h = ?h, OF c1(2) trans [OF c1(3) l(5)] l(3,4) ok bnd(1,2) t(2,3) refl,
        of "ApproximateSize env" "batch_write_bytes env"] unfolding undo by blast
  obtain c3 where c3: "Flush (cache_view (coins_base env)) c2 = Some c3" "tip_inv (cache_base c3)"
    "tip_utxo (cache_base c3) = u" "tip_best (cache_base c3) = p"
    using Flush_view [OF c2(2) _ c(3)] c2(3,4) bnd(3) by blast
  let ?st = "st\<lparr>CoinsTip := cache_base c3\<rparr>"
  obtain f tip' where f: "FlushStateToDisk (coins_base env) IF_NEEDED (fl ?st) (cache_base c3) = Some (f, tip')" "tip_inv tip'"
    "tip_utxo tip' = u" "tip_best tip' = p" "blocks_space (fl ?st) \<and> (\<forall>n. CheckDiskSpace (fl ?st) n) \<longrightarrow> f"
    using FlushStateToDisk_correct [OF c3(2), of "ApproximateSize env" "batch_write_bytes env" IF_NEEDED "fl ?st"] c3(3,4) by auto
  have chain: "SetTip m (m_chain st) p = Some (path_to m p c)"
    using SetTip_spec [OF env_okD(1) [OF env] state_okD(3) [OF st] c(1)] .
  have "state_ok env m (?st\<lparr>CoinsTip := tip', m_chain := path_to m p c\<rparr>)"
    using f(2-4) l(1) c(1) undo_ok_disconnect [where m = m and p = p, OF state_okD(2) [OF st, unfolded t(1)] t(2,3)]
    by (simp add: state_ok_def tip_ok_def)
  moreover have "DisconnectTip env m fl st =
      Some (if f then (True, ?st\<lparr>CoinsTip := tip', m_chain := path_to m p c\<rparr>) else (False, ?st\<lparr>CoinsTip := tip'\<rparr>))"
    using t l(2) c1(1) c2(1) c3(1) f(1) chain by (simp add: DisconnectTip_def Let_def)
  ultimately show ?thesis using f(5) by (auto simp: disk_ok_def)
qed

end
