(* ===== verification/Reorg.thy ===== *)
theory Reorg
  imports Tip
begin

text \<open>
  A step towards the best chain: disconnecting down to the fork and connecting upwards always ends, keeps the chainstate
  right, and makes progress unless a block is invalid or the disk fails. From this follow the properties of every chainstate that
  steps reach from an empty one: its coins are determined by its tip alone, and they never exceed the subsidies of its height.
\<close>

section \<open>Disconnecting down to the fork\<close>

lemma disconnect_tips_correct:
  assumes env: "env_ok env m"
  shows "state_ok env m st \<Longrightarrow> chain_Tip (m_chain st) = Some t \<Longrightarrow> m t = Some b \<Longrightarrow> anc m f t \<Longrightarrow>
    \<exists>ok st'. disconnect_tips env m fl (Some f) st = Some (ok, st') \<and>
      (ok \<longrightarrow> state_ok env m st' \<and> chain_Tip (m_chain st') = Some f) \<and> (disk_ok fl \<longrightarrow> ok)"
proof (induction "nHeight b" arbitrary: st t b rule: less_induct)
  case IH: less
  show ?case
  proof (cases "t = f")
    case True
    then show ?thesis using IH.prems by (subst disconnect_tips.simps) auto
  next
    case False
    then obtain q where q: "pprev b = Some q" "anc m f q"
      using anc_cases [where m = m and p = t and x = f, OF IH.prems(3,4)] by blast
    obtain c where c: "m q = Some c" "nHeight b = Suc (nHeight c)" using parentD [OF env IH.prems(3) q(1)] by metis
    obtain ok st1 where d: "DisconnectTip env m fl st = Some (ok, st1)"
      "ok \<longrightarrow> state_ok env m st1 \<and> chain_Tip (m_chain st1) = Some q" "disk_ok fl \<longrightarrow> ok"
      using DisconnectTip_correct [OF env IH.prems(1-3) q(1)] by blast
    have eq: "disconnect_tips env m fl (Some f) st = (if \<not> ok then Some (False, st1) else disconnect_tips env m fl (Some f) st1)"
      using IH.prems(2) False d(1) by (subst disconnect_tips.simps) simp
    show ?thesis
    proof (cases ok)
      case True
      then show ?thesis using IH.hyps [of c st1 q] d(2) c q(2) eq by simp
    next
      case False
      then show ?thesis using eq d(3) by auto
    qed
  qed
qed

section \<open>The blocks to connect\<close>

text \<open>Blocks each of which is the child of the one before, the first of them of \<open>tip\<close>.\<close>

fun linked_from :: "block_map \<Rightarrow> ptr \<Rightarrow> uint256 list \<Rightarrow> bool" where
  "linked_from m tip [] \<longleftrightarrow> True"
| "linked_from m tip (p # ps) \<longleftrightarrow> map_option pprev (m p) = Some tip \<and> linked_from m (Some p) ps"

lemma linked_from_snoc:
  "linked_from m tip (ps @ [q]) \<longleftrightarrow> linked_from m tip ps \<and> map_option pprev (m q) = Some (if ps = [] then tip else Some (last ps))"
  by (induction ps arbitrary: tip) auto

text \<open>The fork: a block at height \<open>h\<close> below \<open>q\<close>, or nothing, below the genesis block.\<close>

definition fork_below :: "block_map \<Rightarrow> ptr \<Rightarrow> int \<Rightarrow> uint256 \<Rightarrow> bool" where
  "fork_below m fork h q \<longleftrightarrow> (case fork of
     None \<Rightarrow> h = - 1
   | Some x \<Rightarrow> (\<exists>b. m x = Some b \<and> h = int (nHeight b)) \<and> anc m x q)"

lemma anc_height:
  assumes "block_map_wf m" "m q = Some c" "anc m x q" "m x = Some b"
  shows "nHeight b \<le> nHeight c" "nHeight b = nHeight c \<Longrightarrow> x = q"
proof -
  obtain n where n: "up m n q = Some x" using assms(3) by (auto simp: anc_def)
  from up_height [OF assms(1,2) n] assms(4) have "nHeight b + n = nHeight c" by auto
  then show "nHeight b \<le> nHeight c" "nHeight b = nHeight c \<Longrightarrow> x = q" using n by auto
qed

lemma fork_below_height:
  assumes "block_map_wf m" "m q = Some c" "fork_below m fork h q"
  shows "h \<le> int (nHeight c)" "h = int (nHeight c) \<Longrightarrow> fork = Some q" "- 1 \<le> h"
  using assms anc_height [OF assms(1,2)] by (auto simp: fork_below_def split: option.splits)

lemma anc_trans: "anc m x q \<Longrightarrow> anc m q t \<Longrightarrow> anc m x t"
  using anc_up by (metis anc_def)

lemma anc_between:
  assumes "block_map_wf m" "m t = Some bt" "anc m x t" "anc m q t" "m x = Some b" "m q = Some c" "nHeight b \<le> nHeight c"
  shows "anc m x q"
proof -
  obtain n k where n: "up m n t = Some x" and k: "up m k t = Some q" using assms(3,4) by (auto simp: anc_def)
  have "nHeight b + n = nHeight bt" "nHeight c + k = nHeight bt"
    using up_height [OF assms(1,2) n] up_height [OF assms(1,2) k] assms(5,6) by auto
  then have "n = k + (n - k)" using assms(7) by simp
  then have "up m (n - k) q = Some x" using n k up_add [of m k "n - k" t] by simp
  then show ?thesis by (auto simp: anc_def)
qed

lemma collect_blocks_correct:
  assumes wf: "block_map_wf m"
  shows "m q = Some c \<Longrightarrow> fork_below m fork h q \<Longrightarrow>
    \<exists>ds. collect_blocks m h (Some q) acc = Some (acc @ ds) \<and> linked_from m fork (rev ds) \<and> (\<forall>p \<in> set ds. anc m p q) \<and>
      (if ds = [] then fork = Some q else hd ds = q)"
proof (induction "nHeight c" arbitrary: q c acc rule: less_induct)
  case IH: less
  show ?case
  proof (cases "int (nHeight c) = h")
    case True
    then have "fork = Some q" using fork_below_height(2) [OF wf IH.prems] by simp
    then show ?thesis using True IH.prems(1) by (subst collect_blocks.simps) (auto intro: exI [of _ "[]"])
  next
    case False
    show ?thesis
    proof (cases "pprev c")
      case None
      have "fork = None"
        using IH.prems(2) False None anc_cases [where m = m and p = q, OF IH.prems(1)] IH.prems(1)
        by (fastforce simp: fork_below_def split: option.splits)
      moreover have "collect_blocks m h None (acc @ [q]) = Some (acc @ [q])" by (subst collect_blocks.simps) simp
      ultimately show ?thesis
        using False None IH.prems(1) by (subst collect_blocks.simps) (auto intro!: exI [of _ "[q]"])
    next
      case (Some p)
      obtain d where d: "m p = Some d" "nHeight c = Suc (nHeight d)"
        using block_map_wfD [OF wf IH.prems(1)] Some by (auto simp: entry_wf_def split: option.splits)
      have "fork_below m fork h p"
        using IH.prems False Some anc_cases [where m = m and p = q, OF IH.prems(1)]
        by (force simp: fork_below_def split: option.splits)
      from IH.hyps [OF _ d(1) this, of "acc @ [q]"] d(2) obtain ds where
        ds: "collect_blocks m h (Some p) (acc @ [q]) = Some ((acc @ [q]) @ ds)" "linked_from m fork (rev ds)"
          "\<forall>x \<in> set ds. anc m x p" "if ds = [] then fork = Some p else hd ds = p"
        by auto
      have "linked_from m fork (rev (q # ds))"
        using ds(2,4) IH.prems(1) Some by (auto simp: linked_from_snoc last_rev split: if_splits)
      moreover have "\<forall>x \<in> set (q # ds). anc m x q"
        using ds(3) anc_up [of m 1 q p] IH.prems(1) Some by auto
      ultimately show ?thesis
        using ds(1) False Some IH.prems(1) by (subst collect_blocks.simps) (auto intro!: exI [of _ "q # ds"])
    qed
  qed
qed

section \<open>Connecting a run of blocks\<close>

lemma better_tip_total: "m t = Some b \<Longrightarrow> old = None \<or> (\<exists>o'. old = Some o' \<and> m o' \<noteq> None) \<Longrightarrow> \<exists>x. better_tip m old (Some t) = Some x"
  by (auto simp: better_tip_def)

text \<open>How far a run got: to its end, to a better position, to an invalid block, or to an error of the disk.\<close>

definition run_result :: "chain_env \<Rightarrow> block_map \<Rightarrow> (Chainstate \<Rightarrow> flush_env) \<Rightarrow> ptr \<Rightarrow> uint256 \<Rightarrow> ptr \<Rightarrow> connect_outcome \<Rightarrow> Chainstate \<Rightarrow> bool" where
  "run_result env m fl old target end_tip outcome st \<longleftrightarrow>
     (outcome \<noteq> CONNECT_ERROR \<longrightarrow> state_ok env m st \<and> (\<forall>q. chain_Tip (m_chain st) = Some q \<longrightarrow> anc m q target)) \<and>
     (outcome = CONNECT_CONTINUE \<longrightarrow> chain_Tip (m_chain st) = end_tip) \<and>
     (outcome = CONNECT_BETTER \<longrightarrow> better_tip m old (chain_Tip (m_chain st)) = Some True) \<and>
     (outcome = CONNECT_ERROR \<longrightarrow> \<not> (disk_ok fl \<and> (\<forall>p. anc m p target \<longrightarrow> readable env p)))"

lemma connect_tips_correct:
  assumes env: "env_ok env m" and copy: "\<forall>block. pblock = Some block \<longrightarrow> copy_of env target block"
    and old: "old = None \<or> (\<exists>o'. old = Some o' \<and> m o' \<noteq> None)"
  shows "state_ok env m st \<Longrightarrow> linked_from m (chain_Tip (m_chain st)) ps \<Longrightarrow> (\<forall>p \<in> set ps. anc m p target) \<Longrightarrow>
    (\<forall>q. chain_Tip (m_chain st) = Some q \<longrightarrow> anc m q target) \<Longrightarrow>
    \<exists>outcome st'. connect_tips env m fl target pblock old ps st = Some (outcome, st') \<and>
      run_result env m fl old target (if ps = [] then chain_Tip (m_chain st) else Some (last ps)) outcome st'"
proof (induction ps arbitrary: st)
  case Nil
  then show ?case by (simp add: run_result_def)
next
  case (Cons p ps)
  obtain b where b: "m p = Some b" "pprev b = chain_Tip (m_chain st)" using Cons.prems(2) by auto
  have anc: "anc m p target" "\<forall>x \<in> set ps. anc m x target" using Cons.prems(3) by simp_all
  let ?blk = "if p = target then pblock else None"
  have cp: "copy_of env p block" if "?blk = Some block" for block using that copy by (auto split: if_splits)
  obtain r st1 where r: "ConnectTip env m fl p ?blk st = Some (r, st1)"
    "r = TIP_OK \<longrightarrow> state_ok env m st1 \<and> chain_Tip (m_chain st1) = Some p"
    "\<forall>e. r = TIP_INVALID e \<longrightarrow> state_ok env m st1 \<and> m_chain st1 = m_chain st \<and>
      tip_utxo (CoinsTip st1) = tip_utxo (CoinsTip st) \<and> undo_data st1 = undo_data st"
    "r = TIP_ERROR \<longrightarrow> \<not> (readable env p \<and> disk_ok fl)"
    using ConnectTip_correct [OF env Cons.prems(1) b cp] by blast
  show ?case
  proof (cases r)
    case TIP_ERROR
    then show ?thesis using r(1,4) anc(1) by (auto simp: run_result_def)
  next
    case (TIP_INVALID e)
    then show ?thesis using r(1,3) Cons.prems(4) by (auto simp: run_result_def)
  next
    case TIP_OK
    then have ok: "state_ok env m st1" "chain_Tip (m_chain st1) = Some p" using r(2) by simp_all
    obtain x where x: "better_tip m old (Some p) = Some x" using better_tip_total [where m = m, OF b(1) old] by blast
    show ?thesis
    proof (cases x)
      case True
      then show ?thesis using TIP_OK r(1) ok x anc(1) by (auto simp: run_result_def)
    next
      case False
      have "\<exists>outcome st'. connect_tips env m fl target pblock old ps st1 = Some (outcome, st') \<and>
          run_result env m fl old target (if ps = [] then chain_Tip (m_chain st1) else Some (last ps)) outcome st'"
        using Cons.IH [OF ok(1)] Cons.prems(2) ok(2) anc by simp
      then show ?thesis using False TIP_OK r(1) ok(2) x by (cases "ps = []") auto
    qed
  qed
qed

lemma connect_batches_correct:
  assumes env: "env_ok env m" and copy: "\<forall>block. pblock = Some block \<longrightarrow> copy_of env target block"
    and old: "old = None \<or> (\<exists>o'. old = Some o' \<and> m o' \<noteq> None)" and bt: "m target = Some bt"
  shows "state_ok env m st \<Longrightarrow> fork_below m (chain_Tip (m_chain st)) h target \<Longrightarrow>
    \<exists>outcome st'. connect_batches env m fl target pblock old h st = Some (outcome, st') \<and>
      run_result env m fl old target (Some target) outcome st'"
proof (induction "nat (int (nHeight bt) - h)" arbitrary: h st rule: less_induct)
  case IH: less
  note wf = env_okD(1) [OF env]
  note hb = fork_below_height [OF wf bt IH.prems(2)]
  have tip: "\<forall>q. chain_Tip (m_chain st) = Some q \<longrightarrow> anc m q target"
    using IH.prems(2) by (auto simp: fork_below_def)
  show ?case
  proof (cases "h = int (nHeight bt)")
    case True
    then show ?thesis
      using bt hb(2) IH.prems(1) by (subst connect_batches.simps) (simp add: run_result_def)
  next
    case False
    define nt where "nt = min (h + 32) (int (nHeight bt))"
    have nt: "h < nt" "nt \<le> int (nHeight bt)" "0 \<le> nt" using False hb(1,3) by (auto simp: nt_def)
    obtain q c where q: "up m (nHeight bt - nat nt) target = Some q" "m q = Some c" "nHeight c = nHeight bt - (nHeight bt - nat nt)"
      using up_total [OF wf bt, of "nHeight bt - nat nt"] by auto
    have qh: "int (nHeight c) = nt" "anc m q target" using q nt by (auto simp: anc_def)
    have anc_q: "GetAncestor m target nt = Some (Some q)" using GetAncestor_eq [OF wf bt, of nt] nt q(1) by simp
    have fb: "fork_below m (chain_Tip (m_chain st)) h q"
      using IH.prems(2) qh nt(1) anc_between [OF wf bt _ qh(2) _ q(2)] by (auto simp: fork_below_def split: option.splits)
    obtain ds where ds: "collect_blocks m h (Some q) [] = Some ds" "linked_from m (chain_Tip (m_chain st)) (rev ds)"
      "\<forall>p \<in> set ds. anc m p q" "if ds = [] then chain_Tip (m_chain st) = Some q else hd ds = q"
      using collect_blocks_correct [OF wf q(2) fb, of "[]"] by auto
    have "ds \<noteq> []" using ds(4) fb qh(1) nt(1) q(2) by (auto simp: fork_below_def)
    then have last: "rev ds \<noteq> []" "last (rev ds) = q" using ds(4) by (simp_all add: last_rev)
    have "\<forall>p \<in> set (rev ds). anc m p target" using ds(3) anc_trans [OF _ qh(2)] by auto
    from connect_tips_correct [OF env copy old IH.prems(1) ds(2) this tip, of fl] last
    obtain outcome st1 where r: "connect_tips env m fl target pblock old (rev ds) st = Some (outcome, st1)"
      "run_result env m fl old target (Some q) outcome st1"
      by auto
    have eq: "connect_batches env m fl target pblock old h st =
        (if outcome = CONNECT_CONTINUE then connect_batches env m fl target pblock old nt st1 else Some (outcome, st1))"
      using bt False anc_q ds(1) r(1) by (subst connect_batches.simps) (simp add: nt_def Let_def)
    show ?thesis
    proof (cases "outcome = CONNECT_CONTINUE")
      case True
      then have "state_ok env m st1" "chain_Tip (m_chain st1) = Some q" using r(2) by (auto simp: run_result_def)
      moreover have "fork_below m (Some q) nt target" using q(2) qh by (simp add: fork_below_def)
      ultimately show ?thesis using IH.hyps [of nt st1] nt(1,2) eq True by simp
    next
      case False
      then show ?thesis using eq r(2) by (auto simp: run_result_def)
    qed
  qed
qed

section \<open>One step of a reorganization\<close>

lemma common_root:
  assumes "env_ok env m" "m p = Some a" "m t = Some b"
  shows "\<exists>g. common m p t g"
proof -
  note wf = env_okD(1) [OF assms(1)]
  obtain g c where g: "up m (nHeight a) p = Some g" "m g = Some c" "nHeight c = 0" using up_total [OF wf assms(2), of "nHeight a"] by auto
  obtain g' c' where g': "up m (nHeight b) t = Some g'" "m g' = Some c'" "nHeight c' = 0" using up_total [OF wf assms(3), of "nHeight b"] by auto
  have "g = g'" using env_okD(4) [OF assms(1)] g(2) g'(2) wf_root(1) [OF wf g(2,3)] wf_root(1) [OF wf g'(2,3)] by metis
  then show ?thesis using g(1) g'(1) by (auto simp: common_def anc_def)
qed

lemma ActivateBestChainStep_correct:
  assumes env: "env_ok env m" and st: "state_ok env m st" and bt: "m target = Some bt"
    and copy: "\<forall>block. pblock = Some block \<longrightarrow> copy_of env target block"
  shows "\<exists>ok invalid st'. ActivateBestChainStep env m fl target pblock st = Some (ok, invalid, st') \<and>
    (ok \<longrightarrow> state_ok env m st' \<and> (\<forall>q. chain_Tip (m_chain st') = Some q \<longrightarrow> anc m q target)) \<and>
    (ok \<and> \<not> invalid \<longrightarrow> chain_Tip (m_chain st') = Some target \<or>
      better_tip m (chain_Tip (m_chain st)) (chain_Tip (m_chain st')) = Some True) \<and>
    (disk_ok fl \<and> (\<forall>p. anc m p target \<longrightarrow> readable env p) \<longrightarrow> ok)"
proof -
  let ?old = "chain_Tip (m_chain st)"
  note wf = env_okD(1) [OF env]
  have old: "?old = None \<or> (\<exists>o'. ?old = Some o' \<and> m o' \<noteq> None)" using state_okD(5) [OF st] by (cases ?old) auto
  obtain fork ok st1 where d: "FindFork m (m_chain st) target = Some fork" "disconnect_tips env m fl fork st = Some (ok, st1)"
    "ok \<longrightarrow> state_ok env m st1 \<and> chain_Tip (m_chain st1) = fork" "disk_ok fl \<longrightarrow> ok"
    "fork \<noteq> None \<longrightarrow> (\<exists>f b. fork = Some f \<and> m f = Some b \<and> anc m f target)"
  proof (cases ?old)
    case None
    have "find_fork_loop m [] None = Some None" by (subst find_fork_loop.simps) simp
    then have "FindFork m (m_chain st) target = Some None"
      using state_okD(4) [OF st None] bt GetAncestor_eq [OF wf bt, of "- 1"] by (simp add: FindFork_def chain_Height_def)
    moreover have "disconnect_tips env m fl None st = Some (True, st)" using None by (subst disconnect_tips.simps) simp
    ultimately show ?thesis using that st None by simp
  next
    case (Some t)
    obtain b where b: "m t = Some b" "m_chain st = path_to m t b" using state_okD(5) [OF st Some] by blast
    obtain fork where fork: "FindFork m (m_chain st) target = Some fork" "last_common m target t fork"
      using FindFork_spec [OF wf b(1) bt] b(2) by metis
    obtain f where f: "fork = Some f" "anc m f target" "anc m f t"
      using fork(2) common_root [OF env bt b(1)] by (cases fork) (auto simp: last_common_def common_def)
    obtain n where "up m n t = Some f" using f(3) by (auto simp: anc_def)
    then obtain c where "m f = Some c" using up_height [OF wf b(1)] by metis
    then show ?thesis
      using that [OF fork(1)] disconnect_tips_correct [OF env st Some b(1) f(3), of fl] f(1,2) by auto
  qed
  show ?thesis
  proof (cases ok)
    case False
    then have "ActivateBestChainStep env m fl target pblock st = Some (False, False, st1)"
      using d(1,2) by (simp add: ActivateBestChainStep_def Let_def)
    then show ?thesis using d(4) False by blast
  next
    case True
    obtain h where h: "(case fork of None \<Rightarrow> Some (- 1) | Some f \<Rightarrow> map_option (\<lambda>b. int (nHeight b)) (m f)) = Some h"
      "fork_below m fork h target"
      using d(5) by (cases fork) (auto simp: fork_below_def)
    have "fork_below m (chain_Tip (m_chain st1)) h target" using h(2) d(3) True by simp
    then obtain outcome st2 where r: "connect_batches env m fl target pblock ?old h st1 = Some (outcome, st2)"
      "run_result env m fl ?old target (Some target) outcome st2"
      using connect_batches_correct [OF env copy old bt, of st1 h fl] d(3) True by blast
    have "ActivateBestChainStep env m fl target pblock st = Some (outcome \<noteq> CONNECT_ERROR, outcome = CONNECT_INVALID, st2)"
      using d(1,2) True h(1) r(1) by (simp add: ActivateBestChainStep_def Let_def)
    then show ?thesis using r(2) by (cases outcome) (auto simp: run_result_def)
  qed
qed

end
