(* ===== verification/Consensus.thy ===== *)
theory Consensus
  imports Reorg
begin

text \<open>
  The chainstates a node can reach: it starts with an empty chain and an empty database, takes steps towards any block of the index, in any
  order, and writes its coins to disk at any time. What holds of all of them are the properties of this theory.
  The index is fixed along such a run: it stands for all blocks the node will ever know.
\<close>

inductive reachable :: "chain_env \<Rightarrow> block_map \<Rightarrow> Chainstate \<Rightarrow> bool" for env m where
  reachable_start: "db_inv db \<Longrightarrow> db_coins db = Map.empty \<Longrightarrow> DB_GetBestBlock db = uint256_null \<Longrightarrow>
    reachable env m \<lparr>m_chain = [], CoinsTip = new_cache False db, undo_data = Map.empty\<rparr>"
| reachable_step: "reachable env m st \<Longrightarrow> m target = Some b \<Longrightarrow> (\<forall>block. pblock = Some block \<longrightarrow> copy_of env target block) \<Longrightarrow>
    ActivateBestChainStep env m fl target pblock st = Some (True, invalid, st') \<Longrightarrow> reachable env m st'"
| reachable_flush: "reachable env m st \<Longrightarrow> FlushStateToDisk (coins_base env) mode fl (CoinsTip st) = Some (ok, tip) \<Longrightarrow>
    reachable env m (st\<lparr>CoinsTip := tip\<rparr>)"

lemma reachable_state_ok:
  assumes "env_ok env m"
  shows "reachable env m st \<Longrightarrow> state_ok env m st"
proof (induction rule: reachable.induct)
  case (reachable_start db)
  then show ?case
    using coins_db.inv_new_cache [of db False] coins_db.abs_new_cache [of False db] by (simp add: state_ok_def tip_ok_def undo_ok_def)
next
  case (reachable_step st target b pblock fl invalid st')
  show ?case
    using ActivateBestChainStep_correct [OF assms reachable_step.IH reachable_step.hyps(2,3), of fl] reachable_step.hyps(4) by auto
next
  case (reachable_flush st mode fl ok tip)
  have "tip_inv tip" "tip_utxo tip = tip_utxo (CoinsTip st)" "tip_best tip = tip_best (CoinsTip st)"
    using FlushStateToDisk_correct [OF state_okD(1) [OF reachable_flush.IH], of "ApproximateSize env" "batch_write_bytes env" mode fl]
      reachable_flush.hyps(2) by auto
  then show ?case using reachable_flush.IH by (auto simp: state_ok_def tip_ok_def split: option.splits)
qed

lemma ledger_supply:
  assumes "block_map_wf m"
  shows "ledger env m bh u \<Longrightarrow> \<exists>b. m bh = Some b \<and> total_value u \<le> (\<Sum>k\<le>nHeight b. GetTKNCBlockSubsidy (int k))"
proof (induction rule: ledger.induct)
  case (ledger_genesis g b)
  then have "nHeight b = 0" using block_map_wfD [OF assms, of g b] by (auto simp: entry_wf_def)
  then show ?case using ledger_genesis by (simp add: total_value_def Subsidy_outside_period)
next
  case (ledger_block p u bh b block u')
  then obtain c where "m p = Some c" "total_value u \<le> (\<Sum>k\<le>nHeight c. GetTKNCBlockSubsidy (int k))" by blast
  moreover have "nHeight b = Suc (nHeight c)"
    using block_map_wfD [OF assms ledger_block.hyps(2)] ledger_block.hyps(3) \<open>m p = Some c\<close> by (auto simp: entry_wf_def)
  ultimately show ?case using ledger_block.hyps(2,9) by (auto simp: GetBlockSubsidy_def)
qed

lemma utxo_ok_total: "utxo_ok h u \<Longrightarrow> 0 \<le> total_value u"
  unfolding total_value_def by (rule sum_nonneg) (auto simp: utxo_ok_def MoneyRange_def)

section \<open>An example\<close>

declare find_fork_loop.simps [code] set_tip_loop.simps [code] disconnect_tips.simps [code] collect_blocks.simps [code] connect_batches.simps [code]

lemma subsidy_code [code]:
  "GetTKNCBlockSubsidy h = (if 0 < h \<and> h < 2365200
     then decay TKNC_EMISSION_DIVISOR (nat h) (TKNC_TOTAL_SUPPLY * COIN) div TKNC_EMISSION_DIVISOR else 0)"
proof (cases "0 < h \<and> h < 2365200")
  case True
  then show ?thesis using Subsidy_in_period [of h] by (simp add: supply_after_def)
next
  case False
  then have "h \<le> 0 \<or> 2365200 \<le> h" by auto
  then show ?thesis using False Subsidy_outside_period [of h] by auto
qed

definition example_coinbase :: "32 word \<Rightarrow> CTransaction" where
  "example_coinbase lock = \<lparr>vin = [\<lparr>prevout = \<lparr>op_hash = replicate 32 0, op_n = 0xffffffff\<rparr>, scriptSig = [1, 2], nSequence = 0, scriptWitness = []\<rparr>],
     vout = [\<lparr>nValue = 90, scriptPubKey = [0x51]\<rparr>, \<lparr>nValue = 10, scriptPubKey = [0x52]\<rparr>], version = 1, nLockTime = lock\<rparr>"

definition example_block :: "32 word \<Rightarrow> CBlock" where
  "example_block n = \<lparr>header = \<lparr>hdr_nVersion = 1, hdr_hashPrevBlock = [0], hdr_hashMerkleRoot = replicate 32 5, hdr_nTime = 100,
     hdr_nBits = 0x1d00ffff, hdr_nNonce = n\<rparr>, vtx = [example_coinbase n], fChecked = True, m_checked_merkle_root = False\<rparr>"

definition example_hashes :: block_hashes where
  "example_hashes = \<lparr>bh_Hash = (\<lambda>_. replicate 32 5), bh_pair = (\<lambda>a b. a), bh_header = (\<lambda>hdr. [ucast (hdr_nNonce hdr)]), bh_work = (\<lambda>_. replicate 32 0)\<rparr>"

definition example_env :: chain_env where
  "example_env = \<lparr>hashes = example_hashes, consensus = main_params [1], teamScript = [0x52],
     rules = (\<lambda>_. \<lparr>nLockTimeFlags = 0, verify_p2sh = True, verify_witness = True, fScriptChecks = True, script_cached = (\<lambda>_. False), script_checks = (\<lambda>_ _. None)\<rparr>),
     ReadBlock = [[1] \<mapsto> example_block 1, [2] \<mapsto> example_block 2], ApproximateSize = length, batch_write_bytes = 1000\<rparr>"

definition example_flush :: flush_env where
  "example_flush = \<lparr>cacheSize = 0, nMempoolUsage = 0, max_coins_cache_size = 1000, max_mempool_size = 0, write_due = False,
     fFlushForPrune = False, blocks_space = True, CheckDiskSpace = (\<lambda>_. True)\<rparr>"

definition example_start :: Chainstate where
  "example_start = \<lparr>m_chain = [], CoinsTip = new_cache False \<lparr>db_coins = Map.empty, db_best_block = None, db_head_blocks = None\<rparr>, undo_data = Map.empty\<rparr>"

abbreviation example_step :: "uint256 \<Rightarrow> Chainstate \<Rightarrow> (bool \<times> bool \<times> Chainstate) option" where
  "example_step target \<equiv> ActivateBestChainStep example_env example_map (\<lambda>_. example_flush) target None"

text \<open>Connecting the genesis block, then block 1, then going back to the genesis block.\<close>

definition after :: "(bool \<times> bool \<times> Chainstate) option \<Rightarrow> Chainstate" where
  "after r = snd (snd (the r))"

definition succeeds :: "(bool \<times> bool \<times> Chainstate) option \<Rightarrow> bool" where
  "succeeds r = (case r of None \<Rightarrow> False | Some (ok, invalid, _) \<Rightarrow> ok \<and> \<not> invalid)"

definition example_1 :: Chainstate where "example_1 = after (example_step [1] example_start)"

definition example_2 :: Chainstate where "example_2 = after (example_step [2] example_1)"

definition example_3 :: Chainstate where "example_3 = after (example_step [1] example_2)"

lemma succeedsD: "succeeds r \<Longrightarrow> r = Some (True, False, after r)"
  by (auto simp: succeeds_def after_def split: option.splits)

lemma example_steps:
  "succeeds (example_step [1] example_start)" "succeeds (example_step [2] example_1)" "succeeds (example_step [1] example_2)"
  by code_simp+

lemma example_chains:
  "m_chain example_1 = [Some [1]]" "m_chain example_2 = [Some [1], Some [2]]" "m_chain example_3 = [Some [1]]"
  by code_simp+

lemma example_coin:
  "map_option (\<lambda>x. nValue (coin_out x)) (tip_utxo (CoinsTip example_2) \<lparr>op_hash = replicate 32 5, op_n = 0\<rparr>) = Some 90"
  by code_simp

lemma example_no_coin: "tip_utxo (CoinsTip example_1) \<lparr>op_hash = replicate 32 5, op_n = 0\<rparr> = None"
  by code_simp

lemma example_pow:
  "CheckProofOfWork False (bh_header example_hashes) (bh_work example_hashes) (header (example_block n)) (main_params [1])"
proof (cases "bh_header example_hashes (header (example_block n)) = [1]")
  case True
  then show ?thesis by (simp add: CheckProofOfWork_def main_params_def)
next
  case False
  have wf: "uint256_wf (powLimit (main_params [1]))" "uint256_wf (replicate 32 0)"
    by (simp_all add: main_params_def main_powLimit_def uint256_wf_def)
  obtain t where t: "SetCompact 0x1d00ffff = (t, False, False)" "val t = 0xffff * 2 ^ 208"
    using SetCompact_join [of "0x1d00ffff" "0xffff" 29] by auto
  have L: "le_val (powLimit (main_params [1])) = 2 ^ 255 - 1"
    using val_main_powLimit val_UintToArith256 [OF wf(1)] by (simp add: main_params_def del: power_numeral)
  have Z: "le_val (replicate k 0) = 0" for k by (induction k) simp_all
  have hdr: "hdr_nBits (header (example_block n)) = 0x1d00ffff" "hdr_nTime (header (example_block n)) = 100"
    "bh_work example_hashes = (\<lambda>_. replicate 32 0)"
    by (simp_all add: example_block_def example_hashes_def)
  show ?thesis
    using CheckProofOfWork_iff [of "bh_header example_hashes" "header (example_block n)" "main_params [1]" "bh_work example_hashes" t False False]
      False wf t L Z hdr by (simp add: main_params_def)
qed

lemma example_coinbase_check: "CheckTransaction (example_coinbase n) = Inr ()"
proof -
  have "length (SerializeTransaction False (example_coinbase n)) \<le> 200"
    by (simp add: example_coinbase_def SerializeTransaction_def ser_vector_def WriteCompactSize_def ser_txin_def ser_txout_def
        ser_outpoint_def ser_uint256_def ser_byte_vector_def ser_writedata32_def ser_writedata8_def ser_i64_def
        ser_writedata64_def)
  then show ?thesis
    by (simp add: CheckTransaction_def example_coinbase_def WITNESS_SCALE_FACTOR_def MAX_BLOCK_WEIGHT_def MoneyRange_def
        MAX_MONEY_def COIN_def IsCoinBase_def OutPoint_IsNull_def IsNull_def NULL_INDEX_def list_all_iff)
qed

lemma example_block_ok: "transactions_ok (vtx (example_block n))" "merkle_ok example_hashes (example_block n)"
proof -
  show "transactions_ok (vtx (example_block n))"
    using example_coinbase_check [of n]
    by (simp add: transactions_ok_def example_block_def example_coinbase_def IsCoinBase_def OutPoint_IsNull_def IsNull_def NULL_INDEX_def list_all_iff)
  show "merkle_ok example_hashes (example_block n)"
    by (simp add: merkle_ok_def example_block_def example_hashes_def BlockMerkleRoot_def ComputeMerkleRoot_def GetTxid_def merkle_loop.simps)
qed

lemma example_env_ok: "env_ok example_env example_map"
proof -
  have dom: "bh \<in> {[1], [2], [3], [4]}" if "example_map bh = Some b" for bh b
    using that by (auto simp: example_map_def Let_def split: if_splits)
  have tree: "\<not> IsNull bh \<and> int (nHeight b) < 2 ^ 31 \<and> \<not> IsBIP30Repeat (int (nHeight b)) bh \<and>
      (bh = hashGenesisBlock (consensus example_env) \<longleftrightarrow> pprev b = None)" if "example_map bh = Some b" for bh b
    using dom [OF that] that example_map_entries
    by (auto simp: IsNull_def IsBIP30Repeat_def example_env_def main_params_def)
  have "flags_sound example_hashes (main_params [1]) (example_block n)" for n
    using example_pow [of n] example_block_ok [of n] by (simp add: flags_sound_def)
  then show ?thesis
    using index_inv_wf [OF example_map_inv] tree
    by (auto simp: env_ok_def example_env_def txids_def example_block_def example_hashes_def split: if_splits)
qed

lemma example_reachable:
  "reachable example_env example_map example_1" "reachable example_env example_map example_2" "reachable example_env example_map example_3"
proof -
  obtain b1 b2 where b: "example_map [1] = Some b1" "example_map [2] = Some b2" using example_map_entries by auto
  have "reachable example_env example_map example_start"
    unfolding example_start_def by (rule reachable_start) (simp_all add: db_inv_def DB_GetBestBlock_def uint256_null_def)
  then show r1: "reachable example_env example_map example_1"
    by (rule reachable_step [OF _ b(1) _ succeedsD [OF example_steps(1), folded example_1_def]]) simp
  then show r2: "reachable example_env example_map example_2"
    by (rule reachable_step [OF _ b(2) _ succeedsD [OF example_steps(2), folded example_2_def]]) simp
  then show "reachable example_env example_map example_3"
    by (rule reachable_step [OF _ b(1) _ succeedsD [OF example_steps(3), folded example_3_def]]) simp
qed

lemma example_readable:
  assumes "anc example_map p [2]"
  shows "readable example_env p"
proof -
  have m: "merkle_ok example_hashes (example_block n)" for n by (rule example_block_ok)
  obtain c where c: "example_map [2] = Some c" "pprev c = Some [1]" using example_map_entries by auto
  obtain a where a: "example_map [1] = Some a" "pprev a = None" using example_map_entries by auto
  have "p = [2] \<or> p = [1]"
    using anc_cases [where m = example_map and x = p, OF c(1) assms] anc_cases [where m = example_map and p = "[1]" and x = p, OF a(1)] a(2) c(2) by auto
  then show ?thesis using m by (auto simp: readable_def example_env_def)
qed

section \<open>Properties\<close>

text \<open>
  C37. No sequence of steps creates money: in every chainstate that a node reaches, by connecting and disconnecting blocks in whatever order
  and writing to disk at whatever time, the unspent outputs together are worth at most the subsidies of the blocks up to the tip, and
  hence at most \<open>MAX_MONEY\<close>.
  The blocks and the index are assumed to be as \<open>env_ok\<close> says: a well-formed tree, blocks read back from disk as they are, no block with two
  transactions of the same identifier, and pay-to-script-hash enforced. A step that fails, for lack of disk space or for an unreadable block, is
  fatal and ends the run.
\<close>

theorem supply_capped:
  assumes "env_ok env m" "reachable env m st"
  shows "total_value (tip_utxo (CoinsTip st)) \<le> (\<Sum>k\<le>nat (chain_Height (m_chain st)). GetTKNCBlockSubsidy (int k)) \<and>
    MoneyRange (total_value (tip_utxo (CoinsTip st)))"
proof -
  note st = reachable_state_ok [OF assms]
  let ?u = "tip_utxo (CoinsTip st)" and ?sum = "\<lambda>n. \<Sum>k\<le>n. GetTKNCBlockSubsidy (int k)"
  have "0 \<le> total_value ?u \<and> total_value ?u \<le> ?sum (nat (chain_Height (m_chain st)))"
  proof (cases "chain_Tip (m_chain st)")
    case None
    then show ?thesis using state_okD(4) [OF st None] by (simp add: total_value_def chain_Height_def Subsidy_outside_period)
  next
    case (Some t)
    obtain b where b: "m t = Some b" "m_chain st = path_to m t b" "ledger env m t ?u" using state_okD(5) [OF st Some] by blast
    have "total_value ?u \<le> ?sum (nHeight b)" using ledger_supply [OF env_okD(1) [OF assms(1)] b(3)] b(1) by auto
    moreover have "0 \<le> total_value ?u" using ledger_ok [OF b(3)] utxo_ok_total by blast
    ultimately show ?thesis using b(2) by (simp add: chain_Height_def)
  qed
  then show ?thesis using Subsidy_sum_range [of "nat (chain_Height (m_chain st))"] by (auto simp: MoneyRange_def)
qed

theorem supply_capped_witness:
  "tip_utxo (CoinsTip example_2) \<noteq> Map.empty \<and> total_value (tip_utxo (CoinsTip example_2)) \<le> 333332222222"
proof -
  have "GetTKNCBlockSubsidy 1 = 333332222222" by code_simp
  then have "total_value (tip_utxo (CoinsTip example_2)) \<le> 333332222222"
    using supply_capped [OF example_env_ok example_reachable(2)] by (simp add: example_chains chain_Height_def Subsidy_outside_period)
  then show ?thesis using example_coin by auto
qed

text \<open>
  C38. The coins depend on the tip alone: two chainstates that a node reaches with the same tip have the same active chain, the same
  unspent outputs and the same best block, whichever blocks were connected and disconnected on the way. In particular a reorganization that
  is undone leaves no trace. The assumptions are those of C37.
\<close>

theorem tip_determines_coins:
  assumes "env_ok env m" "reachable env m st" "reachable env m st'" "chain_Tip (m_chain st) = chain_Tip (m_chain st')"
  shows "m_chain st = m_chain st' \<and> tip_utxo (CoinsTip st) = tip_utxo (CoinsTip st') \<and> tip_best (CoinsTip st) = tip_best (CoinsTip st')"
proof -
  note ok = reachable_state_ok [OF assms(1,2)] reachable_state_ok [OF assms(1,3)]
  show ?thesis
  proof (cases "chain_Tip (m_chain st)")
    case None
    then show ?thesis using state_okD(4) [OF ok(1)] state_okD(4) [OF ok(2)] assms(4) by simp
  next
    case (Some t)
    obtain b where b: "m t = Some b" "m_chain st = path_to m t b" "tip_best (CoinsTip st) = t" "ledger env m t (tip_utxo (CoinsTip st))"
      using state_okD(5) [OF ok(1) Some] by blast
    obtain c where c: "m t = Some c" "m_chain st' = path_to m t c" "tip_best (CoinsTip st') = t" "ledger env m t (tip_utxo (CoinsTip st'))"
      using state_okD(5) [OF ok(2)] Some assms(4) by metis
    show ?thesis using b c ledger_unique [OF b(4) c(4)] by simp
  qed
qed

theorem tip_determines_coins_witness:
  "tip_utxo (CoinsTip example_3) = tip_utxo (CoinsTip example_1) \<and> tip_best (CoinsTip example_3) = tip_best (CoinsTip example_1) \<and>
   tip_utxo (CoinsTip example_2) \<noteq> tip_utxo (CoinsTip example_1)"
proof -
  have "chain_Tip (m_chain example_3) = chain_Tip (m_chain example_1)" by (simp add: example_chains)
  from tip_determines_coins [OF example_env_ok example_reachable(3,1) this]
  have "tip_utxo (CoinsTip example_3) = tip_utxo (CoinsTip example_1)" "tip_best (CoinsTip example_3) = tip_best (CoinsTip example_1)" by blast+
  moreover have "tip_utxo (CoinsTip example_2) \<noteq> tip_utxo (CoinsTip example_1)" using example_coin example_no_coin by auto
  ultimately show ?thesis by blast
qed

text \<open>
  C39. A step towards a block always ends, and never in a failed assertion. When it succeeds, the new tip is an ancestor of that block or the block
  itself (or there is still no chain), and unless an invalid block was found, it is the block itself or has more work than the old tip. It does succeed
  when the disk has room and the blocks up to the target can be read uncorrupted. The assumptions are those of C37, and that a block passed in from
  memory is a copy of the one on disk.
\<close>

theorem activate_best_chain_progress:
  assumes "env_ok env m" "reachable env m st" "m target = Some b" "\<forall>block. pblock = Some block \<longrightarrow> copy_of env target block"
  shows "\<exists>ok invalid st'. ActivateBestChainStep env m fl target pblock st = Some (ok, invalid, st') \<and>
    (ok \<longrightarrow> (\<forall>q. chain_Tip (m_chain st') = Some q \<longrightarrow> anc m q target)) \<and>
    (ok \<and> \<not> invalid \<longrightarrow> chain_Tip (m_chain st') = Some target \<or>
      better_tip m (chain_Tip (m_chain st)) (chain_Tip (m_chain st')) = Some True) \<and>
    (disk_ok fl \<and> (\<forall>p. anc m p target \<longrightarrow> readable env p) \<longrightarrow> ok)"
  using ActivateBestChainStep_correct [OF assms(1) reachable_state_ok [OF assms(1,2)] assms(3,4), of fl] by blast

theorem activate_best_chain_progress_witness:
  "\<exists>invalid st. example_step [2] example_1 = Some (True, invalid, st)"
proof -
  obtain b where b: "example_map [2] = Some b" using example_map_entries by auto
  have "disk_ok (\<lambda>_. example_flush) \<and> (\<forall>p. anc example_map p [2] \<longrightarrow> readable example_env p)"
    using example_readable by (simp add: disk_ok_def example_flush_def)
  then show ?thesis
    using activate_best_chain_progress [OF example_env_ok example_reachable(1) b, of None "\<lambda>_. example_flush"] by auto
qed

text \<open>
  C40. The coinbase that the block template builds passes the reward check: with the two outputs of \<open>CreateNewBlock\<close>, and outputs of no value
  after them (such as the witness commitment), its total is the fees and the subsidy, the share of the team is accepted, and the product
  by which it is computed fits into 64 bits.
\<close>

theorem template_coinbase_accepted:
  assumes "MoneyRange (nFees + GetBlockSubsidy h)" "vout coinbase = coinbase_outputs miner team nFees h @ outs"
    "\<forall>out \<in> set outs. nValue out = 0"
  shows "GetValueOut coinbase = Some (nFees + GetBlockSubsidy h) \<and> CheckReward team h nFees coinbase = Some None \<and>
    (nFees + GetBlockSubsidy h) * TKNC_TEAM_SHARE_PERCENT < 2 ^ 63"
proof -
  let ?R = "nFees + GetBlockSubsidy h"
  have R: "0 \<le> ?R" "?R \<le> MAX_MONEY" using assms(1) by (simp_all add: MoneyRange_def)
  let ?team = "(?R * TKNC_TEAM_SHARE_PERCENT) sdiv 100"
  have team: "?team = ?R div 10" using R(1) by (simp add: TKNC_TEAM_SHARE_PERCENT_def sdiv_nonneg)
  then have tr: "0 \<le> ?team" "?team \<le> ?R" using R(1) by simp_all
  have vout: "vout coinbase = \<lparr>nValue = ?R - ?team, scriptPubKey = miner\<rparr> # \<lparr>nValue = ?team, scriptPubKey = team\<rparr> # outs"
    using assms(2) by (simp add: coinbase_outputs_def Let_def)
  have zero: "sum_list (map nValue outs) = 0" "list_all (\<lambda>out. MoneyRange (nValue out)) outs"
    using assms(3) by (induction outs) auto
  have total: "GetValueOut coinbase = Some ?R"
    using R tr zero by (simp add: GetValueOut_eq vout MoneyRange_def)
  have "CheckReward team h nFees coinbase = Some None"
    unfolding CheckReward_def total by (simp add: vout Let_def)
  then show ?thesis using total R(2) by (simp add: TKNC_TEAM_SHARE_PERCENT_def MAX_MONEY_def COIN_def)
qed

theorem template_coinbase_accepted_witness:
  "CheckReward [0x52] 1 50 (example_coinbase 1\<lparr>vout := coinbase_outputs [0x51] [0x52] 50 1 @ [\<lparr>nValue = 0, scriptPubKey = [0x6a]\<rparr>]\<rparr>) = Some None"
proof -
  have r: "GetBlockSubsidy 1 = 333332222222" by code_simp
  let ?commitment = "\<lparr>nValue = 0, scriptPubKey = [0x6a]\<rparr> :: CTxOut"
  have "MoneyRange (50 + GetBlockSubsidy 1)" "\<forall>out \<in> set [?commitment]. nValue out = 0"
    "vout (example_coinbase 1\<lparr>vout := coinbase_outputs [0x51] [0x52] 50 1 @ [?commitment]\<rparr>) = coinbase_outputs [0x51] [0x52] 50 1 @ [?commitment]"
    by (simp_all add: r MoneyRange_def MAX_MONEY_def COIN_def)
  from template_coinbase_accepted [OF this(1,3,2)] show ?thesis by blast
qed

end
