(* ===== verification/Format.thy ===== *)
theory Format
  imports Prelude
begin

unbundle bit_operations_syntax

text \<open>
  Format strings (\<open>util/string.h\<close>) and bilingual messages (\<open>util/translation.h\<close>). A C string is the list
  of its characters, so reading the terminating zero is reading the end of the list. What the source
  throws is a value of \<open>fmt_error\<close>.
\<close>

datatype fmt_error = Position_Below_One | Bad_End | Mixed_Specifiers | Count_Mismatch

definition is_digit :: "char \<Rightarrow> bool" where
  "is_digit c \<longleftrightarrow> 48 \<le> (of_char c :: nat) \<and> (of_char c :: nat) \<le> 57"

text \<open>\<open>maybe_num\<close> is an \<open>unsigned\<close>: it wraps at \<open>2 ^ 32\<close>.\<close>

fun take_num :: "nat \<Rightarrow> string \<Rightarrow> nat \<times> string" where
  "take_num maybe_num [] = (maybe_num, [])"
| "take_num maybe_num (c # it) =
     (if is_digit c then take_num ((maybe_num * 10 + (of_char c - 48)) mod 2 ^ 32) it else (maybe_num, c # it))"

fun skip_digits :: "string \<Rightarrow> string" where
  "skip_digits [] = []"
| "skip_digits (c # it) = (if is_digit c then skip_digits it else c # it)"

definition is_flag :: "char \<Rightarrow> bool" where
  "is_flag c \<longleftrightarrow> c = CHR ''#'' \<or> c = CHR ''0'' \<or> c = CHR ''-'' \<or> c = CHR '' '' \<or> c = CHR ''+''"

fun skip_flags :: "string \<Rightarrow> string" where
  "skip_flags [] = []"
| "skip_flags (c # it) = (if is_flag c then skip_flags it else c # it)"

text \<open>The counters are the number of normal specifiers and the greatest position.\<close>

type_synonym fmt_counts = "nat \<times> nat"

definition add_arg :: "fmt_counts \<Rightarrow> string \<Rightarrow> (fmt_counts \<times> string) option" where
  "add_arg counts it =
     (let (maybe_num, it) = take_num 0 it in
      if it \<noteq> [] \<and> hd it = CHR ''$'' then
        (if maybe_num = 0 then None else Some ((fst counts, max (snd counts) maybe_num), tl it))
      else Some ((fst counts + 1, snd counts), it))"

definition parse_size :: "fmt_counts \<Rightarrow> string \<Rightarrow> (fmt_counts \<times> string) option" where
  "parse_size counts it =
     (if it \<noteq> [] \<and> hd it = CHR ''*'' then add_arg counts (tl it) else Some (counts, skip_digits it))"

text \<open>One specifier, read from the character after its percent sign up to its type.\<close>

definition parse_specifier :: "fmt_counts \<Rightarrow> string \<Rightarrow> fmt_error + fmt_counts \<times> string" where
  "parse_specifier counts it = (case add_arg counts it of
     None \<Rightarrow> Inl Position_Below_One
   | Some (counts, it) \<Rightarrow> (case parse_size counts (skip_flags it) of
       None \<Rightarrow> Inl Position_Below_One
     | Some (counts, it) \<Rightarrow>
       (case (if it \<noteq> [] \<and> hd it = CHR ''.'' then parse_size counts (tl it) else Some (counts, it)) of
         None \<Rightarrow> Inl Position_Below_One
       | Some (counts, it) \<Rightarrow> if it = [] then Inl Bad_End else Inr (counts, it))))"

lemma length_take_num: "length (snd (take_num n it)) \<le> length it"
  by (induction it arbitrary: n) (auto simp: le_SucI)

lemma length_skips: "length (skip_digits it) \<le> length it" "length (skip_flags it) \<le> length it"
  by (induction it) auto

lemma length_add_arg:
  assumes "add_arg counts it = Some (counts', it')"
  shows "length it' \<le> length it"
  using assms length_take_num [of 0 it]
  by (auto simp: add_arg_def Let_def split: prod.splits if_splits)

lemma length_parse_size:
  assumes "parse_size counts it = Some (counts', it')"
  shows "length it' \<le> length it"
  using assms length_skips(1) [of it] length_add_arg [of counts "tl it" counts' it']
  by (auto simp: parse_size_def split: if_splits)

lemma length_parse_specifier:
  assumes "parse_specifier counts it = Inr (counts', it')"
  shows "length it' \<le> length it"
proof -
  obtain c1 i1 c2 i2 where 1: "add_arg counts it = Some (c1, i1)" "parse_size c1 (skip_flags i1) = Some (c2, i2)"
    and 2: "(if i2 \<noteq> [] \<and> hd i2 = CHR ''.'' then parse_size c2 (tl i2) else Some (c2, i2)) = Some (counts', it')"
    using assms by (auto simp: parse_specifier_def split: option.splits prod.splits if_splits)
  have "length it' \<le> length i2"
    using 2 length_parse_size [of c2 "tl i2" counts' it'] by (auto split: if_splits)
  then show ?thesis using length_add_arg [OF 1(1)] length_parse_size [OF 1(2)] length_skips(2) [of i1] by linarith
qed

function scan_format :: "fmt_counts \<Rightarrow> string \<Rightarrow> fmt_error + fmt_counts" where
  "scan_format counts [] = Inr counts"
| "scan_format counts (c # it) =
     (if c \<noteq> CHR ''%'' then scan_format counts it
      else if it \<noteq> [] \<and> hd it = CHR ''%'' then scan_format counts (tl it)
      else (case parse_specifier counts it of
          Inl e \<Rightarrow> Inl e
        | Inr (counts, it) \<Rightarrow> scan_format counts (tl it)))"
  by pat_completeness auto
termination
proof (relation "measure (length \<circ> snd)")
  fix counts :: fmt_counts and c :: char and it counts' it' and p :: "fmt_counts \<times> string"
  assume "parse_specifier counts it = Inr p" "(counts', it') = p"
  then show "((counts', tl it'), counts, c # it) \<in> measure (length \<circ> snd)"
    using length_parse_specifier [of counts it counts' it'] by auto
qed auto

definition count_specifiers :: "string \<Rightarrow> fmt_error + nat" where
  "count_specifiers str = (case scan_format (0, 0) str of
     Inl e \<Rightarrow> Inl e
   | Inr (count_normal, count_pos) \<Rightarrow>
       if count_normal \<noteq> 0 \<and> count_pos \<noteq> 0 then Inl Mixed_Specifiers else Inr (count_normal OR count_pos))"

definition CheckNumFormatSpecifiers :: "nat \<Rightarrow> string \<Rightarrow> fmt_error + unit" where
  "CheckNumFormatSpecifiers num_params str = (case count_specifiers str of
     Inl e \<Rightarrow> Inl e
   | Inr n \<Rightarrow> if num_params \<noteq> n then Inl Count_Mismatch else Inr ())"

section \<open>Bilingual messages\<close>

record bilingual_str =
  original :: string
  translated :: string

definition bilingual_append :: "bilingual_str \<Rightarrow> bilingual_str \<Rightarrow> bilingual_str" where
  "bilingual_append lhs rhs = \<lparr>original = original lhs @ original rhs, translated = translated lhs @ translated rhs\<rparr>"

definition bilingual_empty :: "bilingual_str \<Rightarrow> bool" where
  "bilingual_empty s \<longleftrightarrow> original s = []"

definition bilingual_clear :: "bilingual_str \<Rightarrow> bilingual_str" where
  "bilingual_clear s = s\<lparr>original := [], translated := []\<rparr>"

definition Untranslated :: "string \<Rightarrow> bilingual_str" where
  "Untranslated orig = \<lparr>original = orig, translated = orig\<rparr>"

text \<open>The translation function may be missing; then a literal stands for itself.\<close>

record TranslatedLiteral =
  lit_original :: string
  translate_fn :: "(string \<Rightarrow> string) option"

definition literal_string :: "TranslatedLiteral \<Rightarrow> string" where
  "literal_string lit = (case translate_fn lit of Some fn \<Rightarrow> fn (lit_original lit) | None \<Rightarrow> lit_original lit)"

definition literal_bilingual :: "TranslatedLiteral \<Rightarrow> bilingual_str" where
  "literal_bilingual lit = \<lparr>original = lit_original lit, translated = literal_string lit\<rparr>"

text \<open>
  Constructing a \<open>BilingualFmt\<close> checks the format string that was written in the program; the translated
  one reaches the formatter unchecked.
\<close>

definition BilingualFmt :: "nat \<Rightarrow> TranslatedLiteral \<Rightarrow> fmt_error + TranslatedLiteral" where
  "BilingualFmt num_params l = (case CheckNumFormatSpecifiers num_params (lit_original l) of
     Inl e \<Rightarrow> Inl e | Inr _ \<Rightarrow> Inr l)"

section \<open>Evaluation\<close>

text \<open>
  Scanning rules for the simplifier. The congruence rules keep it from walking through the rest of the
  text at every character; the eight skipping rules cover exactly the characters other than the percent
  sign, by the first bit in which they differ from it.
\<close>

lemma scan_format_cong: "c = c' \<Longrightarrow> scan_format c it = scan_format c' it"
  by simp

lemma scan_format_skip:
  "scan_format c (Char False b1 b2 b3 b4 b5 b6 b7 # it) = scan_format c it"
  "scan_format c (Char True True b2 b3 b4 b5 b6 b7 # it) = scan_format c it"
  "scan_format c (Char True False False b3 b4 b5 b6 b7 # it) = scan_format c it"
  "scan_format c (Char True False True True b4 b5 b6 b7 # it) = scan_format c it"
  "scan_format c (Char True False True False True b5 b6 b7 # it) = scan_format c it"
  "scan_format c (Char True False True False False False b6 b7 # it) = scan_format c it"
  "scan_format c (Char True False True False False True True b7 # it) = scan_format c it"
  "scan_format c (Char True False True False False True False True # it) = scan_format c it"
  by simp_all

definition plain_type :: "char \<Rightarrow> bool" where
  "plain_type c \<longleftrightarrow> \<not> is_digit c \<and> \<not> is_flag c \<and> c \<notin> {CHR ''*'', CHR ''.'', CHR ''$'', CHR ''%''}"

lemma scan_format_plain: "plain_type x \<Longrightarrow> scan_format (n, p) (CHR ''%'' # x # it) = scan_format (Suc n, p) it"
  by (simp add: plain_type_def parse_specifier_def add_arg_def parse_size_def)

lemma scan_format_positional:
  assumes "is_digit d" "d \<noteq> CHR ''0''" "plain_type x"
  shows "scan_format (n, p) (CHR ''%'' # d # CHR ''$'' # x # it) = scan_format (n, max p (of_char d - 48)) it"
proof -
  have "of_char CHR ''0'' = (48::nat)" by simp
  then have "(of_char d :: nat) \<noteq> 48" using assms(2) by (metis of_char_eq_iff)
  then have "0 < of_char d - (48::nat)" "of_char d - (48::nat) < 10" using assms(1) by (auto simp: is_digit_def)
  moreover have "d \<noteq> CHR ''%''" using assms(1) by (auto simp: is_digit_def)
  moreover have "\<not> is_digit CHR ''$''" by (simp add: is_digit_def)
  ultimately show ?thesis
    using assms by (simp add: plain_type_def parse_specifier_def add_arg_def parse_size_def)
qed

lemmas scan_format_eval = scan_format_skip scan_format_plain scan_format_positional plain_type_def is_digit_def
  is_flag_def scan_format.simps(1)

end
