(* ===== verification/Catalogue.thy ===== *)
theory Catalogue
  imports Format
begin

text \<open>
  Translation catalogues (\<open>qt/locale/tknc_*.ts\<close>): messages with their source text, the comments for the
  translator, whether they have numerus forms, whether they are unfinished, and their translations (one,
  or one for each numerus form). Text is its UTF-8 bytes. A catalogue is a list of contexts in file order;
  a long context is given in several pieces under the same name.

  The lookup is Qt's and a parameter of the model; \<open>translates_from\<close> states what its documentation
  promises.
\<close>

datatype ts_message =
  TS (ts_source: string) (ts_comment: string) (ts_extracomment: string) (ts_numerus: bool) (ts_unfinished: bool)
    (ts_translations: "string list")

type_synonym ts_context = "string \<times> ts_message list"

type_synonym ts_catalogue = "ts_context list"

text \<open>
  Qt's \<open>translate\<close> returns a non-empty translation of a message with that context and source text, or the
  source text itself.
\<close>

definition translates_from :: "ts_catalogue \<Rightarrow> (string \<Rightarrow> string \<Rightarrow> string) \<Rightarrow> bool" where
  "translates_from cat translate \<longleftrightarrow> (\<forall>ctx src. translate ctx src = src \<or>
     (\<exists>ms m. (ctx, ms) \<in> set cat \<and> m \<in> set ms \<and> ts_source m = src \<and>
       translate ctx src \<in> set (ts_translations m) \<and> translate ctx src \<noteq> []))"

definition core_context :: string where "core_context = ''tknc-core''"

definition G_TRANSLATION_FUN :: "(string \<Rightarrow> string \<Rightarrow> string) \<Rightarrow> string \<Rightarrow> string" where
  "G_TRANSLATION_FUN translate psz = translate core_context psz"

section \<open>What a translation must keep\<close>

text \<open>
  A message of the core is a format string for \<open>tinyformat\<close>: the translation needs the same number of
  parameters. A message of the GUI is filled in by \<open>QString::arg\<close>, which replaces the markers
  \<open>%1\<close> to \<open>%99\<close>: the translation needs the same markers.
\<close>

definition core_message_ok :: "ts_message \<Rightarrow> bool" where
  "core_message_ok m \<longleftrightarrow> list_all (\<lambda>t. t = [] \<or> count_specifiers t = count_specifiers (ts_source m)) (ts_translations m)"

function qt_markers :: "string \<Rightarrow> nat list" where
  "qt_markers [] = []"
| "qt_markers (c # it) =
     (if c \<noteq> CHR ''%'' then qt_markers it
      else let it' = (if it \<noteq> [] \<and> hd it = CHR ''L'' then tl it else it) in
        if it' = [] \<or> \<not> is_digit (hd it') then qt_markers it
        else if tl it' = [] \<or> \<not> is_digit (hd (tl it')) then (of_char (hd it') - 48) # qt_markers (tl it')
        else ((of_char (hd it') - 48) * 10 + (of_char (hd (tl it')) - 48)) # qt_markers (tl (tl it')))"
  by pat_completeness auto
termination
  by (relation "measure length") auto

definition same_markers :: "nat list \<Rightarrow> nat list \<Rightarrow> bool" where
  "same_markers xs ys \<longleftrightarrow> list_all (List.member ys) xs \<and> list_all (List.member xs) ys"

lemma same_markers_iff: "same_markers xs ys \<longleftrightarrow> set xs = set ys"
  by (auto simp: same_markers_def list_all_iff)

definition gui_message_ok :: "ts_message \<Rightarrow> bool" where
  "gui_message_ok m \<longleftrightarrow> list_all (\<lambda>t. t = [] \<or> same_markers (qt_markers t) (qt_markers (ts_source m))) (ts_translations m)"

text \<open>A message has one translation, a numerus message one for each of the forms of the language.\<close>

definition forms_ok :: "nat \<Rightarrow> ts_message \<Rightarrow> bool" where
  "forms_ok nforms m \<longleftrightarrow> length (ts_translations m) = (if ts_numerus m then nforms else 1)"

definition context_ok :: "nat \<Rightarrow> ts_context \<Rightarrow> bool" where
  "context_ok nforms c \<longleftrightarrow> list_all (forms_ok nforms) (snd c) \<and>
     (if fst c = core_context then list_all core_message_ok (snd c) else list_all gui_message_ok (snd c))"

definition catalogue_ok :: "nat \<Rightarrow> ts_catalogue \<Rightarrow> bool" where
  "catalogue_ok nforms cat \<longleftrightarrow> list_all (context_ok nforms) cat"

lemma catalogue_ok_append: "catalogue_ok n (xs @ ys) \<longleftrightarrow> catalogue_ok n xs \<and> catalogue_ok n ys"
  by (simp add: catalogue_ok_def)

section \<open>What follows for the program\<close>

lemma translation_core_ok:
  assumes "catalogue_ok n cat" "translates_from cat translate"
  shows "count_specifiers (G_TRANSLATION_FUN translate s) = count_specifiers s"
proof (cases "translate core_context s = s")
  case False
  then obtain ms m where m: "(core_context, ms) \<in> set cat" "m \<in> set ms" "ts_source m = s"
    "translate core_context s \<in> set (ts_translations m)" "translate core_context s \<noteq> []"
    using assms(2) unfolding translates_from_def by meson
  have "core_message_ok m" using assms(1) m(1,2) by (force simp: catalogue_ok_def context_ok_def list_all_iff)
  then show ?thesis using m(3-5) by (auto simp: core_message_ok_def list_all_iff G_TRANSLATION_FUN_def)
qed (simp add: G_TRANSLATION_FUN_def)

lemma translation_gui_ok:
  assumes "catalogue_ok n cat" "translates_from cat translate" "ctx \<noteq> core_context"
  shows "set (qt_markers (translate ctx s)) = set (qt_markers s)"
proof (cases "translate ctx s = s")
  case False
  then obtain ms m where m: "(ctx, ms) \<in> set cat" "m \<in> set ms" "ts_source m = s"
    "translate ctx s \<in> set (ts_translations m)" "translate ctx s \<noteq> []"
    using assms(2) unfolding translates_from_def by meson
  have "gui_message_ok m" using assms(1,3) m(1,2) by (force simp: catalogue_ok_def context_ok_def list_all_iff)
  then show ?thesis using m(3-5) by (auto simp: gui_message_ok_def list_all_iff same_markers_iff)
qed simp

text \<open>A lookup that behaves as documented: the first message that matches.\<close>

fun lookup_messages :: "string \<Rightarrow> ts_message list \<Rightarrow> string option" where
  "lookup_messages src [] = None"
| "lookup_messages src (m # ms) =
     (if ts_source m = src \<and> ts_translations m \<noteq> [] \<and> hd (ts_translations m) \<noteq> [] then Some (hd (ts_translations m))
      else lookup_messages src ms)"

fun lookup_translation :: "ts_catalogue \<Rightarrow> string \<Rightarrow> string \<Rightarrow> string" where
  "lookup_translation [] ctx src = src"
| "lookup_translation ((name, ms) # cat) ctx src =
     (case (if name = ctx then lookup_messages src ms else None) of
        Some t \<Rightarrow> t | None \<Rightarrow> lookup_translation cat ctx src)"

lemma lookup_messages_Some:
  "lookup_messages src ms = Some t \<Longrightarrow> \<exists>m. m \<in> set ms \<and> ts_source m = src \<and> t \<in> set (ts_translations m) \<and> t \<noteq> []"
  by (induction ms) (auto split: if_splits intro: hd_in_set)

lemma lookup_translates: "translates_from cat (lookup_translation cat)"
  unfolding translates_from_def
proof (intro allI)
  fix ctx src
  show "lookup_translation cat ctx src = src \<or>
     (\<exists>ms m. (ctx, ms) \<in> set cat \<and> m \<in> set ms \<and> ts_source m = src \<and>
       lookup_translation cat ctx src \<in> set (ts_translations m) \<and> lookup_translation cat ctx src \<noteq> [])"
  proof (induction cat)
    case (Cons c cat)
    obtain name ms where c: "c = (name, ms)" by fastforce
    show ?case
    proof (cases "if name = ctx then lookup_messages src ms else None")
      case None
      then have "lookup_translation (c # cat) ctx src = lookup_translation cat ctx src"
        unfolding c lookup_translation.simps(2) by (simp only: option.case)
      then show ?thesis using Cons.IH by auto
    next
      case (Some t)
      then have "lookup_translation (c # cat) ctx src = t"
        unfolding c lookup_translation.simps(2) by (simp only: option.case)
      moreover have "name = ctx" "lookup_messages src ms = Some t" using Some by (simp_all split: if_splits)
      ultimately show ?thesis using lookup_messages_Some [of src ms t] c by auto
    qed
  qed simp
qed

section \<open>Evaluation\<close>

lemma qt_markers_cong: "qt_markers it = qt_markers it"
  by simp

lemma qt_markers_skip:
  "qt_markers (Char False b1 b2 b3 b4 b5 b6 b7 # it) = qt_markers it"
  "qt_markers (Char True True b2 b3 b4 b5 b6 b7 # it) = qt_markers it"
  "qt_markers (Char True False False b3 b4 b5 b6 b7 # it) = qt_markers it"
  "qt_markers (Char True False True True b4 b5 b6 b7 # it) = qt_markers it"
  "qt_markers (Char True False True False True b5 b6 b7 # it) = qt_markers it"
  "qt_markers (Char True False True False False False b6 b7 # it) = qt_markers it"
  "qt_markers (Char True False True False False True True b7 # it) = qt_markers it"
  "qt_markers (Char True False True False False True False True # it) = qt_markers it"
  by simp_all

lemma is_digit_not_L: "is_digit d \<Longrightarrow> d \<noteq> CHR ''L''"
  by (auto simp: is_digit_def)

lemma qt_markers_digit:
  "is_digit d \<Longrightarrow> \<not> is_digit x \<Longrightarrow> qt_markers (CHR ''%'' # d # x # it) = (of_char d - 48) # qt_markers (x # it)"
  "is_digit d \<Longrightarrow> qt_markers [CHR ''%'', d] = [of_char d - 48]"
  by (simp_all add: qt_markers.simps(2) [of "CHR ''%''"] is_digit_not_L del: qt_markers.simps(2))

lemma qt_markers_other:
  "\<not> is_digit x \<Longrightarrow> x \<noteq> CHR ''L'' \<Longrightarrow> qt_markers (CHR ''%'' # x # it) = qt_markers (x # it)"
  "qt_markers [CHR ''%''] = []"
  by (simp_all add: qt_markers.simps(2) [of "CHR ''%''"] del: qt_markers.simps(2))

lemma list_all_cong_none: "list_all P xs = list_all P xs"
  by simp

lemma context_ok_pair:
  "context_ok n (name, ms) \<longleftrightarrow> list_all (forms_ok n) ms \<and>
    (if name = core_context then list_all core_message_ok ms else list_all gui_message_ok ms)"
  by (simp add: context_ok_def)

lemma message_ok_TS:
  "core_message_ok (TS src c x nu u ts) = list_all (\<lambda>t. t = [] \<or> count_specifiers t = count_specifiers src) ts"
  "gui_message_ok (TS src c x nu u ts) = list_all (\<lambda>t. t = [] \<or> same_markers (qt_markers t) (qt_markers src)) ts"
  "forms_ok n (TS src c x nu u ts) = (length ts = (if nu then n else 1))"
  by (simp_all add: core_message_ok_def gui_message_ok_def forms_ok_def)

lemma message_ok_cong: "core_message_ok m = core_message_ok m" "gui_message_ok m = gui_message_ok m"
  "forms_ok n m = forms_ok n m" "context_ok n c = context_ok n c"
  by simp_all

lemma count_specifiers_cong: "count_specifiers s = count_specifiers s"
  by simp

lemmas catalogue_eval = context_ok_pair core_context_def message_ok_TS count_specifiers_def scan_format_eval
  qt_markers_skip qt_markers_digit qt_markers_other qt_markers.simps(1) same_markers_def

lemmas catalogue_congs = list_all_cong_none message_ok_cong count_specifiers_cong scan_format_cong qt_markers_cong

end
