(* ===== verification/Catalogue_eu_1.thy ===== *)
theory Catalogue_eu_1
  imports Catalogue
begin

text \<open>
  The Basque catalogue (\<open>qt/locale/tknc_eu.ts\<close>), lines 2 to 862: one definition for each run of
  messages, in file order, and that the translations of each run keep the parameters of their messages.
\<close>

definition eu_1 :: ts_catalogue where
  \<open>eu_1 = [
    (''AddressBookPage'', [
      TS ''Right-click to edit address or label'' '''' '''' False True [''Helbidea edo etiketa editatzeko, egin eskuineko klik''],
      TS ''Create a new address'' '''' '''' False True [''Helbide berria sortu''],
      TS ''&New'' '''' '''' False True [''&Berria''],
      TS ''&Copy'' '''' '''' False True [''&Kopiatu''],
      TS ''C&lose'' '''' '''' False True [''&Itxi''],
      TS ''Delete the currently selected address from the list'' '''' '''' False True [''Ezabatu aukeratutako helbideak listatik''],
      TS ''Enter address or label to search'' '''' '''' False True [''Bilatzeko, helbide edo etiketa sartu''],
      TS ''Copy the currently selected address to the clipboard'' '''' '''' False True [''Kopiatu hautatutako helbidea arbelean''],
      TS ''Export the data in the current tab to a file'' '''' '''' False True [''Uneko fitxako datuak fitxategi batera esportatu''],
      TS ''&Export'' '''' '''' False True [''&Esportatu''],
      TS ''&Delete'' '''' '''' False True [''&Ezabatu''],
      TS ''Choose the address to send coins to'' '''' '''' False True [''Aukeratu txanponak bidaltzeko helbidea''],
      TS ''Choose the address to receive coins with'' '''' '''' False True [''Aukeratu txanponak jasotzeko erabiliko den helbidea''],
      TS ''C&hoose'' '''' '''' False True [''&Aukeratu''],
      TS ''These are your TKNC addresses for sending payments. Always check the amount and the receiving address before sending coins.'' '''' '''' False True [''Hauek dira ordainketak egiteko zure Bitcoin helbideak. Txanponak bidali aurretik, beti egiaztatu zenbatekoa eta hartzailearen helbidea.''],
      TS (''These are your TKNC addresses for receiving payments. Use the 'Create new receiving address' button in the receive tab to create new addresses.'' @ [CHR 0x0A] @ ''Signing is only possible with addresses of the type 'legacy'.'') '''' '''' False True [''Hauek dira ordainketak jasotzeko zure Bitcoin helbideak. Helbide berriak sortzeko, erabili 'Jasotzeko helbide berria sortu' botoia "jasotzea" fitxan.'' @ [CHR 0x0A] @ ''Sinatzea soilik posible da 'legacy' motako helbideekin.''],
      TS ''&Copy Address'' '''' '''' False True [''&Kopiatu helbidea''],
      TS ''Copy &Label'' '''' '''' False True [''Kopiatu &etiketa''],
      TS ''&Edit'' '''' '''' False True [''&Editatu''],
      TS ''Export Address List'' '''' '''' False True [''Helbide lista esportatu''],
      TS ''Comma separated file'' '''' ''Expanded name of the CSV file format. See: https://en.wikipedia.org/wiki/Comma-separated_values.'' False True [''Komaz bereizitako fitxategia''],
      TS ''There was an error trying to save the address list to %1. Please try again.'' '''' ''An error message. %1 is a stand-in argument for the name of the file we attempted to save to.'' False True [''Errore bat gertatu da %1(e)ra helbide-zerrenda gordetzen saiatzean. Saiatu berriro, mesedez.''],
      TS ''Sending addresses - %1'' '''' '''' False True [''Bidaltzeko helbideak - %1''],
      TS ''Receiving addresses - %1'' '''' '''' False True [''Jasotze helbideak - %1''],
      TS ''Exporting Failed'' '''' '''' False True [''Esportazioak huts egin du'']]),
    (''AddressTableModel'', [
      TS ''Label'' '''' '''' False True [''Etiketa''],
      TS ''Address'' '''' '''' False True [''Helbidea''],
      TS ''(no label)'' '''' '''' False True [''(etiketarik ez)'']]),
    (''AskPassphraseDialog'', [
      TS ''Passphrase Dialog'' '''' '''' False True [''Pasahitzaren dialogoa''],
      TS ''Enter passphrase'' '''' '''' False True [''Pasahitza sartu''],
      TS ''New passphrase'' '''' '''' False True [''Pasahitz berria''],
      TS ''Repeat new passphrase'' '''' '''' False True [''Pasahitz berria errepikatu''],
      TS ''Show passphrase'' '''' '''' False True [''Pasahitza erakutsi'']])]\<close>

definition eu_2 :: ts_catalogue where
  \<open>eu_2 = [
    (''AskPassphraseDialog'', [
      TS ''Encrypt wallet'' '''' '''' False True [''Zorroa enkriptatu''],
      TS ''This operation needs your wallet passphrase to unlock the wallet.'' '''' '''' False True [''zorroaren pasahitza behar du eragiketa honek, zure zorroa desblokeatzeko.''],
      TS ''Unlock wallet'' '''' '''' False True [''Zorroa desblokeatu''],
      TS ''Change passphrase'' '''' '''' False True [''Pasahitza aldatu''],
      TS ''Confirm wallet encryption'' '''' '''' False True [''Zorroaren enkriptazioa berretsi''],
      TS ''Warning: If you encrypt your wallet and lose your passphrase, you will <b>LOSE ALL OF YOUR BITCOINS</b>!'' '''' '''' False True [''Abisua: Zure zorroa enkriptatzen baduzu eta zure pasahitza galtzen baduzu, <b>BITCOIN GUZTIAK GALDUKO DITUZU</b>!''],
      TS ''Are you sure you wish to encrypt your wallet?'' '''' '''' False True [''Seguru al zaude, zorroa enkriptatu nahi duzula?''],
      TS ''Wallet encrypted'' '''' '''' False True [''Diruzorroa enkriptatuta''],
      TS ''Enter the new passphrase for the wallet.<br/>Please use a passphrase of <b>ten or more random characters</b>, or <b>eight or more words</b>.'' '''' '''' False True [''Diruzorroaren pasahitz berria sartu. <br/>Mesedez <b> hamar edo gehiago ausazko hizkiko</b> pasahitza erabili, edo <b> gutxienez zortzi hitz</b>''],
      TS ''Enter the old passphrase and new passphrase for the wallet.'' '''' '''' False True [''Zorroaren pasahitz zahar zein berria sartu.''],
      TS ''Continue'' '''' '''' False True [''Jarraitu''],
      TS ''Back'' '''' '''' False True [''Atzera''],
      TS ''Remember that encrypting your wallet cannot fully protect your tkncs from being stolen by malware infecting your computer.'' '''' '''' False True [''Gogoan izan zorroaren enkripzioak ezin dituela zure tkncak zure ordenagailuan izan dezakezun malware batengandik lapurtuak izatetik guztiz babestu .''],
      TS ''Wallet to be encrypted'' '''' '''' False True [''Enkriptatzeko zorroa''],
      TS ''Your wallet is about to be encrypted. '' '''' '''' False True [''Zure zorroa enkriptatzekotan dago''],
      TS ''Your wallet is now encrypted. '' '''' '''' False True [''Zure zorroa enkriptatua dago orain.''],
      TS ''IMPORTANT: Any previous backups you have made of your wallet file should be replaced with the newly generated, encrypted wallet file. For security reasons, previous backups of the unencrypted wallet file will become useless as soon as you start using the new, encrypted wallet.'' '''' '''' False True [''GARRANTZITSUA: Zure zorro-fitxategiaren aurrez egindako segurtasun-kopiak ordezkatu behar dira sortu berri den, zifratutako zorro-fitxategiarekin. Segurtasun arrazoiengatik, zifratu gabe zeuden aurreko segurtasun-kopiak baliogabe bihurtuko dira zorro berria erabiltzen hasten zarenean.''],
      TS ''Wallet encryption failed'' '''' '''' False True [''Zorroaren enkriptazioak huts egin du''],
      TS ''Wallet encryption failed due to an internal error. Your wallet was not encrypted.'' '''' '''' False True [''Zorroaren enkriptazioak huts egin du barne-akats baten ondorioz. Zure zorroa ez da enkriptatu.''],
      TS ''The supplied passphrases do not match.'' '''' '''' False True [''Eman dituzun pasahitzak ez datoz bat.''],
      TS ''Wallet unlock failed'' '''' '''' False True [''Diruzorroaren desblokeoak huts egin du''],
      TS ''The passphrase entered for the wallet decryption was incorrect.'' '''' '''' False True [''Diruzorroa desenkriptatzeko sartutako pasahitza okerra da.''],
      TS (''The passphrase entered for the wallet decryption is incorrect. It contains a null character (ie - a zero byte). If the passphrase was set with a version of this software prior to 25.0, please try again with only the characters up to '' @ [CHR 0xE2, CHR 0x80, CHR 0x94] @ '' but not including '' @ [CHR 0xE2, CHR 0x80, CHR 0x94] @ '' the first null character. If this is successful, please set a new passphrase to avoid this issue in the future.'') '''' '''' False True [''Zorroa deszifratzeko sartutako pasahitza ez da zuzena. Null karaktere bat dauka (hau da, zero byte bat). Pasahitza 25.0 bertsioa baino lehenagoko software-bertsio batekin ezarri bazen, saiatu berriro lehen null karaktereraino (baina hura barne hartu gabe) dauden karaktereak soilik sartzen. Horrela funtzionatzen badu, ezarri pasahitz berri bat etorkizunean arazo hori saihesteko.''],
      TS ''Wallet passphrase was successfully changed.'' '''' '''' False True [''Zorroaren pasahitza arrakastaz aldatu da.''],
      TS ''Passphrase change failed'' '''' '''' False True [''Pasahitzaren aldaketa huts egin du''],
      TS (''The old passphrase entered for the wallet decryption is incorrect. It contains a null character (ie - a zero byte). If the passphrase was set with a version of this software prior to 25.0, please try again with only the characters up to '' @ [CHR 0xE2, CHR 0x80, CHR 0x94] @ '' but not including '' @ [CHR 0xE2, CHR 0x80, CHR 0x94] @ '' the first null character.'') '''' '''' False True [''Zorroa deszifratzeko sartutako pasahitz zaharra ez da zuzena. Null karaktere bat dauka (hau da, zero byte bat). Pasahitza software honen 25.0 bertsioa baino lehenagoko batean ezarri bazen, saiatu berriro lehen null karaktereraino dauden karaktereak soilik sartzen, baina karaktere hori barne hartu gabe.''],
      TS ''Warning: The Caps Lock key is on!'' '''' '''' False True [''Abisua: Maiuskulen blokeo tekla aktibatuta dago!'']]),
    (''BanTableModel'', [
      TS ''IP/Netmask'' '''' '''' False True [''IP/Saremaskara''],
      TS ''Banned Until'' '''' '''' False True [''Honarte debekatua '']]),
    (''TKNCApplication'', [
      TS ''Settings file %1 might be corrupt or invalid.'' '''' '''' False True [''Ezarpen-fitxategia %1 hondatuta edo baliogabe egon daiteke.''],
      TS ''Runaway exception'' '''' '''' False True [''Salbuespen iheslaria''],
      TS ''A fatal error occurred. %1 can no longer continue safely and will quit.'' '''' '''' False True [''Errore larria gertatu da. %1 ezin da segurtasunez jarraitu eta itxiko da.''],
      TS ''Internal error'' '''' '''' False True [''Barne errorea''],
      TS ''An internal error occurred. %1 will attempt to continue safely. This is an unexpected bug which can be reported as described below.'' '''' '''' False True [''Barne-errore bat gertatu da. %1 saiatuko da segurtasunez jarraitzen. Hau ustekabeko akatsa da, eta behean azaltzen den moduan jakinarazi daiteke.'']])]\<close>

definition eu_3 :: ts_catalogue where
  \<open>eu_3 = [
    (''QObject'', [
      TS ''Do you want to reset settings to default values, or to abort without making changes?'' '''' ''Explanatory text shown on startup when the settings file cannot be read. Prompts user to make a choice between resetting or aborting.'' False True [''Ezarpenak lehenetsitako balioetara berrezarri nahi dituzu, ala aldaketarik egin gabe bertan behera utzi?''],
      TS ''A fatal error occurred. Check that settings file is writable, or try running with -nosettings.'' '''' ''Explanatory text shown on startup when the settings file could not be written. Prompts user to check that we have the ability to write to the file. Explains that the user has the option of running without a settings file.'' False True [''Errore larria gertatu da. Egiaztatu ezarpenen fitxategia idazgarria dela, edo saiatu -nosettings aukerarekin exekutatzen.''],
      TS ''Error: %1'' '''' '''' False True [''Errorea: %1''],
      TS (''%1 didn't yet exit safely'' @ [CHR 0xE2, CHR 0x80, CHR 0xA6]) '''' '''' False True [''%1 oraindik ez da segurtasunez itxi'' @ [CHR 0xE2, CHR 0x80, CHR 0xA6]],
      TS ''unknown'' '''' '''' False True [''ezezaguna''],
      TS ''Embedded "%1"'' '''' '''' False True [''"%1" barneratua''],
      TS ''Default system font "%1"'' '''' '''' False True [''Sistema letra tipo lehenetsia "%1"''],
      TS (''Custom'' @ [CHR 0xE2, CHR 0x80, CHR 0xA6]) '''' '''' False True [''Pertsonalizatu'' @ [CHR 0xE2, CHR 0x80, CHR 0xA6]],
      TS ''Amount'' '''' '''' False True [''Kopurua''],
      TS ''Enter a TKNC address (e.g. %1)'' '''' '''' False True [''Sartu Bitcoin helbide bat (adibidez:%1 )''],
      TS ''Unroutable'' '''' '''' False True [''Bideraezina''],
      TS ''Onion'' ''network name'' ''Name of Tor network in peer info'' False True [''Tipula''],
      TS ''Inbound'' '''' ''An inbound connection from a peer. An inbound connection is a connection initiated by a peer.'' False True [''Sarrerakoa''],
      TS ''Outbound'' '''' ''An outbound connection to a peer. An outbound connection is a connection initiated by us.'' False True [''Irteerakoa''],
      TS ''Full Relay'' '''' ''Peer connection type that relays all network information.'' False True [[CHR 0xC2, CHR 0xA0] @ ''Erabateko erreleboa''],
      TS ''Block Relay'' '''' ''Peer connection type that relays network information about blocks and not transactions or addresses.'' False True [''Bloke-erreleboa''],
      TS ''Manual'' '''' ''Peer connection type established manually through one of several methods.'' False True [''Eskuzkoa''],
      TS ''Feeler'' '''' ''Short-lived peer connection type that tests the aliveness of known addresses.'' False True [''Miaketa''],
      TS ''Address Fetch'' '''' ''Short-lived peer connection type that solicits known addresses from a peer.'' False True [''Helbide Bilaketa''],
      TS ''Private Broadcast'' '''' ''Short-lived peer connection type that is used for broadcasting privacy-sensitive data.'' False True [''Emisio pribatua''],
      TS ''%1 d'' '''' '''' False True [''%1 e''],
      TS ''%1 h'' '''' '''' False True [''%1 o''],
      TS ''None'' '''' '''' False True [''Bat ere ez''],
      TS ''%n second(s)'' '''' '''' True True [''%nsegundu'', ''%nsegundu''],
      TS ''%n minute(s)'' '''' '''' True True [''%nminutu'', ''%nminutu''],
      TS ''%n hour(s)'' '''' '''' True True [''%nordu'', ''%nordu''],
      TS ''%n day(s)'' '''' '''' True True [''%negun'', ''%negun''],
      TS ''%n week(s)'' '''' '''' True True [''%naste '', ''%naste''],
      TS ''%1 and %2'' '''' '''' False True [''%1eta%2'']])]\<close>

definition eu_4 :: ts_catalogue where
  \<open>eu_4 = [
    (''QObject'', [
      TS ''%n year(s)'' '''' '''' True True [''%nurte'', ''%nurte''],
      TS ''default wallet'' '''' '''' False True [''Zorro lehenetsia'']]),
    (''TKNCGUI'', [
      TS ''&Overview'' '''' '''' False True [''&Gainbegiratu''],
      TS ''Show general overview of wallet'' '''' '''' False True [''Zorroaren begirada orokorra ikusi''],
      TS ''&Transactions'' '''' '''' False True [''&Transakzioak''],
      TS ''Browse transaction history'' '''' '''' False True [''Transakzio-historiala arakatu''],
      TS ''E&xit'' '''' '''' False True [''I&rten''],
      TS ''Quit application'' '''' '''' False True [''Aplikaziotik irten''],
      TS ''&About %1'' '''' '''' False True [''%1-ri buruz''],
      TS ''Show information about %1'' '''' '''' False True [''%1-ri buruzko informazioa azaldu''],
      TS ''About &Qt'' '''' '''' False True [''&Qt-ri buruz''],
      TS ''Show information about Qt'' '''' '''' False True [''Erakutsi Qt-ren buruzko informazioa''],
      TS ''Modify configuration options for %1'' '''' '''' False True [''%1-ren konfigurazio-aukerak aldatu''],
      TS ''Create a new wallet'' '''' '''' False True [''Zorro berri bat sortu''],
      TS ''&Minimize'' '''' '''' False True [''&Minimizatu''],
      TS ''Wallet:'' '''' '''' False True [''Zorroa:''],
      TS ''Network activity disabled.'' '''' ''A substring of the tooltip.'' False True [''Sarea desaktibatua''],
      TS ''Proxy is <b>enabled</b>: %1'' '''' '''' False True [''Proxya <b>gaituta</b> dago : %1''],
      TS ''Send coins to a TKNC address'' '''' '''' False True [''Bidali txanponak Bitcoin helbide batera''],
      TS ''Backup wallet to another location'' '''' '''' False True [''Zorroaren segurtasun kopia beste leku batean.''],
      TS ''Change the passphrase used for wallet encryption'' '''' '''' False True [''Zorroa enkriptatzeko erabilitako pasahitza aldatu''],
      TS ''&Send'' '''' '''' False True [''&Bidali''],
      TS ''&Receive'' '''' '''' False True [''&Jaso''],
      TS (''&Options'' @ [CHR 0xE2, CHR 0x80, CHR 0xA6]) '''' '''' False True [''&Aukerak...''],
      TS (''&Encrypt Wallet'' @ [CHR 0xE2, CHR 0x80, CHR 0xA6]) '''' '''' False True [''&Zorroa enkriptatu...''],
      TS ''Encrypt the private keys that belong to your wallet'' '''' '''' False True [''Zure zorroari dagozkion gako pribatuak zifratu.''],
      TS (''&Backup Wallet'' @ [CHR 0xE2, CHR 0x80, CHR 0xA6]) '''' '''' False True [''Zorroaren &segurtasun kopia egin...''],
      TS (''&Change Passphrase'' @ [CHR 0xE2, CHR 0x80, CHR 0xA6]) '''' '''' False True [''&Aldatu Pasahitza''],
      TS (''Sign &message'' @ [CHR 0xE2, CHR 0x80, CHR 0xA6]) '''' '''' False True [''sinatu &mezua''],
      TS ''Sign messages with your TKNC addresses to prove you own them'' '''' '''' False True [''Sinatu mezuak zure Bitcoin helbideekin haien jabetza duzula frogatzeko.''],
      TS (''&Verify message'' @ [CHR 0xE2, CHR 0x80, CHR 0xA6]) '''' '''' False True [''Mezua &balioztatu...''],
      TS ''Verify messages to ensure they were signed with specified TKNC addresses'' '''' '''' False True [''Egiaztatu mezuak zehaztutako Bitcoin helbideekin sinatu direla ziurtatzeko.''],
      TS (''&Load PSBT from file'' @ [CHR 0xE2, CHR 0x80, CHR 0xA6]) '''' '''' False True [''&kargatu PSBT fitxategitik...''],
      TS (''Open &URI'' @ [CHR 0xE2, CHR 0x80, CHR 0xA6]) '''' '''' False True [''Irek i&URI...'']])]\<close>

definition eu_5 :: ts_catalogue where
  \<open>eu_5 = [
    (''TKNCGUI'', [
      TS (''Close Wallet'' @ [CHR 0xE2, CHR 0x80, CHR 0xA6]) '''' '''' False True [''Zorroa itxi...''],
      TS (''Create Wallet'' @ [CHR 0xE2, CHR 0x80, CHR 0xA6]) '''' '''' False True [''Zorroa sortu...''],
      TS (''Close All Wallets'' @ [CHR 0xE2, CHR 0x80, CHR 0xA6]) '''' '''' False True [''Zorro guztiak itxi...''],
      TS ''&File'' '''' '''' False True [''&Artxiboa''],
      TS ''&Settings'' '''' '''' False True [''&Ezarpenak''],
      TS ''&Help'' '''' '''' False True [''&Laguntza''],
      TS ''Tabs toolbar'' '''' '''' False True [''Fitxen tresna-barra''],
      TS (''Syncing Headers (%1%)'' @ [CHR 0xE2, CHR 0x80, CHR 0xA6]) '''' '''' False True [''Goiburuak sinkronizatzen (%1%)'' @ [CHR 0xE2, CHR 0x80, CHR 0xA6]],
      TS (''Synchronizing with network'' @ [CHR 0xE2, CHR 0x80, CHR 0xA6]) '''' '''' False True [''Sarearekin sinkronizatzen...''],
      TS (''Indexing blocks on disk'' @ [CHR 0xE2, CHR 0x80, CHR 0xA6]) '''' '''' False True [''Diskoko blokeak indexatzen...''],
      TS (''Processing blocks on disk'' @ [CHR 0xE2, CHR 0x80, CHR 0xA6]) '''' '''' False True [''Diskoko blokeak prozesatzen...''],
      TS (''Connecting to peers'' @ [CHR 0xE2, CHR 0x80, CHR 0xA6]) '''' '''' False True [''Pareekin konektatzen...''],
      TS ''Request payments (generates QR codes and tknc: URIs)'' '''' '''' False True [''Ordainketak eskatu (QR kodeak eta tknc: URIak sortzen ditu)''],
      TS ''Show the list of used sending addresses and labels'' '''' '''' False True ['' Bidalketa-helbideen eta etiketen zerrenda erakutsi''],
      TS ''Show the list of used receiving addresses and labels'' '''' '''' False True [''Harrera-helbideen eta etiketen zerrenda erakutsi''],
      TS ''&Command-line options'' '''' '''' False True [''&Komando-lerroaren aukerak''],
      TS ''Processed %n block(s) of transaction history.'' '''' '''' True True [''Transakzio-historiako %n bloke(k) prozesatu dira.'', ''%n bloke prozesatu dira transakzio-historialetik.''],
      TS ''%1 behind'' '''' '''' False True [''%1 atzetik''],
      TS (''Catching up'' @ [CHR 0xE2, CHR 0x80, CHR 0xA6]) '''' '''' False True [''Harrapatzen...''],
      TS ''Last received block was generated %1 ago.'' '''' '''' False True [''Jasotako azken blokea duela %1 sortu zen.''],
      TS ''Transactions after this will not yet be visible.'' '''' '''' False True [''Honen ondorengo transakzioak oraindik ez daude ikusgai.''],
      TS ''Error'' '''' '''' False True [''Akatsa''],
      TS ''Warning'' '''' '''' False True [''Abisua''],
      TS ''Information'' '''' '''' False True [''Informazioa''],
      TS ''Up to date'' '''' '''' False True [''Eguneratua''],
      TS ''Load Partially Signed TKNC Transaction'' '''' '''' False True [''Zati batean sinatutako Bitcoin transakzioa kargatu''],
      TS (''Load PSBT from &clipboard'' @ [CHR 0xE2, CHR 0x80, CHR 0xA6]) '''' '''' False True [''kargatu PSBT arbeletik...''],
      TS ''Load Partially Signed TKNC Transaction from clipboard'' '''' '''' False True [''Kargatu zati batean sinatutako Bitcoin transakzioa arbeletik.''],
      TS ''Node window'' '''' '''' False True [''Adabegiaren leihoa''],
      TS ''Open node debugging and diagnostic console'' '''' '''' False True [''Ireki nodoaren arazketa- eta diagnostiko-kontsola''],
      TS ''&Sending addresses'' '''' '''' False True [''&Helbideak bidaltzen''],
      TS ''&Receiving addresses'' '''' '''' False True [''&Helbideak jasotzen''],
      TS ''Open a tknc: URI'' '''' '''' False True [''Ireki tknc bat: URI''],
      TS ''Open Wallet'' '''' '''' False True [''Zorroa zabaldu''],
      TS ''Open a wallet'' '''' '''' False True [''Zorro bat zabaldu'']])]\<close>

definition eu_6 :: ts_catalogue where
  \<open>eu_6 = [
    (''TKNCGUI'', [
      TS ''Close wallet'' '''' '''' False True [''Zorroa itxi''],
      TS (''Restore Wallet'' @ [CHR 0xE2, CHR 0x80, CHR 0xA6]) '''' ''Name of the menu item that restores wallet from a backup file.'' False True [''Zorroa berrezarri...''],
      TS ''Restore a wallet from a backup file'' '''' ''Status tip for Restore Wallet menu item'' False True [''Berreskuratu zorro bat segurtasun-kopia-fitxategi batetik.''],
      TS ''Close all wallets'' '''' '''' False True [''Zorro guztiak itxi''],
      TS ''Migrate Wallet'' '''' '''' False True [''Migra ezazu zorroa''],
      TS ''Migrate a wallet'' '''' '''' False True [''Zorroren bat migratu''],
      TS ''Show the %1 help message to get a list with possible TKNC command-line options'' '''' '''' False True [''Erakutsi %1(r)en laguntza-mezua TKNC-en komando-lerroko aukera posibleen zerrenda lortzeko.''],
      TS ''&Mask values'' '''' '''' False True [''&Maskaratu balioak''],
      TS ''Mask the values in the Overview tab'' '''' '''' False True [''Maskaratu balioak "Ikuspegi orokorra" fitxan.''],
      TS ''No wallets available'' '''' '''' False True [''Ez dago diru-zorrorik eskura''],
      TS ''Wallet Data'' '''' ''Name of the wallet data file format.'' False True [''Zorroaren datuak''],
      TS ''Load Wallet Backup'' '''' ''The title for Restore Wallet File Windows'' False True [''Kargatu zorroaren segurtasun-kopia.''],
      TS ''Restore Wallet'' '''' ''Title of pop-up window shown when the user is attempting to restore a wallet.'' False True [''Zorroa berreskuratu''],
      TS ''Wallet Name'' '''' ''Label of the input field where the name of the wallet is entered.'' False True [''Diruzorroaren izena''],
      TS ''Invalid Wallet Name'' '''' '''' False True [''Zorroaren izen baliogabea''],
      TS ''Wallet name cannot be empty'' '''' '''' False True [''Zorroaren izena ezin da hutsik egon''],
      TS ''Restore and Migrate Wallet Backup'' '''' '''' False True [''Zorroaren segurtasun kopia berreskuratu eta migratu''],
      TS ''Restore and Migrate Wallet'' '''' ''Title of pop-up window shown when the user is attempting to restore a wallet.'' False True [''Zorroa berreskuratu eta migratu''],
      TS ''&Window'' '''' '''' False True [''&Lehioa''],
      TS ''Zoom'' '''' '''' False True [''Gerturatu''],
      TS ''Main Window'' '''' '''' False True [''Lehio nagusia''],
      TS ''%1 client'' '''' '''' False True [''%1 bezeroa''],
      TS ''&Hide'' '''' '''' False True [''&Ezkutatu''],
      TS ''S&how'' '''' '''' False True [''E&rakutsi''],
      TS ''%n active connection(s) to TKNC network.'' '''' ''A substring of the tooltip.'' True True [''%nBitcoin sarearekiko konexio aktibo.'', ''%n konexio aktibo Bitcoin sarearekin.''],
      TS ''Click for more actions.'' '''' ''A substring of the tooltip. "More actions" are available via the context menu.'' False True [''Klikatu ekintza gehiago egiteko''],
      TS ''Show Peers tab'' '''' ''A context menu item. The "Peers tab" is an element of the "Node window".'' False True [''Erakutsi "Parekoak" fitxa.''],
      TS ''Disable network activity'' '''' ''A context menu item.'' False True [''Desaktibatu sare jarduera.''],
      TS ''Enable network activity'' '''' ''A context menu item. The network activity was disabled previously.'' False True [''Gaitu sare jarduera''],
      TS (''Pre-syncing Headers (%1%)'' @ [CHR 0xE2, CHR 0x80, CHR 0xA6]) '''' '''' False True [''Goiburuak aurresinkronizatzen (%1%)'' @ [CHR 0xE2, CHR 0x80, CHR 0xA6]],
      TS ''Error: %1'' '''' '''' False True [''Errorea: %1''],
      TS ''Warning: %1'' '''' '''' False True [''Abisua: %1'']])]\<close>

lemma eu_1_ok: "catalogue_ok 2 eu_1"
  unfolding eu_1_def catalogue_ok_def append_Cons append_Nil
  by (simp add: catalogue_eval del: scan_format.simps(2) qt_markers.simps(2) cong: catalogue_congs)

lemma eu_2_ok: "catalogue_ok 2 eu_2"
  unfolding eu_2_def catalogue_ok_def append_Cons append_Nil
  by (simp add: catalogue_eval del: scan_format.simps(2) qt_markers.simps(2) cong: catalogue_congs)

lemma eu_3_ok: "catalogue_ok 2 eu_3"
  unfolding eu_3_def catalogue_ok_def append_Cons append_Nil
  by (simp add: catalogue_eval del: scan_format.simps(2) qt_markers.simps(2) cong: catalogue_congs)

lemma eu_4_ok: "catalogue_ok 2 eu_4"
  unfolding eu_4_def catalogue_ok_def append_Cons append_Nil
  by (simp add: catalogue_eval del: scan_format.simps(2) qt_markers.simps(2) cong: catalogue_congs)

lemma eu_5_ok: "catalogue_ok 2 eu_5"
  unfolding eu_5_def catalogue_ok_def append_Cons append_Nil
  by (simp add: catalogue_eval del: scan_format.simps(2) qt_markers.simps(2) cong: catalogue_congs)

lemma eu_6_ok: "catalogue_ok 2 eu_6"
  unfolding eu_6_def catalogue_ok_def append_Cons append_Nil
  by (simp add: catalogue_eval del: scan_format.simps(2) qt_markers.simps(2) cong: catalogue_congs)

end
