(* ===== verification/Catalogue_eu_2.thy ===== *)
theory Catalogue_eu_2
  imports Catalogue
begin

text \<open>
  The Basque catalogue (\<open>qt/locale/tknc_eu.ts\<close>), lines 863 to 1727: one definition for each run of
  messages, in file order, and that the translations of each run keep the parameters of their messages.
\<close>

definition eu_7 :: ts_catalogue where
  \<open>eu_7 = [
    (''TKNCGUI'', [
      TS (''Date: %1'' @ [CHR 0x0A]) '''' '''' False True [''Data: %1'' @ [CHR 0x0A]],
      TS (''Amount: %1'' @ [CHR 0x0A]) '''' '''' False True [''Kopurua: %1'' @ [CHR 0x0A]],
      TS (''Wallet: %1'' @ [CHR 0x0A]) '''' '''' False True [''Zorroa: %1'' @ [CHR 0x0A]],
      TS (''Type: %1'' @ [CHR 0x0A]) '''' '''' False True [''Mota: %1'' @ [CHR 0x0A]],
      TS (''Label: %1'' @ [CHR 0x0A]) '''' '''' False True [''Etiketa: %1'' @ [CHR 0x0A]],
      TS (''Address: %1'' @ [CHR 0x0A]) '''' '''' False True [''Helbidea: %1'' @ [CHR 0x0A]],
      TS ''Sent transaction'' '''' '''' False True [''Bidalitako transakzioa''],
      TS ''Incoming transaction'' '''' '''' False True [''Sartutako transakzioa''],
      TS ''HD key generation is <b>enabled</b>'' '''' '''' False True [''HD gakoaren sorrera <b>gaituta</b> dago''],
      TS ''HD key generation is <b>disabled</b>'' '''' '''' False True [''HD gakoaren sorrera <b>desgaituta</b> dago''],
      TS ''Private key <b>disabled</b>'' '''' '''' False True [''Gako pribatua <b>desgaitua</b>''],
      TS ''Wallet is <b>encrypted</b> and currently <b>unlocked</b>'' '''' '''' False True [''Zorroa <b>enkriptatuta</b> eta <b>desblokeatuta</b> dago une honetan''],
      TS ''Wallet is <b>encrypted</b> and currently <b>locked</b>'' '''' '''' False True [''Zorroa <b>enkriptatuta</b> eta <b>blokeatuta</b> dago une honetan''],
      TS ''Original message:'' '''' '''' False True [''Jatorrizko mezua:'']]),
    (''UnitDisplayStatusBarControl'', [
      TS ''Unit to show amounts in. Click to select another unit.'' '''' '''' False True [''Kopuruak bistaratzeko unitatea. Egin klik beste unitate bat hautatzeko.'']]),
    (''CoinControlDialog'', [
      TS ''Coin Selection'' '''' '''' False True [''Txanpon aukeraketa''],
      TS ''Quantity:'' '''' '''' False True [''Zenbat:''],
      TS ''Bytes:'' '''' '''' False True [''Byte kopurua:''],
      TS ''Amount:'' '''' '''' False True [''Kopurua:''],
      TS ''Fee:'' '''' '''' False True [''Komisioa:''],
      TS ''After Fee:'' '''' '''' False True [''Komisioaren ondoren:''],
      TS ''Change:'' '''' '''' False True [''Bueltak:''],
      TS ''(un)select all'' '''' '''' False True [''Guztia hautatu/hautatu gabe''],
      TS ''Tree mode'' '''' '''' False True [''Zuhaitz modua''],
      TS ''List mode'' '''' '''' False True [''Zerrenda modua''],
      TS ''Amount'' '''' '''' False True [''Kopurua''],
      TS ''Received with label'' '''' '''' False True [''Etiketarekin jasoa''],
      TS ''Received with address'' '''' '''' False True [''Helbidearekin jasoa''],
      TS ''Date'' '''' '''' False True [''Data''],
      TS ''Confirmations'' '''' '''' False True [''Konfirmazioak''],
      TS ''Confirmed'' '''' '''' False True [''Berretsia'']])]\<close>

definition eu_8 :: ts_catalogue where
  \<open>eu_8 = [
    (''CoinControlDialog'', [
      TS ''Copy amount'' '''' '''' False True [''Kopiatu zenbatekoa''],
      TS ''&Copy address'' '''' '''' False True [''&Helbidea kopiatu''],
      TS ''Copy &label'' '''' '''' False True [''Kopiatu &Etiketa''],
      TS ''Copy &amount'' '''' '''' False True [''Kopiatu kopurua''],
      TS ''Copy transaction &ID and output index'' '''' '''' False True [''Kopiatu transakzioaren &IDa eta irteera-indizea''],
      TS ''L&ock unspent'' '''' '''' False True [''Gastatu gabeak blokeatu''],
      TS ''&Unlock unspent'' '''' '''' False True [''Gastatu gabe dagoena desblokeatu''],
      TS ''Copy quantity'' '''' '''' False True [''Kopia kopurua''],
      TS ''Copy fee'' '''' '''' False True [''Kopiatu kuota''],
      TS ''Copy after fee'' '''' '''' False True [''Kopiatu komisioaren ondorengo zenbatekoa''],
      TS ''Copy bytes'' '''' '''' False True [''Kopiatu byteak''],
      TS ''Copy change'' '''' '''' False True [''Kopiatu aldaketa''],
      TS ''(%1 locked)'' '''' '''' False True [''(%1 blokeatuta)''],
      TS ''Can vary +/- %1 token(s) per input.'' '''' '''' False True [''Sarrerako bakoitzeko %1 token gehi/minus aldatu daiteke.''],
      TS ''(no label)'' '''' '''' False True [''(etiketarik gabe)''],
      TS ''change from %1 (%2)'' '''' '''' False True [''aldaketa hemendik%1 (%2)''],
      TS ''(change)'' '''' '''' False True [''(bueltak)'']]),
    (''CreateWalletActivity'', [
      TS ''Create Wallet'' '''' ''Title of window indicating the progress of creation of a new wallet.'' False True [''Zorroa sortu''],
      TS (''Creating Wallet <b>%1</b>'' @ [CHR 0xE2, CHR 0x80, CHR 0xA6]) '''' ''Descriptive text of the create wallet progress window which indicates to the user which wallet is currently being created.'' False True [''Zorroa sortzen<b>%1</b>...''],
      TS ''Create wallet failed'' '''' '''' False True [''Zorroa sortzen hutsegitea''],
      TS ''Create wallet warning'' '''' '''' False True [''Zorroa sortzearen buruzko oharra''],
      TS ''Can't list signers'' '''' '''' False True [''Ezin dira sinatzaileak zerrendatu''],
      TS ''Too many external signers found'' '''' '''' False True [''Kanpoko sinatzaile gehiegi aurkitu dira'']]),
    (''LoadWalletsActivity'', [
      TS ''Load Wallets'' '''' ''Title of progress window which is displayed when wallets are being loaded.'' False True [''Zorroak kargatu''],
      TS (''Loading wallets'' @ [CHR 0xE2, CHR 0x80, CHR 0xA6]) '''' ''Descriptive text of the load wallets progress window which indicates to the user that wallets are currently being loaded.'' False True [''Zorroak kargatzen...'']]),
    (''MigrateWalletActivity'', [
      TS ''Migrate wallet'' '''' '''' False True [''Zorroa migratu''],
      TS ''Are you sure you wish to migrate the wallet <i>%1</i>?'' '''' '''' False True [''Zihur zaude zorroa  <i>%1</i>migratu nahi duzula?''],
      TS (''Migrating the wallet will convert this wallet to one or more descriptor wallets. A new wallet backup will need to be made.'' @ [CHR 0x0A] @ ''If this wallet contains any watchonly scripts, a new wallet will be created which contains those watchonly scripts.'' @ [CHR 0x0A] @ ''If this wallet contains any solvable but not watched scripts, a different and new wallet will be created which contains those scripts.'' @ [CHR 0x0A, CHR 0x0A] @ ''The migration process will create a backup of the wallet before migrating. This backup file will be named <wallet name>-<timestamp>.legacy.bak and can be found in the directory for this wallet. In the event of an incorrect migration, the backup can be restored with the "Restore Wallet" functionality.'') '''' '''' False True [''Zorroa migratzean, zorro hau deskribatzaile-zorro batean edo gehiagotan bihurtuko da. Zorroaren babeskopia berri bat egin beharko da.'' @ [CHR 0x0A] @ ''Zorro honek watch-only script-ak baditu, script horiek dituen zorro berri bat sortuko da.'' @ [CHR 0x0A] @ ''Zorro honek ebazgarriak baina ez zaindutakoak diren script-ak baditu, script horiek dituen beste zorro berri bat sortuko da.'' @ [CHR 0x0A, CHR 0x0A] @ ''Migrazio-prozesuak zorroaren segurtasun-kopia bat sortuko du migratu aurretik. Segurtasun-kopia hori <wallet name>-<timestamp> .legacy.bak izendatuko da eta zorro honen direktorioan aurkituko da. Migrazioa okerra bada, segurtasun-kopia hori berreskuratu daiteke "Zorroa Berreskuratu" funtzionalitatearen bidez.''],
      TS ''Migrate Wallet'' '''' '''' False True [''Migra ezazu zorroa''],
      TS (''Migrating Wallet <b>%1</b>'' @ [CHR 0xE2, CHR 0x80, CHR 0xA6]) '''' '''' False True [''Zorroa migratzen <b>%1</b> '' @ [CHR 0xE2, CHR 0x80, CHR 0xA6]],
      TS ''The wallet '%1' was migrated successfully.'' '''' '''' False True [[CHR 0x27] @ ''%1' zorroa arrakastaz migratu da.'']])]\<close>

definition eu_9 :: ts_catalogue where
  \<open>eu_9 = [
    (''MigrateWalletActivity'', [
      TS ''Watchonly scripts have been migrated to a new wallet named '%1'.'' '''' '''' False True [''Ikusmen-soil scriptak '%1' izeneko zorro berri batera migratu dira.''],
      TS ''Solvable but not watched scripts have been migrated to a new wallet named '%1'.'' '''' '''' False True [''Ebatz daitezkeen baina ez diren ikusi scriptak '%1' izeneko diru-zorro berri batera migratu dira.''],
      TS ''Restore and Migrate wallet'' '''' '''' False True [''Zorroa berreskuratu eta migratu''],
      TS ''Are you sure you wish to restore the wallet file <i>%1</i> to <i>%2</i> and migrate it?'' '''' '''' False True [''Ziur zaude <i>%1</i> zorro fitxategia <i>%2</i>ra berreskuratu eta migratu nahi duzula?''],
      TS (''Restoring the wallet will copy the backup file to the wallets directory and place it in the standard wallet directory layout. The original file will not be modified.'' @ [CHR 0x0A, CHR 0x0A] @ ''Migrating the wallet will convert the restored wallet to one or more descriptor wallets. A new wallet backup will need to be made.'' @ [CHR 0x0A] @ ''If this wallet contains any watchonly scripts, a new wallet will be created which contains those watchonly scripts.'' @ [CHR 0x0A] @ ''If this wallet contains any solvable but not watched scripts, a different and new wallet will be created which contains those scripts.'' @ [CHR 0x0A, CHR 0x0A] @ ''The migration process will create a backup of the wallet before migrating. This backup file will be named <wallet name>-<timestamp>.legacy.bak and can be found in the directory for this wallet. In the event of an incorrect migration, the backup can be restored with the "Restore Wallet" functionality.'') '''' '''' False True [''Zorroa berreskuratzeak segurtasun-kopiako fitxategia zorroen direktoriora kopiatuko du eta ohiko zorro-diren egituran kokatuko du. Jatorrizko fitxategia ez da aldatuko.'' @ [CHR 0x0A, CHR 0x0A] @ ''Zorroa migratzeak berreskuratuta dagoen zorroa deskriptore-zorro batean edo gehiagotan bihurtuko du. Zorroaren segurtasun-kopia berria sortu beharko da.'' @ [CHR 0x0A] @ ''Zorro honek behaketa-soilik diren skripteren bat badu, skriptu horiek jasoko dituen zorro berri bat sortuko da.'' @ [CHR 0x0A] @ ''Zorro honek konpon daitezkeen baina behatzen ez diren skripteren bat badu, skriptu horiek jasoko dituen beste zorro berri eta desberdin bat sortuko da.'' @ [CHR 0x0A, CHR 0x0A] @ ''Migrazio-prozesuak zorroaren segurtasun-kopia bat sortuko du migratu aurretik. Segurtasun-kopia hori <wallet name>-<timestamp>.legacy.bak izendatuko da, eta zorro horren direktorioan aurkituko da. Migrazio okerren bat gertatuz gero, segurtasun kopia '' @ [CHR 0xE2, CHR 0x80, CHR 0x9C] @ ''Zorroa Berreskuratu'' @ [CHR 0xE2, CHR 0x80, CHR 0x9D] @ '' funtzionalitatearekin lehenera daiteke.''],
      TS ''Restore Wallet'' '''' ''Title of progress window which is displayed when wallets are being restored.'' False True [''Diruzorroa berreskuratu''],
      TS (''Restoring Wallet <b>%1</b>'' @ [CHR 0xE2, CHR 0x80, CHR 0xA6]) '''' ''Descriptive text of the restore wallets progress window which indicates to the user that wallets are currently being restored.'' False True [''Diruzorroa berritzen  <b>%1</b>'' @ [CHR 0xE2, CHR 0x80, CHR 0xA6]],
      TS ''Migration failed'' '''' '''' False True [''Migrazioa huts egin da''],
      TS ''Migration Successful'' '''' '''' False True [''Migrazioa arrakastatsua izan da'']]),
    (''OpenWalletActivity'', [
      TS ''Open wallet failed'' '''' '''' False True [''Zorroa irekitzen hutsegitea''],
      TS ''Open wallet warning'' '''' '''' False True [''Zorroa irekitzen abisua''],
      TS ''Open Wallet'' '''' ''Title of window indicating the progress of opening of a wallet.'' False True [''Zorroa zabaldu''],
      TS (''Opening Wallet <b>%1</b>'' @ [CHR 0xE2, CHR 0x80, CHR 0xA6]) '''' ''Descriptive text of the open wallet progress window which indicates to the user which wallet is currently being opened.'' False True [''<b>%1</b> zorroa irekitzen ...'']]),
    (''RestoreWalletActivity'', [
      TS ''Restore Wallet'' '''' ''Title of progress window which is displayed when wallets are being restored.'' False True [''Zorroa berreskuratu''],
      TS (''Restoring Wallet <b>%1</b>'' @ [CHR 0xE2, CHR 0x80, CHR 0xA6]) '''' ''Descriptive text of the restore wallets progress window which indicates to the user that wallets are currently being restored.'' False True [''Zorroa berritzen  <b>%1</b>'' @ [CHR 0xE2, CHR 0x80, CHR 0xA6]],
      TS ''Restore wallet failed'' '''' ''Title of message box which is displayed when the wallet could not be restored.'' False True [''Zorroa berreskuratzea huts egin da''],
      TS ''Restore wallet warning'' '''' ''Title of message box which is displayed when the wallet is restored with some warning.'' False True [''Zorroa berreskuratzeko abisua''],
      TS ''Restore wallet message'' '''' ''Title of message box which is displayed when the wallet is successfully restored.'' False True [''Zorroa berreskuratzeko mezua'']]),
    (''WalletController'', [
      TS ''Close wallet'' '''' '''' False True [''Zorroa itxi''],
      TS ''Are you sure you wish to close the wallet <i>%1</i>?'' '''' '''' False True [''Ziur al zaude zorroa <i>%1</i> itxi nahi duzula?''],
      TS ''Closing the wallet for too long can result in having to resync the entire chain if pruning is enabled.'' '''' '''' False True [''Zorroa denbora luzez itxi gabe uzteak bloke-katea guztia berriro sinkronizatu beharra ekar dezake, moztea gaituta badago.''],
      TS ''Close all wallets'' '''' '''' False True [''Zorro guztiak itxi''],
      TS ''Are you sure you wish to close all wallets?'' '''' '''' False True [''Ziur zaude zorro guztiak itxi nahi dituzula?'']]),
    (''CreateWalletDialog'', [
      TS ''Create Wallet'' '''' '''' False True [''Zorroa sortu''],
      TS ''You are one step away from creating your new wallet!'' '''' '''' False True [''Zure zorro berri sortzeko pauso bakarra gelditzen da!''],
      TS ''Please provide a name and, if desired, enable any advanced options'' '''' '''' False True [''Mesedez, eman izen bat eta nahi izanez gero, gaitz ezazu aukerarik aurreratua.''],
      TS ''Wallet Name'' '''' '''' False True [''Zorroaren izena''],
      TS ''Wallet'' '''' '''' False True [''Zorroa'']])]\<close>

definition eu_10 :: ts_catalogue where
  \<open>eu_10 = [
    (''CreateWalletDialog'', [
      TS ''Encrypt the wallet. The wallet will be encrypted with a passphrase of your choice.'' '''' '''' False True [''Zorroa enkriptatu. Zorroa zure aukeratutako pasahitzarekin enkriptatuko da.''],
      TS ''Encrypt Wallet'' '''' '''' False True [''Zorroa enkriptatu''],
      TS ''Advanced Options'' '''' '''' False True [''Aukera aurreratuak''],
      TS ''Disable private keys for this wallet. Wallets with private keys disabled will have no private keys and cannot have an HD seed or imported private keys. This is ideal for watch-only wallets.'' '''' '''' False True [''Zorro honentzako gako pribatua desgaitu. Gako pribaturik ez duten zorroek ez dute gako pribaturik izango eta ezin izango dute HD hazia edo inportatutako gako pribaturik izan. Hau egokia da watch-only zorroentzat.''],
      TS ''Disable Private Keys'' '''' '''' False True [''Desgaitu gako pribatuak''],
      TS ''Make a blank wallet. Blank wallets do not initially have private keys or scripts. Private keys and addresses can be imported using descriptors at a later time.'' '''' '''' False True [''Zorro huts bat sortu. Zorro hutsek ez dute hasieran giltza pribaturik edo skriprik izaten. Giltza pribatuak eta helbideak geroago inporta daitezke deskriptoreen bidez.''],
      TS ''Make Blank Wallet'' '''' '''' False True [''Egin zorro hutsa...''],
      TS ''Use an external signing device such as a hardware wallet. Configure the external signer script in wallet preferences first.'' '''' '''' False True [''Erabili kanpoko sinatze-gailu bat, adibidez, hardware-zorroa. Lehenik, konfiguratu kanpoko sinatzailearen script-a zorroaren lehentasunetan.''],
      TS ''External signer'' '''' '''' False True [''Kanpo sinatzailea''],
      TS ''Create'' '''' '''' False True [''Sortu''],
      TS ''Compiled without external signing support (required for external signing)'' '''' ''"External signing" means using devices such as hardware wallets.'' False True [''Kanpoko sinatze-euskarririk gabe konpilatu da (kanpoko sinatzeetarako beharrezkoa).'']]),
    (''EditAddressDialog'', [
      TS ''Edit Address'' '''' '''' False True [''Helbidea editatu''],
      TS ''&Label'' '''' '''' False True [''&Etiketa''],
      TS ''The label associated with this address list entry'' '''' '''' False True [''Helbide zerrenda honi dagozkion etiketak''],
      TS ''The address associated with this address list entry. This can only be modified for sending addresses.'' '''' '''' False True [''Helbide zerrenda sarrera honi lotutako helbidea. Hau bidaltzeko helbideetan bakarrik aldatu daiteke.''],
      TS ''&Address'' '''' '''' False True [''&Helbidea''],
      TS ''New sending address'' '''' '''' False True [''Bidaltzeko helbide berria''],
      TS ''Edit receiving address'' '''' '''' False True [''Jasotzeko helbidea editatu''],
      TS ''Edit sending address'' '''' '''' False True [''Bidaltzeko helbidea editatu''],
      TS ''The entered address "%1" is not a valid TKNC address.'' '''' '''' False True [''Sartutako "%1" helbidea ez da baliozko Bitcoin helbide bat.''],
      TS ''Address "%1" already exists as a receiving address with label "%2" and so cannot be added as a sending address.'' '''' '''' False True [''"%1" helbidea dagoeneko existitzen da helbide hartzaile gisa "%2" etiketa duela, eta ezin da gehiago helbide igorle gisa gehitu.''],
      TS ''The entered address "%1" is already in the address book with label "%2".'' '''' '''' False True [''Sartutako "%1" helbidea dagoeneko dago helbide-liburuan "%2" etiketa duela.''],
      TS ''Could not unlock wallet.'' '''' '''' False True [''Ezin da zorroa desblokeatu.''],
      TS ''New key generation failed.'' '''' '''' False True [''Giltza berriaren sorrerak huts egin du.'']]),
    (''FreespaceChecker'', [
      TS ''A new data directory will be created.'' '''' '''' False True [''Datu direktorio berria sortuko da.''],
      TS ''name'' '''' '''' False True [''izena''],
      TS ''Directory already exists. Add %1 if you intend to create a new directory here.'' '''' '''' False True [''Direktorioa dagoeneko existitzen da. Sortu %1hemen direktorio berri bat nahi baduzu.''],
      TS ''Path already exists, and is not a directory.'' '''' '''' False True [''Bidea existitzen da, eta ez da direktorioa.''],
      TS ''Cannot create data directory here.'' '''' '''' False True [''Ezin da datu direktoria hemen sortu.'']]),
    (''HelpMessageDialog'', [
      TS ''version'' '''' '''' False True [''bertsioa''],
      TS ''About %1'' '''' '''' False True [''%1 inguru''],
      TS ''Command-line options'' '''' '''' False True [''Komando lerroaren aukerak'']]),
    (''ShutdownWindow'', [
      TS (''%1 is shutting down'' @ [CHR 0xE2, CHR 0x80, CHR 0xA6]) '''' '''' False True [''%1Itzaltzen ari da...'']])]\<close>

definition eu_11 :: ts_catalogue where
  \<open>eu_11 = [
    (''ShutdownWindow'', [
      TS ''Do not shut down the computer until this window disappears.'' '''' '''' False True [''Leiho hau desagertu arte ez itzali ordenagailua.'']]),
    (''Intro'', [
      TS ''Welcome'' '''' '''' False True [''Ongietorri''],
      TS ''Welcome to %1.'' '''' '''' False True [''Ongietorri %1-ra''],
      TS ''As this is the first time the program is launched, you can choose where %1 will store its data.'' '''' '''' False True [''Programa lehen aldiz abiarazten denez, datuak %1non gordeko diren hauta dezakezu.''],
      TS ''Limit block chain storage to'' '''' '''' False True [''Blokekatearen biltegiratzea honetara mugatu''],
      TS ''Reverting this setting requires re-downloading the entire blockchain. It is faster to download the full chain first and prune it later. Disables some advanced features.'' '''' '''' False True [''Ezarpen hau atzera botatzeak blockchain osoa berriro deskargatzea eskatzen du. Azkarragoa da kate osoa lehenik deskargatzea eta gero moztea. Ezaugarri aurreratu batzuk desgaitzen ditu.''],
      TS '' GB'' '''' '''' False True [''GB''],
      TS ''This initial synchronisation is very demanding, and may expose hardware problems with your computer that had previously gone unnoticed. Each time you run %1, it will continue downloading where it left off.'' '''' '''' False True [''Hasiera sinkronizazio hori oso eskatzailea da, eta ordenagailuan aurretik nabaritu gabeko arazo hardwareak agerian ditzake. Aldi bakoitzean exekutatzen duzunean %1, bertan utzi zuen lekutik deskargatzen jarraituko du.''],
      TS ''When you click OK, %1 will begin to download and process the full %4 block chain (%2 GB) starting with the earliest transactions in %3 when %4 initially launched.'' '''' '''' False True [''Ados sakatzen duzunean, %1-ek %4blockchain osoa ( %2GB) deskargatzen eta prozesatzen hasiko da, lehen aldiz abiarazi zenean %3-ko lehen %4 transakzioetatik hasita.''],
      TS ''If you have chosen to limit block chain storage (pruning), the historical data must still be downloaded and processed, but will be deleted afterward to keep your disk usage low.'' '''' '''' False True [''Bloke katearen biltegiratzea mugatzeko aukeratu baduzu (moztea), datu historikoak oraindik deskargatu eta prozesatu beharko dira, baina gero ezabatuko dira zure diskoaren erabilera baxua izateko.''],
      TS ''Use the default data directory'' '''' '''' False True [''Erabili datu direktorio lehenetsia''],
      TS ''Use a custom data directory:'' '''' '''' False True [''Erabili datu direktorio pertsonalizatu bat:''],
      TS ''%n GB of space available'' '''' '''' True True [''%nGB leku erabilgarri.'', ''%nGB leku erabilgarri.''],
      TS ''(of %n GB needed)'' '''' '''' True True [''( behar diren %n GB-tik )'', ''( behar diren %nGB-tik )''],
      TS ''(%n GB needed for full chain)'' '''' '''' True True [''(kate osoarentzat behar diren %n GB)'', ''(kate osoarentzat behar diren %n GB)''],
      TS ''Choose data directory'' '''' '''' False True [''Datu karpeta hautatu''],
      TS ''At least %1 GB of data will be stored in this directory, and it will grow over time.'' '''' '''' False True [''Gutxienez %1 GB datu gordeko dira direktorio honetan, eta denborarekin handitzen joango da.''],
      TS ''Approximately %1 GB of data will be stored in this directory.'' '''' '''' False True [''Gutxi gorabehera %1GB datu gordeko dira direktorio honetan.''],
      TS ''(sufficient to restore backups %n day(s) old)'' '''' ''Explanatory text on the capability of the current prune target.'' True True [''( duela%n egun batzuk egindako babeskopiak berreskuratzeko nahikoa)'', ''( duela %n egun batzuk egindako babeskopiak berreskuratzeko nahikoa)''],
      TS ''%1 will download and store a copy of the TKNC block chain.'' '''' '''' False True [''%1Bitcoin bloke-katearen kopia bat deskargatu eta gordeko du.''],
      TS ''The wallet will also be stored in this directory.'' '''' '''' False True [''Zorroa karpeta honetan ere gorde egingo da.''],
      TS ''Error: Specified data directory "%1" cannot be created.'' '''' '''' False True [''Errorea: ezin da sortu zehaztutako datu-direktorioa "%1".''],
      TS ''Error'' '''' '''' False True [''Akatsa'']]),
    (''ModalOverlay'', [
      TS ''Form'' '''' '''' False True [''Inprimakia''],
      TS ''Recent transactions may not yet be visible, and therefore your wallet's balance might be incorrect. This information will be correct once your wallet has finished synchronizing with the tknc network, as detailed below.'' '''' '''' False True [''Azken transakzioak baliteke oraindik ikusgai ez egotea, eta, hortaz, zure zorroaren saldoa ez da zuzena izan daiteke. Informazio hau eguneratua egongo da zure zorroa TKNC sarearekin sinkronizatzea amaitzen duenean, behean zehazten den bezala.''],
      TS ''Attempting to spend tkncs that are affected by not-yet-displayed transactions will not be accepted by the network.'' '''' '''' False True [''Oraindik bistaratugabe dauden transakzioek eragindako tknc-ak gastatzen saiatzea ez du sareak onartuko.''],
      TS ''Number of blocks left'' '''' '''' False True [''Gainerako blokeen kopurua.''],
      TS (''Unknown'' @ [CHR 0xE2, CHR 0x80, CHR 0xA6]) '''' '''' False True [''Ezezaguna...''],
      TS (''calculating'' @ [CHR 0xE2, CHR 0x80, CHR 0xA6]) '''' '''' False True [''kalkulatzen...''],
      TS ''Last block time'' '''' '''' False True [''Azken blokearen unea''],
      TS ''Progress'' '''' '''' False True [''Aurrerapena'']])]\<close>

definition eu_12 :: ts_catalogue where
  \<open>eu_12 = [
    (''ModalOverlay'', [
      TS ''Progress increase per hour'' '''' '''' False True [''Aurrerapenaren igoera orduko''],
      TS ''Estimated time left until synced'' '''' '''' False True [''Sinkronizazioa amaitzeko estimatutako denbora geratzen dena.''],
      TS ''Hide'' '''' '''' False True [''Izkutatu''],
      TS ''%1 is currently syncing.  It will download headers and blocks from peers and validate them until reaching the tip of the block chain.'' '''' '''' False True [''%1orain sinkronizatzen ari da. Kideen buruak eta blokeak deskargatuko ditu, eta balioztatuko ditu bloke-katearen punturik gorenera iritsi arte.''],
      TS (''Unknown. Syncing Headers (%1, %2%)'' @ [CHR 0xE2, CHR 0x80, CHR 0xA6]) '''' '''' False True [''Ezezaguna. Buruak sinkronizatzen (%1, %2%)'' @ [CHR 0xE2, CHR 0x80, CHR 0xA6]],
      TS (''Unknown. Pre-syncing Headers (%1, %2%)'' @ [CHR 0xE2, CHR 0x80, CHR 0xA6]) '''' '''' False True [''Ezezaguna. Aurre-sinkronizazio goiburuak (%1, %2%)'' @ [CHR 0xE2, CHR 0x80, CHR 0xA6]]]),
    (''OpenURIDialog'', [
      TS ''Open tknc URI'' '''' '''' False True [''Ireki tknc URIa''],
      TS ''URI:'' '''' '''' False True [''URI: ''],
      TS ''Paste address from clipboard'' '''' ''Tooltip text for button that allows you to paste an address that is in your clipboard.'' False True [''Itsatsi helbidea arbeletik'']]),
    (''OptionsDialog'', [
      TS ''Options'' '''' '''' False True [''Aukerak''],
      TS ''&Main'' '''' '''' False True [''&Nagusia''],
      TS ''Automatically start %1 after logging in to the system.'' '''' '''' False True [''Hasi automatikoki %1 saioa hasi ondoren.''],
      TS ''&Start %1 on system login'' '''' '''' False True [''&Abiarazi %1 sisteman saioa hastean.''],
      TS ''Enabling pruning significantly reduces the disk space required to store transactions. All blocks are still fully validated. Reverting this setting requires re-downloading the entire blockchain.'' '''' '''' False True [''Mozketa gaitzeak nabarmen murrizten du transakzioak gordetzeko behar den disko-lekua. Bloke guztiak oraindik ere erabat baliozkotzen dira. Ezarpen hau atzera botatzeak blockchain osoa berriro deskargatzea eskatzen du.''],
      TS ''Maximum database cache size. Make sure you have enough RAM. A larger cache can contribute to faster sync, after which the benefit is less pronounced for most use cases. Lowering the cache size will reduce memory usage. Unused mempool memory is shared for this cache.'' '''' ''Tooltip text for Options window setting that sets the size of the database cache. Explains the corresponding effects of increasing/decreasing this value.'' False True [''Datu-basearen cachearen gehieneko tamaina. Ziurtatu RAM nahikoa duzula. Cache handiago batek sinkronizazio azkarragoari lagundu diezaioke; sinkronizazioa amaitutakoan, onura hori nabarmen txikiagoa da kasu gehienetan. Cachearen tamaina txikiagotzeak memoria-erabilera murriztuko du. Erabili gabeko mempool memoria cache honetarako partekatzen da.''],
      TS ''Size of &database cache'' '''' '''' False True [''&Datu-basearen cachearen tamaina''],
      TS ''Number of script &verification threads'' '''' '''' False True [''Scripten egiaztapen harien kopurua''],
      TS (''Full path to a %1 compatible script (e.g. C:'' @ [CHR 0x5C] @ ''Downloads'' @ [CHR 0x5C] @ ''hwi.exe or /Users/you/Downloads/hwi.py). Beware: malware can steal your coins!'') '''' '''' False True [''%1rekin bateragarria den script baten bide osoa (adib., C:'' @ [CHR 0x5C] @ ''Downloads'' @ [CHR 0x5C] @ ''hwi.exe edo /Users/you/Downloads/hwi.py). Kontuz: malware-ak zure txanponak lapur ditzake!''],
      TS ''Automatically open the TKNC client port on the router. This only works when your router supports PCP or NAT-PMP and it is enabled. The external port could be random.'' '''' '''' False True [''Bitcoin bezeroaren portua automatikoki ireki router-ean. Honek bakarrik funtzionatzen du zure router-ak PCP edo NAT-PMP onartzen badu eta gaituta badago. Kanpoko portua ausazkoa izan daiteke.''],
      TS ''Map port using PCP or NA&T-PMP'' '''' '''' False True [''Portua mapatu PCP edo NAT-PMP erabiliz''],
      TS ''IP address of the proxy (e.g. IPv4: 127.0.0.1 / IPv6: ::1)'' '''' '''' False True [''Proxyaren IP helbidea  (IPv4: 127.0.0.1 / IPv6: ::1 adibidez )''],
      TS ''Shows if the supplied default SOCKS5 proxy is used to reach peers via this network type.'' '''' '''' False True [''Sare mota honen bidez parekoengana iristeko emandako SOCKS5 proxy lehenetsia erabiltzen den ala ez erakusten du.''],
      TS ''Minimize instead of exit the application when the window is closed. When this option is enabled, the application will be closed only after selecting Exit in the menu.'' '''' '''' False True [''Leihoa itxitzean aplikazioa ixtearen ordez, minimizatu. Aukera hau gaituta dagoenean, aplikazioa soilik itxiko da menuko "Irten" aukera hautatzen denean.''],
      TS ''Font in the Overview tab: '' '''' '''' False True [''"Ikuspegi orokorra" fitxako letra-tipoa:''],
      TS ''Options set in this dialog are overridden by the command line:'' '''' '''' False True [''Elkarrizketa koadro honetan ezarritako aukerak komando-lerroak gainidazten ditu:''],
      TS ''Open the %1 configuration file from the working directory.'' '''' '''' False True [''Ireki %1 lan-direktorioko konfigurazio-fitxategia.''],
      TS ''Open Configuration File'' '''' '''' False True [''Ireki konfigurazio fitxategia''],
      TS ''Reset all client options to default.'' '''' '''' False True [''Bezeroaren aukera guztiak hasieratu.''],
      TS ''&Reset Options'' '''' '''' False True [''&Aukerak Hasieratu''],
      TS ''&Network'' '''' '''' False True [''&Sarea''],
      TS ''Prune &block storage to'' '''' '''' False True [''&Bloke biltegia moztu hona''],
      TS ''Reverting this setting requires re-downloading the entire blockchain.'' '''' '''' False True [''Ezarpen hau atzera botatzeak blockchain osoa berriro deskargatzea eskatzen du.''],
      TS ''Set the number of script verification threads. Negative values correspond to the number of cores you want to leave free to the system.'' '''' ''Tooltip text for Options window setting that sets the number of script verification threads. Explains that negative values mean to leave these many cores free to the system.'' False True [''Ezarri script-egiaztapenerako hari kopurua. Balio negatiboek sistemari libre utzi nahi dizkiozun nukleo kopurua adierazten dute.''],
      TS ''(0 = auto, <0 = leave that many cores free)'' '''' '''' False True [''(0 = automatikoa, <0 = horrenbeste nukleo libre utzi)'']])]\<close>

lemma eu_7_ok: "catalogue_ok 2 eu_7"
  unfolding eu_7_def catalogue_ok_def append_Cons append_Nil
  by (simp add: catalogue_eval del: scan_format.simps(2) qt_markers.simps(2) cong: catalogue_congs)

lemma eu_8_ok: "catalogue_ok 2 eu_8"
  unfolding eu_8_def catalogue_ok_def append_Cons append_Nil
  by (simp add: catalogue_eval del: scan_format.simps(2) qt_markers.simps(2) cong: catalogue_congs)

lemma eu_9_ok: "catalogue_ok 2 eu_9"
  unfolding eu_9_def catalogue_ok_def append_Cons append_Nil
  by (simp add: catalogue_eval del: scan_format.simps(2) qt_markers.simps(2) cong: catalogue_congs)

lemma eu_10_ok: "catalogue_ok 2 eu_10"
  unfolding eu_10_def catalogue_ok_def append_Cons append_Nil
  by (simp add: catalogue_eval del: scan_format.simps(2) qt_markers.simps(2) cong: catalogue_congs)

lemma eu_11_ok: "catalogue_ok 2 eu_11"
  unfolding eu_11_def catalogue_ok_def append_Cons append_Nil
  by (simp add: catalogue_eval del: scan_format.simps(2) qt_markers.simps(2) cong: catalogue_congs)

lemma eu_12_ok: "catalogue_ok 2 eu_12"
  unfolding eu_12_def catalogue_ok_def append_Cons append_Nil
  by (simp add: catalogue_eval del: scan_format.simps(2) qt_markers.simps(2) cong: catalogue_congs)

end
