(* ===== verification/Catalogue_eu_3.thy ===== *)
theory Catalogue_eu_3
  imports Catalogue
begin

text \<open>
  The Basque catalogue (\<open>qt/locale/tknc_eu.ts\<close>), lines 1728 to 2583: one definition for each run of
  messages, in file order, and that the translations of each run keep the parameters of their messages.
\<close>

definition eu_13 :: ts_catalogue where
  \<open>eu_13 = [
    (''OptionsDialog'', [
      TS ''This allows you or a third party tool to communicate with the node through command-line and JSON-RPC commands.'' '''' ''Tooltip text for Options window setting that enables the RPC server.'' False True [''Honek zuri edo hirugarrenen tresna bati uzten dio nodoarekin komunikatzeko komando-lerroaren eta JSON-RPC komandoen bidez.''],
      TS ''Enable R&PC server'' '''' ''An Options window setting to enable the RPC server.'' False True [''R&PC zerbitzaria gaitu''],
      TS ''W&allet'' '''' '''' False True [''Zorroa''],
      TS ''Whether to set subtract fee from amount as default or not.'' '''' ''Tooltip text for Options window setting that sets subtracting the fee from a sending amount as default.'' False True [''Komisioa zenbatekotik kendu lehenetsita ezarri ala ez.''],
      TS ''Subtract &fee from amount by default'' '''' ''An Options window setting to set subtracting the fee from a sending amount as default.'' False True [''Kendu &komisioa zenbatekotik lehenetsita''],
      TS ''Expert'' '''' '''' False True [''Aditu''],
      TS ''Enable coin &control features'' '''' '''' False True [''Diruaren &kontrolaren ezaugarriak gaitu''],
      TS ''If you disable the spending of unconfirmed change, the change from a transaction cannot be used until that transaction has at least one confirmation. This also affects how your balance is computed.'' '''' '''' False True [''Berretsi gabeko itzulketaren gastua desgaitzen baduzu, transakzio baten itzulketa ezin izango da erabili transakzio horrek gutxienez berrespen bat izan arte. Honek zure saldoa nola kalkulatzen den ere eragiten du.''],
      TS ''&Spend unconfirmed change'' '''' '''' False True [''&Gastu berretsi gabeko itzulketa''],
      TS ''Enable &PSBT controls'' '''' ''An options window setting to enable PSBT controls.'' False True [''Gaitu &PSBT kontrolak''],
      TS ''Whether to show PSBT controls.'' '''' ''Tooltip text for options window setting that enables PSBT controls.'' False True [''PSBT kontrolak erakutsiko diren ala ez.''],
      TS ''External Signer (e.g. hardware wallet)'' '''' '''' False True [''Kanpoko sinatzailea (adibidez, hardware zorroa)''],
      TS ''&External signer script path'' '''' '''' False True [''Kanpo sinatzailearen script bidea''],
      TS ''Accept connections from outside.'' '''' '''' False True [''Kanpoko konexioak onartu''],
      TS ''Allow incomin&g connections'' '''' '''' False True [''Sarbide konexioak baimendu''],
      TS ''Connect to the TKNC network through a SOCKS5 proxy.'' '''' '''' False True [''Bitcoin sarearekin konektatu SOCKS5 proxy baten bidez.''],
      TS ''&Connect through SOCKS5 proxy (default proxy):'' '''' '''' False True [''Konektatu SOCKS5 proxy bidez (proxy lehenetsia):''],
      TS ''Proxy &IP:'' '''' '''' False True [''Proxyaren &IP helbidea:''],
      TS ''&Port:'' '''' '''' False True [''&Portua:''],
      TS ''Port of the proxy (e.g. 9050)'' '''' '''' False True [''Proxy portua (9050 adibidez)''],
      TS ''Used for reaching peers via:'' '''' '''' False True [''Parekoengana iristeko erabiltzen da honen bidez:''],
      TS ''&Window'' '''' '''' False True [''&Lehioa''],
      TS ''Show the icon in the system tray.'' '''' '''' False True [''Erakutsi ikonoa sistemaren erretiluan.''],
      TS ''&Show tray icon'' '''' '''' False True [''&Erakutsi erretiluko ikonoa''],
      TS ''Show only a tray icon after minimizing the window.'' '''' '''' False True [''Leihoa minimizatu ondoren, erakutsi erretiluko ikonoa bakarrik.''],
      TS ''&Minimize to the tray instead of the taskbar'' '''' '''' False True [''&Minimizatu erretilura, ez ataz-barrara''],
      TS ''M&inimize on close'' '''' '''' False True [''&Itxitzean minimizatu''],
      TS ''&Display'' '''' '''' False True [''&Pantaila''],
      TS ''User Interface &language:'' '''' '''' False True [''Erabiltzaile interfazearen &hizkuntza:''],
      TS ''The user interface language can be set here. This setting will take effect after restarting %1.'' '''' '''' False True [''Erabiltzaile interfazearen hizkuntza hemen ezar daiteke. Ezarpen hau  %1 berrabiarazi ondoren izango da eraginkorra.''],
      TS ''&Unit to show amounts in:'' '''' '''' False True [''Zenbatekoa azaltzeko &unitatea:''],
      TS ''Choose the default subdivision unit to show in the interface and when sending coins.'' '''' '''' False True [''Hautatu interfazean eta txanponak bidaltzerakoan erakutsiko den unitate azpi-banatu lehenetsia.''],
      TS ''Third-party URLs (e.g. a block explorer) that appear in the transactions tab as context menu items. %s in the URL is replaced by transaction hash. Multiple URLs are separated by vertical bar |.'' '''' '''' False True [''Hirugarrenen URLak (adibidez, blokeen arakatzailea), zeinak transakzioen fitxan agertzen diren testuinguru-menuaren elementu gisa. URLko %seremua transakzioen hash-ekin ordezkatzen da. URL anitzak barra bertikalez | bereizten dira.''],
      TS ''&Third-party transaction URLs'' '''' '''' False True [''&Hirugarrenen transakzio URLak'']])]\<close>

definition eu_14 :: ts_catalogue where
  \<open>eu_14 = [
    (''OptionsDialog'', [
      TS ''Whether to show coin control features or not.'' '''' '''' False True [''Moneta kontrolerako ezaugarriak erakutsi ala ez.''],
      TS ''Connect to the TKNC network through a separate SOCKS5 proxy for Tor onion services.'' '''' '''' False True [''Bitcoin sarearekin konektatu Tor onion zerbitzuetarako bereizitako SOCKS5 proxy baten bidez.''],
      TS ''Use separate SOCKS&5 proxy to reach peers via Tor onion services:'' '''' '''' False True [''Erabili bereizitako SOCKS&5 proxy bat lagunak Tor onion zerbitzuen bidez konektatzeko:''],
      TS ''&OK'' '''' '''' False True [''&Ados''],
      TS ''&Cancel'' '''' '''' False True [''&Ezeztatu''],
      TS ''Compiled without external signing support (required for external signing)'' '''' ''"External signing" means using devices such as hardware wallets.'' False True [''Kanpoko sinatze euskarririk gabe konpilatu da (kanpoko sinatzeetarako beharrezkoa).''],
      TS ''default'' '''' '''' False True [''lehenetsi''],
      TS ''none'' '''' '''' False True [''Bat ere ez''],
      TS ''Confirm options reset'' '''' ''Window title text of pop-up window shown when the user has chosen to reset options.'' False True [''Berretsi aukeren berrezarpena''],
      TS ''Client restart required to activate changes.'' '''' ''Text explaining that the settings changed will not come into effect until the client is restarted.'' False True [''Bezeroa berrabiarazi behar da aldaketak aktibatzeko.''],
      TS ''Current settings will be backed up at "%1".'' '''' ''Text explaining to the user that the client's current settings will be backed up at a specific location. %1 is a stand-in argument for the backup location's path.'' False True [''Uneko ezarpenak hemen gordeko dira babeskopia gisa: "%1".''],
      TS ''Client will be shut down. Do you want to proceed?'' '''' ''Text asking the user to confirm if they would like to proceed with a client shutdown.'' False True [''Bezeroa itzaliko da. Jarraitu nahi duzu?''],
      TS ''Configuration options'' '''' ''Window title text of pop-up box that allows opening up of configuration file.'' False True [''Konfiguraketa aukerak''],
      TS ''The configuration file is used to specify advanced user options which override GUI settings. Additionally, any command-line options will override this configuration file.'' '''' ''Explanatory text about the priority order of instructions considered by client. The order from high to low being: command-line, configuration file, GUI settings.'' False True [''Konfigurazio fitxategia erabiltzaile aurreratuek erabil ditzaketen aukerak zehazteko erabiltzen da, eta aukera horiek interfaze grafikoaren ezarpenak gainidazten dituzte. Horrez gain, komando lerroko edozein aukera konfigurazio fitxategi honen gainetik izango da.''],
      TS ''Continue'' '''' '''' False True [''Jarraitu''],
      TS ''Cancel'' '''' '''' False True [''Ezeztatu''],
      TS ''Error'' '''' '''' False True [''Errorea''],
      TS ''The configuration file could not be opened.'' '''' '''' False True [''Konfigurazio fitxategia ezin izan da ireki.''],
      TS ''This change would require a client restart.'' '''' '''' False True [''Aldaketa honek bezeroa berrabiaraztea eskatzen du.''],
      TS ''The supplied proxy address is invalid.'' '''' '''' False True [''Zehaztutako proxy helbidea baliogabea da.'']]),
    (''OptionsModel'', [
      TS ''Could not read setting "%1", %2.'' '''' '''' False True [''Ezin izan da "%1" ezarpena irakurri%2.'']]),
    (''OverviewPage'', [
      TS ''Form'' '''' '''' False True [''Inprimakia''],
      TS ''The displayed information may be out of date. Your wallet automatically synchronizes with the TKNC network after a connection is established, but this process has not completed yet.'' '''' '''' False True [''Erakutsitako informazioa zaharkituta egon daiteke. Zure zorroak automatikoki sinkronizatzen du Bitcoin sarearekin konexioa ezarri ondoren, baina prozesu hori oraindik ez da amaitu.''],
      TS ''Available:'' '''' '''' False True [''Eskuragarri:''],
      TS ''Your current spendable balance'' '''' '''' False True [''Zure une honetako erabilgarri dagoen saldoa.''],
      TS ''Pending:'' '''' '''' False True [''Zain:''],
      TS ''Total of transactions that have yet to be confirmed, and do not yet count toward the spendable balance'' '''' '''' False True [''Oraindik berretsi ez diren eta gastagarri gisa zenbatzen ez diren transakzioen guztizkoa.''],
      TS ''Immature:'' '''' '''' False True [''Heldugabe:''],
      TS ''Mined balance that has not yet matured'' '''' '''' False True [''Meatzaritzaz lortutako, baina oraindik heldu ez den saldoa.''],
      TS ''Balances'' '''' '''' False True [''Saldoa''],
      TS ''Total:'' '''' '''' False True [''Guztira:''],
      TS ''Your current total balance'' '''' '''' False True [''Zure une honetako saldo osoa.''],
      TS ''Recent transactions'' '''' '''' False True [''Transakzio berriak'']])]\<close>

definition eu_15 :: ts_catalogue where
  \<open>eu_15 = [
    (''OverviewPage'', [
      TS ''Privacy mode activated for the Overview tab. To unmask the values, uncheck Settings->Mask values.'' '''' '''' False True [''Pribatutasun modua aktibatuta Datuen ikuspegi orokorra fitxan. Balioak ikusteko, desmarkatu Ezarpenak -> Balioak ezkutatu aukera.'']]),
    (''PSBTOperationsDialog'', [
      TS ''PSBT Operations'' '''' '''' False True [''PSBT Operazioak''],
      TS ''Sign Tx'' '''' '''' False True [''Sinatu Tx''],
      TS ''Broadcast Tx'' '''' '''' False True [''Transakzioa igorri''],
      TS ''Copy to Clipboard'' '''' '''' False True [''Kopiatu arbelera''],
      TS (''Save'' @ [CHR 0xE2, CHR 0x80, CHR 0xA6]) '''' '''' False True [''Gorde...''],
      TS ''Close'' '''' '''' False True [''Itxi''],
      TS ''Failed to load transaction: %1'' '''' '''' False True [''Transakzioa kargatzean errorea gertatu da: %1''],
      TS ''Failed to sign transaction: %1'' '''' '''' False True [''Transakzioa sinatzeak huts egin du:%1''],
      TS ''Cannot sign inputs while wallet is locked.'' '''' '''' False True [''Ezin dira sarrerak sinatu zorroa giltzatuta dagoen bitartean.''],
      TS ''Could not sign any more inputs.'' '''' '''' False True [''Ezin izan dira beste sarrera gehiago sinatu.''],
      TS ''Signed %n input(s), but more signatures are still required.'' '''' '''' True True ['''', ''''],
      TS ''Signed transaction successfully. Transaction is ready to broadcast.'' '''' '''' False True [''Transakzioa arrakastaz sinatu da. Transakzioa zabaltzeko prest dago.''],
      TS ''Unknown error processing transaction.'' '''' '''' False True [''Errore ezezaguna gertatu da transakzioa prozesatzean.''],
      TS ''Transaction broadcast successfully! Transaction ID: %1'' '''' '''' False True [''Transakzioa arrakastaz zabaldu da! Transakzioaren IDa: %1''],
      TS ''Transaction broadcast failed: %1'' '''' '''' False True [''Transakzioaren zabalkundeak huts egin du: %1''],
      TS ''PSBT copied to clipboard.'' '''' '''' False True [''PSBT arbelera kopiatu da.''],
      TS ''Save Transaction Data'' '''' '''' False True [''Gorde transakzioko data''],
      TS ''Partially Signed Transaction (Binary)'' '''' ''Expanded name of the binary PSBT file format. See: BIP 174.'' False True [''Zati batean sinatutako transakzioa (bitarra)''],
      TS ''PSBT saved to disk.'' '''' '''' False True [''PSBT diskoan gorde da.''],
      TS ''Sends %1 to %2'' '''' '''' False True [''%1Bidaltzen dio%2''],
      TS ''own address'' '''' '''' False True [''zure helbidea''],
      TS ''Unable to calculate transaction fee or total transaction amount.'' '''' '''' False True [''Ezin da transakzioaren kuota edo transakzioaren zenbateko osoa kalkulatu.''],
      TS ''Pays transaction fee: '' '''' '''' False True [''Transakzioaren kuota ordaintzen du:''],
      TS ''Total Amount'' '''' '''' False True [''Kopuru osoa''],
      TS ''or'' '''' '''' False True [''edo''],
      TS ''Transaction has %n unsigned input(s).'' '''' '''' True True ['''', ''''],
      TS ''Transaction is missing some information about inputs.'' '''' '''' False True [''Transakzioak sarrerei buruzko informazio batzuk falta ditu.''],
      TS ''Transaction still needs signature(s).'' '''' '''' False True [''Transakzioak oraindik sinadura(k) behar ditu.''],
      TS ''(But no wallet is loaded.)'' '''' '''' False True [''(Baina ez da zorroarik kargatu.)''],
      TS ''(But this wallet cannot sign transactions.)'' '''' '''' False True [''(Baina zorro honek ezin ditu transakzioak sinatu.)''],
      TS ''(But this wallet does not have the right keys.)'' '''' '''' False True [''(Baina zorro honek ez ditu gako egokiak.)''],
      TS ''Transaction is fully signed and ready for broadcast.'' '''' '''' False True [''Transakzioa erabat sinatuta dago eta zabaltzeko prest.'']])]\<close>

definition eu_16 :: ts_catalogue where
  \<open>eu_16 = [
    (''PSBTOperationsDialog'', [
      TS ''Transaction status is unknown.'' '''' '''' False True [''Transakzioaren egoera ezezaguna da.'']]),
    (''PaymentServer'', [
      TS ''Payment request error'' '''' '''' False True [''Ordainketa eskaera akatsa''],
      TS ''Cannot start tknc: click-to-pay handler'' '''' '''' False True [''Ezin da TKNC abiarazi: klik-ordaintzeko kudeatzailea.''],
      TS ''URI handling'' '''' '''' False True [''URI kudeaketa''],
      TS ([CHR 0x27] @ ''tknc://' is not a valid URI. Use 'tknc:' instead.'') '''' '''' False True [[CHR 0x27] @ ''tknc://' ez da URI balioduna. Erabili 'tknc:' horren ordez.''],
      TS (''Cannot process payment request because BIP70 is not supported.'' @ [CHR 0x0A] @ ''Due to widespread security flaws in BIP70 it's strongly recommended that any merchant instructions to switch wallets be ignored.'' @ [CHR 0x0A] @ ''If you are receiving this error you should request the merchant provide a BIP21 compatible URI.'') '''' '''' False True [''Ezin da ordainketa eskaera prozesatu BIP70 onartzen ez delako.'' @ [CHR 0x0A] @ ''BIP70en segurtasun-gabezia zabalengatik, irmoki gomendatzen da merkatariek diru-zorroa aldatzeko emandako jarraibideak ez ikustea.'' @ [CHR 0x0A] @ ''Errore hau jasotzen baduzu, merkatariei BIP21-arekin bateragarria den URI bat emateko eskatu beharko zenieke''],
      TS ''URI cannot be parsed! This can be caused by an invalid TKNC address or malformed URI parameters.'' '''' '''' False True [''URIa ezin da analizatu! Hau Bitcoin helbide baliogabe batek edo gaizki osatutako URI parametroek eragin dezakete.''],
      TS ''Payment request file handling'' '''' '''' False True [''Ordainketa eskaera fitxategiaren kudeaketa.'']]),
    (''PeerTableModel'', [
      TS ''User Agent'' '''' ''Title of Peers Table column which contains the peer's User Agent string.'' False True [''Erabiltzaile agentea''],
      TS ''Peer'' '''' ''Title of Peers Table column which contains a unique number used to identify a connection.'' False True [''Kidea''],
      TS ''Age'' '''' ''Title of Peers Table column which indicates the duration (length of time) since the peer connection started.'' False True [''Adina''],
      TS ''Direction'' '''' ''Title of Peers Table column which indicates the direction the peer connection was initiated from.'' False True [''Norabidea''],
      TS ''Sent'' '''' ''Title of Peers Table column which indicates the total amount of network information we have sent to the peer.'' False True [''Bidalia''],
      TS ''Received'' '''' ''Title of Peers Table column which indicates the total amount of network information we have received from the peer.'' False True [''Jasoa''],
      TS ''Address'' '''' ''Title of Peers Table column which contains the IP/Onion/I2P address of the connected peer.'' False True [''Helbidea''],
      TS ''Type'' '''' ''Title of Peers Table column which describes the type of peer connection. The "type" describes why the connection exists.'' False True [''Mota''],
      TS ''Network'' '''' ''Title of Peers Table column which states the network the peer connected through.'' False True [''Sarea''],
      TS ''Inbound'' '''' ''An Inbound Connection from a Peer.'' False True [''Sarrerakoa''],
      TS ''Outbound'' '''' ''An Outbound Connection to a Peer.'' False True [''Irteerakoa'']]),
    (''QRImageWidget'', [
      TS (''&Save Image'' @ [CHR 0xE2, CHR 0x80, CHR 0xA6]) '''' '''' False True [''&Gorde irudia...''],
      TS ''&Copy Image'' '''' '''' False True [''&kopiatu irudia''],
      TS ''Resulting URI too long, try to reduce the text for label / message.'' '''' '''' False True [''Emaitza gisa lortutako URIa luzeegia da; saiatu etiketa / mezuko testua laburtzen.''],
      TS ''Error encoding URI into QR Code.'' '''' '''' False True [''Errorea URIa QR kodean kodetzean.''],
      TS ''QR code support not available.'' '''' '''' False True [''QR kodearen euskarria ez dago eskuragarri.''],
      TS ''Save QR Code'' '''' '''' False True [''Gorde QR kodea''],
      TS ''PNG Image'' '''' ''Expanded name of the PNG file format. See: https://en.wikipedia.org/wiki/Portable_Network_Graphics.'' False True [''PNG irudia'']]),
    (''RPCConsole'', [
      TS ''Client version'' '''' '''' False True [''Bezeroaren bertsioa''],
      TS ''&Information'' '''' '''' False True [''&Informazioa''],
      TS ''General'' '''' '''' False True [''Orokorra'']])]\<close>

definition eu_17 :: ts_catalogue where
  \<open>eu_17 = [
    (''RPCConsole'', [
      TS ''Datadir'' '''' '''' False True [''Datu direktorioa''],
      TS ''To specify a non-default location of the data directory use the '%1' option.'' '''' '''' False True [''Datu-direktorioaren kokapen lehenetsia ez den bat zehazteko, erabili '%1' aukera.''],
      TS ''Blocksdir'' '''' '''' False True [''Blokeen direktorioa''],
      TS ''To specify a non-default location of the blocks directory use the '%1' option.'' '''' '''' False True [''Bloke-direktorioaren kokapen lehenetsia ez den bat zehazteko, erabili '%1' aukera.''],
      TS ''Startup time'' '''' '''' False True [''Abiatzeko ordua''],
      TS ''Network'' '''' '''' False True [''Sarea''],
      TS ''Name'' '''' '''' False True [''Izena''],
      TS ''Number of connections'' '''' '''' False True [''Konexio kopurua''],
      TS ''Local Addresses'' '''' '''' False True [''Helbide Lokalak''],
      TS ''Network addresses that your TKNC node is currently using to communicate with other nodes.'' '''' '''' False True [''Zure Bitcoin nodoak beste nodoekin komunikatzeko une honetan erabiltzen dituen sare-helbideak.''],
      TS ''Block chain'' '''' '''' False True [''Bloke-katea.''],
      TS ''Memory Pool'' '''' '''' False True [''Memoria Pool-a''],
      TS ''Current number of transactions'' '''' '''' False True [''Uneko transakzio kopurua''],
      TS ''Memory usage'' '''' '''' False True [''Memoria erabilera''],
      TS ''Wallet: '' '''' '''' False True [''Zorroa:''],
      TS ''(none)'' '''' '''' False True [''(bat ere ez)''],
      TS ''&Reset'' '''' '''' False True [''&Berrezarri''],
      TS ''Received'' '''' '''' False True [''Jasoa''],
      TS ''Sent'' '''' '''' False True [''Bidalia''],
      TS ''&Peers'' '''' '''' False True [''&Pareak''],
      TS ''Banned peers'' '''' '''' False True [''Debekatutako pareak''],
      TS ''Select a peer to view detailed information.'' '''' '''' False True [''Hautatu pare bat xehetasunak ikusteko.''],
      TS ''Hide Peers Detail'' '''' '''' False True [''Ezkutatu pareen xehetasunak''],
      TS ''The transport layer version: %1'' '''' '''' False True [''Garraio geruzako bertsioa:%1''],
      TS ''Transport'' '''' '''' False True [''Garraioa''],
      TS ''Session ID'' '''' '''' False True [''Saioaren IDa''],
      TS ''Version'' '''' '''' False True [''Bertsioa''],
      TS ''Whether we relay transactions to this peer.'' '''' '''' False True [''Pare honi transakzioak igortzen dizkiogun ala ez.''],
      TS ''Transaction Relay'' '''' '''' False True [''Transakzioen igorpena''],
      TS ''Synced Headers'' '''' '''' False True [''Sinkronizatutako Goiburuak''],
      TS ''Synced Blocks'' '''' '''' False True [''Sinkronizatutako Blokeak''],
      TS ''Last Transaction'' '''' '''' False True [''Azken Transakzioa''],
      TS ''The mapped Autonomous System used for diversifying peer selection.'' '''' '''' False True [''Pareen hautaketa dibertsifikatzeko erabiltzen den sistema autonomo mapatua.''],
      TS ''Mapped AS'' '''' '''' False True [''Mapaturiko ASa''],
      TS ''Whether we relay addresses to this peer.'' '''' ''Tooltip text for the Address Relay field in the peer details area, which displays whether we relay addresses to this peer (Yes/No).'' False True [''Pare honi helbideak igortzen dizkiogun ala ez.'']])]\<close>

definition eu_18 :: ts_catalogue where
  \<open>eu_18 = [
    (''RPCConsole'', [
      TS ''Address Relay'' '''' ''Text title for the Address Relay field in the peer details area, which displays whether we relay addresses to this peer (Yes/No).'' False True [''Helbideen igorpena.''],
      TS ''The total number of addresses received from this peer that were processed (excludes addresses that were dropped due to rate-limiting).'' '''' ''Tooltip text for the Addresses Processed field in the peer details area, which displays the total number of addresses received from this peer that were processed (excludes addresses that were dropped due to rate-limiting).'' False True [''Pare honetatik jasotako eta prozesatutako helbide guztien kopurua (tasa-mugak direla eta baztertutako helbideak ez dira barne hartzen).''],
      TS ''The total number of addresses received from this peer that were dropped (not processed) due to rate-limiting.'' '''' ''Tooltip text for the Addresses Rate-Limited field in the peer details area, which displays the total number of addresses received from this peer that were dropped (not processed) due to rate-limiting.'' False True [''Pare honetatik jasotako eta tasa-mugatzeagatik baztertu diren (ez prozesatutako) helbide guztien kopurua.''],
      TS ''Addresses Processed'' '''' ''Text title for the Addresses Processed field in the peer details area, which displays the total number of addresses received from this peer that were processed (excludes addresses that were dropped due to rate-limiting).'' False True [''Prozesatutako Helbideak''],
      TS ''Addresses Rate-Limited'' '''' ''Text title for the Addresses Rate-Limited field in the peer details area, which displays the total number of addresses received from this peer that were dropped (not processed) due to rate-limiting.'' False True [''Abiadura Mugatutako Helbideak''],
      TS ''User Agent'' '''' '''' False True [''Erabiltzaile agentea''],
      TS ''Node window'' '''' '''' False True [''Adabegiaren leihoa''],
      TS ''Current block height'' '''' '''' False True [''Uneko blokearen altuera''],
      TS ''Open the %1 debug log file from the current data directory. This can take a few seconds for large log files.'' '''' '''' False True [''Ireki %1 arazketa-erregistroaren fitxategia uneko datu-direktorioan. Erregistro-fitxategia handia bada, segundo batzuk behar izan ditzake.''],
      TS ''Decrease font size'' '''' '''' False True [''Letra tamaina txikiagotu''],
      TS ''Increase font size'' '''' '''' False True [''Letra tamaina handiagotu''],
      TS ''Permissions'' '''' '''' False True [''Baimenak''],
      TS ''The direction and type of peer connection: %1'' '''' '''' False True [''Pare-konexioaren noranzkoa eta mota: %1''],
      TS ''Direction/Type'' '''' '''' False True [''Norabidea/Mota''],
      TS ''The BIP324 session ID string in hex.'' '''' '''' False True [''BIP324 saioaren ID katea hamaseitarrean.''],
      TS ''The network protocol this peer is connected through: IPv4, IPv6, Onion, I2P, or CJDNS.'' '''' '''' False True [''Sare-protokoloa, lagun hau honen bidez konektatuta dagoena: IPv4, IPv6, Onion, I2P edo CJDNS.''],
      TS ''Services'' '''' '''' False True [''Zerbitzuak''],
      TS ''High bandwidth BIP152 compact block relay: %1'' '''' '''' False True [''Banda zabal handiko BIP152 bloke trinkoaren errepikapena:%1''],
      TS ''High Bandwidth'' '''' '''' False True [''Banda Zabala''],
      TS ''Connection Time'' '''' '''' False True [''Konexio denbora''],
      TS ''Elapsed time since a novel block passing initial validity checks was received from this peer.'' '''' '''' False True [''Pare honetatik baliozkotasun-hasierako egiaztapenak gainditu dituen bloke berritzaile bat jaso zenetik igarotako denbora.''],
      TS ''Last Block'' '''' '''' False True [''Azken Blokea''],
      TS ''Elapsed time since a novel transaction accepted into our mempool was received from this peer.'' '''' ''Tooltip text for the Last Transaction field in the peer details area.'' False True [''Pare honetatik gure memoria-igerilekuan onartu den transakzio berritzaile bat jaso zenetik igarotako denbora.''],
      TS ''Last Send'' '''' '''' False True [''Azken Bidalketa''],
      TS ''Last Receive'' '''' '''' False True [''Azken Jasoketa''],
      TS ''Ping Time'' '''' '''' False True [''Pingaren Denbora''],
      TS ''The duration of a currently outstanding ping.'' '''' '''' False True [''Uneko ping batzuen iraupena.''],
      TS ''Ping Wait'' '''' '''' False True [''Pingaren Itxaronaldia''],
      TS ''Min Ping'' '''' '''' False True [''Gutxieneko Ping-a''],
      TS ''Time Offset'' '''' '''' False True [''Denbora desplazamendua''],
      TS ''Last block time'' '''' '''' False True [''Azken blokearen unea''],
      TS ''&Open'' '''' '''' False True [''&Ireki''],
      TS ''&Console'' '''' '''' False True [''&Kontsola''],
      TS ''&Network Traffic'' '''' '''' False True [''&Sareko Trafikoa'']])]\<close>

lemma eu_13_ok: "catalogue_ok 2 eu_13"
  unfolding eu_13_def catalogue_ok_def append_Cons append_Nil
  by (simp add: catalogue_eval del: scan_format.simps(2) qt_markers.simps(2) cong: catalogue_congs)

lemma eu_14_ok: "catalogue_ok 2 eu_14"
  unfolding eu_14_def catalogue_ok_def append_Cons append_Nil
  by (simp add: catalogue_eval del: scan_format.simps(2) qt_markers.simps(2) cong: catalogue_congs)

lemma eu_15_ok: "catalogue_ok 2 eu_15"
  unfolding eu_15_def catalogue_ok_def append_Cons append_Nil
  by (simp add: catalogue_eval del: scan_format.simps(2) qt_markers.simps(2) cong: catalogue_congs)

lemma eu_16_ok: "catalogue_ok 2 eu_16"
  unfolding eu_16_def catalogue_ok_def append_Cons append_Nil
  by (simp add: catalogue_eval del: scan_format.simps(2) qt_markers.simps(2) cong: catalogue_congs)

lemma eu_17_ok: "catalogue_ok 2 eu_17"
  unfolding eu_17_def catalogue_ok_def append_Cons append_Nil
  by (simp add: catalogue_eval del: scan_format.simps(2) qt_markers.simps(2) cong: catalogue_congs)

lemma eu_18_ok: "catalogue_ok 2 eu_18"
  unfolding eu_18_def catalogue_ok_def append_Cons append_Nil
  by (simp add: catalogue_eval del: scan_format.simps(2) qt_markers.simps(2) cong: catalogue_congs)

end
