(* ===== verification/Catalogue_eu_4.thy ===== *)
theory Catalogue_eu_4
  imports Catalogue
begin

text \<open>
  The Basque catalogue (\<open>qt/locale/tknc_eu.ts\<close>), lines 2584 to 3440: one definition for each run of
  messages, in file order, and that the translations of each run keep the parameters of their messages.
\<close>

definition eu_19 :: ts_catalogue where
  \<open>eu_19 = [
    (''RPCConsole'', [
      TS ''Totals'' '''' '''' False True [''Guztira''],
      TS ''Debug log file'' '''' '''' False True [''Arazketa-erregistroaren fitxategia''],
      TS ''Clear console'' '''' '''' False True [''Garbitu kontsola''],
      TS ''In:'' '''' '''' False True [''Sarrera:''],
      TS ''Out:'' '''' '''' False True [''Irteera:''],
      TS ''Inbound: initiated by peer'' '''' ''Explanatory text for an inbound peer connection.'' False True [''Sarrerakoa: pareak hasi du.''],
      TS ''Outbound Full Relay: default'' '''' ''Explanatory text for an outbound peer connection that relays all network information. This is the default behavior for outbound connections.'' False True [''Irteerakoa Igorpen Osoarekin: lehenetsia.''],
      TS ''Outbound Block Relay: does not relay transactions or addresses'' '''' ''Explanatory text for an outbound peer connection that relays network information about blocks and not transactions or addresses.'' False True [''Irteerako Bloke-Igorpena: ez ditu transakzioak ezta helbideak ere igortzen''],
      TS ''Outbound Manual: added using RPC %1 or %2/%3 configuration options'' '''' ''Explanatory text for an outbound peer connection that was established manually through one of several methods. The numbered arguments are stand-ins for the methods available to establish manual connections.'' False True [''Irteerako Eskuzkoa: RPC %1bidez gehitua edo%2 / %3konfigurazio aukerak''],
      TS ''Outbound Feeler: short-lived, for testing addresses'' '''' ''Explanatory text for a short-lived outbound peer connection that is used to test the aliveness of known addresses.'' False True [''Irteerako Probatzailea: iraupen laburrekoa, helbideak probatzeko''],
      TS ''Outbound Address Fetch: short-lived, for soliciting addresses'' '''' ''Explanatory text for a short-lived outbound peer connection that is used to request addresses from a peer.'' False True [''Irteerako Helbideen Eskuraketa: iraupen laburrekoa, helbideak eskuratzeko''],
      TS ''Private broadcast: short-lived, for broadcasting privacy-sensitive transactions'' '''' ''Explanatory text for a short-lived outbound peer connection that is used to broadcast privacy-sensitive data (like our transactions).'' False True [''Emisio pribatua: iraupen laburrekoa, pribatutasunarekiko sentikorrak diren transakzioak zabaltzeko.''],
      TS ''detecting: peer could be v1 or v2'' '''' ''Explanatory text for "detecting" transport type.'' False True [''detektatzen: parea v1 edo v2 izan daiteke.''],
      TS ''v1: unencrypted, plaintext transport protocol'' '''' ''Explanatory text for v1 transport type.'' False True [''v1: zifratu gabea, testu lauzko garraio-protokoloa.''],
      TS ''v2: BIP324 encrypted transport protocol'' '''' ''Explanatory text for v2 transport type.'' False True [''v2: BIP324 bidez zifratutako garraio-protokoloa.''],
      TS ''we selected the peer for high bandwidth relay'' '''' '''' False True [''Banda zabal handiko igorpenerako hautatu dugu pare hau''],
      TS ''the peer selected us for high bandwidth relay'' '''' '''' False True [''Pareak gu hautatu gaitu banda zabal handiko igorpenerako''],
      TS ''no high bandwidth relay selected'' '''' '''' False True [''Ez da banda zabal handiko igorle hautatu''],
      TS ''&Copy address'' '''' ''Context menu action to copy the address of a peer.'' False True [''&Helbidea kopiatu''],
      TS ''&Disconnect'' '''' '''' False True [''&Deskonektatu''],
      TS ''1 &hour'' '''' '''' False True [''1 &ordu''],
      TS ''1 d&ay'' '''' '''' False True [''1 &egun''],
      TS ''1 &week'' '''' '''' False True [''1 &aste''],
      TS ''1 &year'' '''' '''' False True [''1 &urte''],
      TS ''&Copy IP/Netmask'' '''' ''Context menu action to copy the IP/Netmask of a banned peer. IP/Netmask is the combination of a peer's IP address and its Netmask. For IP address, see: https://en.wikipedia.org/wiki/IP_address.'' False True [''Kopiatu IP/Sare-maskara''],
      TS ''&Unban'' '''' '''' False True [''&Desblokeatu''],
      TS ''Network activity disabled'' '''' '''' False True [''Sareko jarduera desgaituta''],
      TS ''None'' '''' '''' False True [''Bat ere ez''],
      TS ''Executing command without any wallet'' '''' '''' False True [''Komandoa zorrorik gabe exekutatzen''],
      TS ''Node window - [%1]'' '''' '''' False True [''Nodo leihoa - [%1]''],
      TS ''Executing command using "%1" wallet'' '''' '''' False True [''"%1" zorroa erabiliz komandoa exekutatzen.'']])]\<close>

definition eu_20 :: ts_catalogue where
  \<open>eu_20 = [
    (''RPCConsole'', [
      TS (''Welcome to the %1 RPC console.'' @ [CHR 0x0A] @ ''Use up and down arrows to navigate history, and %2 to clear screen.'' @ [CHR 0x0A] @ ''Use %3 and %4 to increase or decrease the font size.'' @ [CHR 0x0A] @ ''Type %5 for an overview of available commands.'' @ [CHR 0x0A] @ ''For more information on using this console, type %6.'' @ [CHR 0x0A, CHR 0x0A] @ ''%7WARNING: Scammers have been active, telling users to type commands here, stealing their wallet contents. Do not use this console without fully understanding the ramifications of a command.%8'') '''' ''RPC console welcome message. Placeholders %7 and %8 are style tags for the warning content, and they are not space separated from the rest of the text intentionally.'' False True [''Ongi etorri %1RPC kontsolara.'' @ [CHR 0x0A] @ ''Erabili gezi-gora eta gezi-behera historia nabigatzeko, eta %2pantaila garbitzeko.'' @ [CHR 0x0A] @ ''Erabili %3eta%4 letra-tamaina handitzeko edo txikitzeko.'' @ [CHR 0x0A] @ ''Idatzi %5eskuragarri dauden %6komandoen ikuspegi orokorra ikusteko.'' @ [CHR 0x0A] @ ''Kontsola hau erabiltzeko informazio gehiago nahi izanez gero, idatzi .'' @ [CHR 0x0A, CHR 0x0A] @ ''%7ABISUA: Iruzurgileak jardunean ibili dira, erabiltzaileei hemen komandoak idazteko esanez eta haien diru-zorroko edukia lapurtuz. Ez erabili kontsola hau %8komando baten ondorioak guztiz ulertu gabe.''],
      TS (''Executing'' @ [CHR 0xE2, CHR 0x80, CHR 0xA6]) '''' ''A console message indicating an entered command is currently being executed.'' False True [''Exekutatzen...''],
      TS ''(peer: %1)'' '''' '''' False True [''(parea: %1)''],
      TS ''via %1'' '''' '''' False True [''%1bidez''],
      TS ''Yes'' '''' '''' False True [''Bai''],
      TS ''No'' '''' '''' False True [''Ez''],
      TS ''To'' '''' '''' False True [''Ra''],
      TS ''From'' '''' '''' False True [''Tik''],
      TS ''Ban for'' '''' '''' False True [''Blokeo honentzat:''],
      TS ''Never'' '''' '''' False True [''Inoiz ez''],
      TS ''Unknown'' '''' '''' False True [''Ezezaguna'']]),
    (''ReceiveCoinsDialog'', [
      TS ''&Amount:'' '''' '''' False True [''&Kopurua:''],
      TS ''&Label:'' '''' '''' False True [''&Etiketa:''],
      TS ''&Message:'' '''' '''' False True [''&Mezua:''],
      TS ''An optional message to attach to the payment request, which will be displayed when the request is opened. Note: The message will not be sent with the payment over the TKNC network.'' '''' '''' False True [''Ordainketa eskaerari erants dakiokeen mezu aukerakoa, eskaera irekitzen denean bistaratuko dena. Oharra: mezua ez da TKNC sarean zehar bidaliko ordainketarekin batera.''],
      TS ''An optional label to associate with the new receiving address.'' '''' '''' False True [''Etiketa aukerakoa, jaso beharreko helbide berriarekin lotzeko.''],
      TS ''Use this form to request payments. All fields are <b>optional</b>.'' '''' '''' False True [''Erabili formulario hau ordainketak eskatzeko. Eremu guztiak <b>aukerakoak</b> dira.''],
      TS ''An optional amount to request. Leave this empty or zero to not request a specific amount.'' '''' '''' False True [''Eskatu beharreko zenbateko aukerakoa. Utzi hutsik edo zeroan, zenbateko zehatzik ez eskatzeko.''],
      TS ''An optional label to associate with the new receiving address (used by you to identify an invoice).  It is also attached to the payment request.'' '''' '''' False True [''Etiketa aukerakoa, jaso beharreko helbide berriarekin lotzeko (zure faktura identifikatzeko erabilia). Ordainketa eskaerari ere erantsita egongo da.''],
      TS ''An optional message that is attached to the payment request and may be displayed to the sender.'' '''' '''' False True [''Ordainketa-eskaerari erantsitako mezu aukerakoa, eta igorleari bistara dakiokeena.''],
      TS ''&Create new receiving address'' '''' '''' False True [''&Sortu jasotzeko helbide berria''],
      TS ''Clear all fields of the form.'' '''' '''' False True [''Garbitu formularioaren eremu guztiak.''],
      TS ''Clear'' '''' '''' False True [''Garbitu''],
      TS ''Requested payments history'' '''' '''' False True [''Eskatutako ordainketen historia''],
      TS ''Show the selected request (does the same as double clicking an entry)'' '''' '''' False True [''Erakutsi hautatutako eskaera (sarrera batean klik bikoitza egiteak egiten duen gauza bera).''],
      TS ''Show'' '''' '''' False True [''Erakutsi''],
      TS ''Remove the selected entries from the list'' '''' '''' False True [''Kendu hautatutako sarrerak zerrendatik''],
      TS ''Remove'' '''' '''' False True [''Ezabatu''],
      TS ''Copy &URI'' '''' '''' False True [''Kopiatu &URI''],
      TS ''&Copy address'' '''' '''' False True [''&Helbidea kopiatu''],
      TS ''Copy &label'' '''' '''' False True [''Kopiatu &Etiketa''],
      TS ''Copy &message'' '''' '''' False True [''Kopiatu &mezua'']])]\<close>

definition eu_21 :: ts_catalogue where
  \<open>eu_21 = [
    (''ReceiveCoinsDialog'', [
      TS ''Copy &amount'' '''' '''' False True [''Kopiatu kopurua''],
      TS ''Not recommended due to higher fees and less protection against typos.'' '''' '''' False True [''Ez da gomendagarria kuota handiagoengatik eta akats tipografikoen aurkako babes txikiagoagatik.''],
      TS ''Generates an address compatible with older wallets.'' '''' '''' False True [''Zorro zaharrekin bateragarria den helbide bat sortzen du.''],
      TS ''Generates a native segwit address (BIP-173). Some old wallets don't support it.'' '''' '''' False True [''Segwit jatorrizko helbidea sortzen du (BIP-173). Zorro zahar batzuek ez dute onartzen.''],
      TS ''Bech32m (BIP-350) is an upgrade to Bech32, wallet support is still limited.'' '''' '''' False True [''Bech32m (BIP-350) Bech32ren bertsio hobetu bat da; hala ere, zorroen euskarria oraindik mugatua da.''],
      TS ''Could not unlock wallet.'' '''' '''' False True [''Ezin izan da zorroa desblokeatu.''],
      TS ''Could not generate new %1 address'' '''' '''' False True [''Ezin izan da %1 helbide berria sortu.'']]),
    (''ReceiveRequestDialog'', [
      TS (''Request payment to '' @ [CHR 0xE2, CHR 0x80, CHR 0xA6]) '''' '''' False True [''Eskatu ordainketa hona: '' @ [CHR 0xE2, CHR 0x80, CHR 0xA6]],
      TS ''Address:'' '''' '''' False True [''Helbidea:''],
      TS ''Amount:'' '''' '''' False True [''Kopurua:''],
      TS ''Label:'' '''' '''' False True [''Etiketa:''],
      TS ''Message:'' '''' '''' False True [''Mezua:''],
      TS ''Wallet:'' '''' '''' False True [''Zorroa:''],
      TS ''Copy &URI'' '''' '''' False True [''Kopiatu &URI''],
      TS ''Copy &Address'' '''' '''' False True [''Kopiatu &Helbidea''],
      TS ''&Verify'' '''' '''' False True [''&Egiaztatu''],
      TS ''Verify this address on e.g. a hardware wallet screen'' '''' '''' False True [''Egiaztatu helbide hau, adibidez, hardware-zorro baten pantailan.''],
      TS (''&Save Image'' @ [CHR 0xE2, CHR 0x80, CHR 0xA6]) '''' '''' False True [''&Gorde irudia'' @ [CHR 0xE2, CHR 0x80, CHR 0xA6]],
      TS ''Payment information'' '''' '''' False True [''Ordainketa informazioa.''],
      TS ''Request payment to %1'' '''' '''' False True [''Eskatu ordainketa %1(r)i'']]),
    (''RecentRequestsTableModel'', [
      TS ''Date'' '''' '''' False True [''Data''],
      TS ''Label'' '''' '''' False True [''Etiketa''],
      TS ''Message'' '''' '''' False True [''Mezua''],
      TS ''(no label)'' '''' '''' False True [''(etiketarik ez)''],
      TS ''(no message)'' '''' '''' False True [''(mezurik ez)''],
      TS ''(no amount requested)'' '''' '''' False True [''(ez da kopururik eskatu)''],
      TS ''Requested'' '''' '''' False True [''Eskatutakoa'']]),
    (''SendCoinsDialog'', [
      TS ''Send Coins'' '''' '''' False True [''Bidali txanponak''],
      TS ''Coin Control Features'' '''' '''' False True [''Txanponaren Kontrolerako Ezaugarriak''],
      TS ''automatically selected'' '''' '''' False True [''automatikoki hautatua''],
      TS ''Insufficient funds!'' '''' '''' False True [''Funtsik ez da nahikoa!''],
      TS ''Quantity:'' '''' '''' False True [''Zenbat:''],
      TS ''Bytes:'' '''' '''' False True [''Byte kopurua:''],
      TS ''Amount:'' '''' '''' False True [''Kopurua:'']])]\<close>

definition eu_22 :: ts_catalogue where
  \<open>eu_22 = [
    (''SendCoinsDialog'', [
      TS ''Fee:'' '''' '''' False True [''Komisioa:''],
      TS ''After Fee:'' '''' '''' False True [''Komisioaren ondoren:''],
      TS ''Change:'' '''' '''' False True [''Bueltak:''],
      TS ''If this is activated, but the change address is empty or invalid, change will be sent to a newly generated address.'' '''' '''' False True [''Hau aktibatuta badago, baina aldaketa-helbidea hutsik edo baliogabea bada, aldaketa helbide berri sortu batera bidaliko da.''],
      TS ''Custom change address'' '''' '''' False True [''Aldaketa helbide pertsonalizatua''],
      TS ''Transaction Fee:'' '''' '''' False True [''Transakzio kuota:''],
      TS ''Using the fallbackfee can result in sending a transaction that will take several hours or days (or never) to confirm. Consider choosing your fee manually or wait until you have validated the complete chain.'' '''' '''' False True [''Fallbackfee erabiltzeak hainbat ordu edo egun (edo inoiz ez) behar dituen transakzio bat bidaltzea ekar dezake. Kontuan hartu zure kuota eskuz hautatzea edo kate osoa balidatu arte itxarotea.''],
      TS ''Warning: Fee estimation is currently not possible.'' '''' '''' False True [''Abisua: Une honetan ezinezkoa da komisioaren estimazioa egitea.''],
      TS ''per kilobyte'' '''' '''' False True [''Kilobyteko''],
      TS ''Hide'' '''' '''' False True [''Izkutatu''],
      TS ''Recommended:'' '''' '''' False True [''Gomendatutakoa:''],
      TS ''Custom:'' '''' '''' False True [''Pertsonalizatua:''],
      TS ''Send to multiple recipients at once'' '''' '''' False True [''Bidali hartzaile anitzei aldi berean''],
      TS ''Add &Recipient'' '''' '''' False True [''Gehitu &Hartzailea''],
      TS ''Clear all fields of the form.'' '''' '''' False True [''Garbitu formularioaren eremu guztiak.''],
      TS (''Inputs'' @ [CHR 0xE2, CHR 0x80, CHR 0xA6]) '''' '''' False True [''Sarrerak'' @ [CHR 0xE2, CHR 0x80, CHR 0xA6]],
      TS (''Choose'' @ [CHR 0xE2, CHR 0x80, CHR 0xA6]) '''' '''' False True [''Aukeratu...''],
      TS ''Hide transaction fee settings'' '''' '''' False True [''Ezkutatu transakzio komisioaren ezarpenak''],
      TS (''Specify a custom fee per kB (1,000 bytes) of the transaction's virtual size.'' @ [CHR 0x0A, CHR 0x0A] @ ''Note:  Since the fee is calculated on a per-byte basis, a fee rate of "100 tokens per kvB" for a transaction size of 500 virtual bytes (half of 1 kvB) would ultimately yield a fee of only 50 tokens.'') '''' '''' False True [''Zehaztu transakzioaren tamaina birtualeko kilobyteko (1.000 byte) komisio pertsonalizatua.'' @ [CHR 0x0A, CHR 0x0A] @ ''Oharra: Komisioa byte bakoitzeko kalkulatzen denez, "100 token kvB bakoitzeko" komisio-tasa batek, 500 byte birtualeko (1 kvB-ren erdia) transakzio baten kasuan, azken batean 50 tokens komisioa emango luke.''],
      TS ''When there is less transaction volume than space in the blocks, miners as well as relaying nodes may enforce a minimum fee. Paying only this minimum fee is just fine, but be aware that this can result in a never confirming transaction once there is more demand for tknc transactions than the network can process.'' '''' '''' False True [''Transakzio-bolumena bloketan dagoen espazioa baino txikiagoa denean, meatzaileek zein nodo errepikatzaileek gutxieneko komisio bat ezar dezakete. Komisio horretara mugatzea egokia izan daiteke, baina kontuan izan: Bitcoin transakzioen eskaera sarearen gaitasuna baino handiagoa denean, gutxieneko komisioa duten transakzioak inoiz ez baieztatzeko arriskua dago.''],
      TS ''A too low fee might result in a never confirming transaction (read the tooltip)'' '''' '''' False True [''Kuota oso baxua izateak transakzioa inoiz ez baieztatzea ekar dezake (ikus azalpen-oharra).''],
      TS (''(Smart fee not initialized yet. This usually takes a few blocks'' @ [CHR 0xE2, CHR 0x80, CHR 0xA6] @ '')'') '''' '''' False True [''(Adimendun komisioa oraindik ez da hasieratu. Normalean hau lortzeko zenbait bloke behar izaten dira'' @ [CHR 0xE2, CHR 0x80, CHR 0xA6] @ '')''],
      TS ''Confirmation time target:'' '''' '''' False True [''Baieztapen denbora helburua:''],
      TS ''Enable Replace-By-Fee'' '''' '''' False True [''Gaitu Replace-By-Fee''],
      TS ''With Replace-By-Fee (BIP-125) you can increase a transaction's fee after it is sent. Without this, a higher fee may be recommended to compensate for increased transaction delay risk.'' '''' '''' False True [''Replace-By-Fee (BIP-125) erabilita, bidalitako transakzio baten kuota handitu daiteke. Hori gabe, gomendagarria izan daiteke kuota handiago bat ezartzea, transakzioaren atzerapen-arrisku handiagoa konpentsatzeko.''],
      TS ''Clear &All'' '''' '''' False True [''Garbitu &Denak''],
      TS ''Balance:'' '''' '''' False True [''Saldoa:''],
      TS ''Confirm the send action'' '''' '''' False True [''Berretsi bidalketa ekintza''],
      TS ''S&end'' '''' '''' False True [''Bidali''],
      TS ''Copy quantity'' '''' '''' False True [''Kopiatu kantitatea''],
      TS ''Copy amount'' '''' '''' False True [''Kopiatu zenbatekoa''],
      TS ''Copy fee'' '''' '''' False True [''Kopiatu kuota''],
      TS ''Copy after fee'' '''' '''' False True [''Kopiatu komisioaren ondorengo zenbatekoa''],
      TS ''Copy bytes'' '''' '''' False True [''Kopiatu byteak''],
      TS ''Copy change'' '''' '''' False True [''Kopiatu aldaketa'']])]\<close>

definition eu_23 :: ts_catalogue where
  \<open>eu_23 = [
    (''SendCoinsDialog'', [
      TS ''%1 (%2 blocks)'' '''' '''' False True [''%1(%2 bloke)''],
      TS ''Sign on device'' '''' ''"device" usually means a hardware wallet.'' False True [''Sinatu gailuan''],
      TS ''Connect your hardware wallet first.'' '''' '''' False True [''Konektatu zure hardware zorroa lehenik.''],
      TS ''Set external signer script path in Options -> Wallet'' '''' ''"External signer" means using devices such as hardware wallets.'' False True [''Ezarri kanpozko sinatzailearen scriptaren bidea Aukerak -> Zorro atalean''],
      TS ''Cr&eate Unsigned'' '''' '''' False True [''Sortu sinatu gabea''],
      TS ''Creates a Partially Signed TKNC Transaction (PSBT) for use with e.g. an offline %1 wallet, or a PSBT-compatible hardware wallet.'' '''' '''' False True [''Partzialki Sinatutako Bitcoin Transakzio (PSBT) bat sortzen du, adibidez, lineaz kanpoko %1 zorro batekin edo PSBT bateragarria den hardware-zorro batekin erabiltzeko.''],
      TS (''%1 to '%2'' @ [CHR 0x27]) '''' '''' False True [''%1'%2'-ra''],
      TS ''%1 to %2'' '''' '''' False True [''%1 %2ra''],
      TS (''To review recipient list click "Show Details'' @ [CHR 0xE2, CHR 0x80, CHR 0xA6] @ ''"'') '''' '''' False True [''Hartzaileen zerrenda ikusteko, egin klik "Xehetasunak erakutsi'' @ [CHR 0xE2, CHR 0x80, CHR 0xA6] @ ''" botoian.''],
      TS ''Sign failed'' '''' '''' False True [''Sinatzea huts egin du''],
      TS ''External signer not found'' '''' ''"External signer" means using devices such as hardware wallets.'' False True [''Kanpo sinatzailea ez da aurkitu''],
      TS ''External signer failure'' '''' ''"External signer" means using devices such as hardware wallets.'' False True [''Kanpo sinatzailearen hutsegitea''],
      TS ''Save Transaction Data'' '''' '''' False True [''Gorde transakzioko data''],
      TS ''Partially Signed Transaction (Binary)'' '''' ''Expanded name of the binary PSBT file format. See: BIP 174.'' False True [''Zati batean sinatutako transakzioa (bitarra)''],
      TS ''PSBT saved'' '''' ''Popup message when a PSBT has been saved to a file'' False True [''PSBT gordeta''],
      TS ''External balance:'' '''' '''' False True [''Kanpo saldoa:''],
      TS ''or'' '''' '''' False True [''edo''],
      TS ''You can increase the fee later (signals Replace-By-Fee, BIP-125).'' '''' '''' False True [''Komisioa geroago handitu dezakezu (Replace-By-Fee seinaleztapena, BIP-125).''],
      TS ''Please, review your transaction proposal. This will produce a Partially Signed TKNC Transaction (PSBT) which you can save or copy and then sign with e.g. an offline %1 wallet, or a PSBT-compatible hardware wallet.'' '''' ''Text to inform a user attempting to create a transaction of their current options. At this stage, a user can only create a PSBT. This string is displayed when private keys are disabled and an external signer is not available.'' False True [''Mesedez, berrikusi zure transakzio-proposamena. Honek Zati Batez Sinatutako Bitcoin Transakzio bat (PSBT) sortuko du, eta hori gorde edo kopiatu dezakezu, ondoren sinatzeko, adibidez, lineaz kanpoko %1 zorro batekin edo PSBT bateragarria den hardware zorro batekin.''],
      TS (''%1 from wallet '%2'' @ [CHR 0x27]) '''' '''' False True [''%1'%2' zorrotik''],
      TS ''Do you want to create this transaction?'' '''' ''Message displayed when attempting to create a transaction. Cautionary text to prompt the user to verify that the displayed transaction details represent the transaction the user intends to create.'' False True [''Transakzio hau sortu nahi duzu?''],
      TS ''Please, review your transaction. You can create and send this transaction or create a Partially Signed TKNC Transaction (PSBT), which you can save or copy and then sign with, e.g., an offline %1 wallet, or a PSBT-compatible hardware wallet.'' '''' ''Text to inform a user attempting to create a transaction of their current options. At this stage, a user can send their transaction or create a PSBT. This string is displayed when both private keys and PSBT controls are enabled.'' False True [''Euskara Jasoa dijo:'' @ [CHR 0x0A] @ ''Mesedez, berrikusi zure transakzioa. Transakzio hau sor eta bidali dezakezu, edo bestela, Partzialki Sinatutako Bitcoin Transakzio (PSBT) bat sor dezakezu; hori gorde edo kopiatu, eta ondoren, adibidez, lineaz kanpoko %1 zorro batekin edo PSBT bateragarria den hardware-zorro batekin sinatu.''],
      TS ''Please, review your transaction.'' '''' ''Text to prompt a user to review the details of the transaction they are attempting to send.'' False True [''Mesedez, berrikusi zure transakzioa.''],
      TS ''Transaction fee'' '''' '''' False True [''Transakzioaren komisioa''],
      TS ''%1 kvB'' ''PSBT transaction creation'' ''When reviewing a newly created PSBT (via Send flow), the transaction fee is shown, with "virtual size" of the transaction displayed for context'' False True [''%1kvB''],
      TS ''Not signalling Replace-By-Fee, BIP-125.'' '''' '''' False True [''Ez da Replace-By-Fee (RBF) seinalatzen, BIP-125.''],
      TS ''Total Amount'' '''' '''' False True [''Kopuru osoa''],
      TS ''Unsigned Transaction'' ''PSBT copied'' ''Caption of "PSBT has been copied" messagebox'' False True [''Sinatu gabeko transakzioa''],
      TS ''The PSBT has been copied to the clipboard. You can also save it.'' '''' '''' False True [''PSBT arbelean kopiatu da. Gorde ere egin dezakezu.''],
      TS ''PSBT saved to disk'' '''' '''' False True [''PSBT diskoan gordeta''],
      TS ''Confirm send coins'' '''' '''' False True [''Berretsi txanponak bidaltzea''],
      TS ''The recipient address is not valid. Please recheck.'' '''' '''' False True [''Hartzailearen helbidea ez da baliozkoa. Mesedez, egiaztatu berriro.'']])]\<close>

definition eu_24 :: ts_catalogue where
  \<open>eu_24 = [
    (''SendCoinsDialog'', [
      TS ''The amount to pay must be larger than 0.'' '''' '''' False True [''Ordaintzeko kopurua, 0 baino handiagoa izan behar du.''],
      TS ''The amount exceeds your balance.'' '''' '''' False True [''Zenbatekoa zure saldoa gainditzen du.''],
      TS ''Duplicate address found: addresses should only be used once each.'' '''' '''' False True [''Helbide bikoiztua aurkitu da: helbide bakoitza behin bakarrik erabili beharko litzateke.''],
      TS ''Transaction creation failed!'' '''' '''' False True [''Transakzioa sortzeak huts egin du!''],
      TS ''A fee higher than %1 is considered an absurdly high fee.'' '''' '''' False True [''%1baino handiagoa den komisio bat neurriz kanpoko altutzat hartzen da.''],
      TS ''Estimated to begin confirmation within %n block(s).'' '''' '''' True True [''%nbloke barruan baieztapena hasten dela aurreikusten da.'', ''Baliteke %n bloke barru baieztatzen hastea.''],
      TS ''Warning: Invalid TKNC address'' '''' '''' False True [''Abisua: Bitcoin helbide baliogabea''],
      TS ''Warning: Unknown change address'' '''' '''' False True [''Abisua: Itzulkinaren helbide ezezaguna''],
      TS ''Confirm custom change address'' '''' '''' False True [''Berretsi itzulkinaren helbide pertsonalizatua''],
      TS ''The address you selected for change is not part of this wallet. Any or all funds in your wallet may be sent to this address. Are you sure?'' '''' '''' False True [''Hautatutako itzulkinaren helbidea ez dagokio zorro honi. Zure zorroko funts guztiak edo zati bat helbide horretara bidal daitezke. Ziur zaude?''],
      TS ''(no label)'' '''' '''' False True [''(etiketarik ez)'']]),
    (''SendCoinsEntry'', [
      TS ''A&mount:'' '''' '''' False True [''K&opurua:''],
      TS ''Pay &To:'' '''' '''' False True [''Ordaindu &honi:''],
      TS ''&Label:'' '''' '''' False True [''&Etiketa:''],
      TS ''Choose previously used address'' '''' '''' False True [''Aukeratu lehenago aukeraturiko helbidea''],
      TS ''The TKNC address to send the payment to'' '''' '''' False True [''Ordaina bidaltzeko Bitcoin helbidea''],
      TS ''Paste address from clipboard'' '''' '''' False True [''Arbeletik helbidea itsatsi''],
      TS ''Remove this entry'' '''' '''' False True [''Ezabatu sarrera hau''],
      TS ''The amount to send in the selected unit'' '''' '''' False True [''Hautatutako unitatean bidali beharreko zenbatekoa''],
      TS ''The fee will be deducted from the amount being sent. The recipient will receive less tkncs than you enter in the amount field. If multiple recipients are selected, the fee is split equally.'' '''' '''' False True [''Komisioa bidaltzen ari zaren zenbatekotik kenduko da. Hartzaileak zenbateko eremuan sartzen duzun baino tknc gutxiago jasoko ditu. Hartzaile bat baino gehiago hautatzen badira, komisioa berdin banatuko da.''],
      TS ''S&ubtract fee from amount'' '''' '''' False True [''Kendu komisioa zenbatekotik''],
      TS ''Use available balance'' '''' '''' False True [''Erabili eskuragarri dagoen saldoa''],
      TS ''Message:'' '''' '''' False True [''Mezua:''],
      TS ''Enter a label for this address to add it to the list of used addresses'' '''' '''' False True [''Sartu helbide honetarako etiketa bat erabilitako helbideen zerrendara gehitzeko''],
      TS ''A message that was attached to the tknc: URI which will be stored with the transaction for your reference. Note: This message will not be sent over the TKNC network.'' '''' '''' False True [''Bitcoin: URIari erantsitako mezua, transakzioarekin batera gordeko dena zure kontsultarako. Oharra: Mezu hau ez da TKNC sarean zehar bidaliko.'']]),
    (''SendConfirmationDialog'', [
      TS ''Send'' '''' '''' False True [''Bidali''],
      TS ''Create Unsigned'' '''' '''' False True [''Sortu sinatu gabea'']]),
    (''SignVerifyMessageDialog'', [
      TS ''Signatures - Sign / Verify a Message'' '''' '''' False True [''Sinadurak - Mezu bat Sinatu / Egiaztatu''],
      TS ''&Sign Message'' '''' '''' False True [''&Sinatu Mezua''],
      TS ''You can sign messages/agreements with your legacy (P2PKH) addresses to prove you can receive tkncs sent to them. Be careful not to sign anything vague or random, as phishing attacks may try to trick you into signing your identity over to them. Only sign fully-detailed statements you agree to.'' '''' '''' False True [''Mezuak edo akordioak sinatu ditzakezu zure jatorrizko (P2PKH) helbideekin, helbide horietara bidalitako tkncak jasotzeko gaitasuna duzula frogatzeko. Kontuz ibili mezu lauso edo ausazkoak sinatzean, phishing erasoei esker zure identitatea lapurtu nahi dizuten iruzurrezko eskaerak izan baitaitezke. Sinatu soilik xehetasun osoak dituzten eta ados zauden adierazpenak.''],
      TS ''The TKNC address to sign the message with'' '''' '''' False True [''Mezua sinatzeko erabiliko den Bitcoin helbidea''],
      TS ''Choose previously used address'' '''' '''' False True [''Aukeratu lehenago aukeraturiko helbidea''],
      TS ''Paste address from clipboard'' '''' '''' False True [''Arbeletik helbidea itsatsi'']])]\<close>

lemma eu_19_ok: "catalogue_ok 2 eu_19"
  unfolding eu_19_def catalogue_ok_def append_Cons append_Nil
  by (simp add: catalogue_eval del: scan_format.simps(2) qt_markers.simps(2) cong: catalogue_congs)

lemma eu_20_ok: "catalogue_ok 2 eu_20"
  unfolding eu_20_def catalogue_ok_def append_Cons append_Nil
  by (simp add: catalogue_eval del: scan_format.simps(2) qt_markers.simps(2) cong: catalogue_congs)

lemma eu_21_ok: "catalogue_ok 2 eu_21"
  unfolding eu_21_def catalogue_ok_def append_Cons append_Nil
  by (simp add: catalogue_eval del: scan_format.simps(2) qt_markers.simps(2) cong: catalogue_congs)

lemma eu_22_ok: "catalogue_ok 2 eu_22"
  unfolding eu_22_def catalogue_ok_def append_Cons append_Nil
  by (simp add: catalogue_eval del: scan_format.simps(2) qt_markers.simps(2) cong: catalogue_congs)

lemma eu_23_ok: "catalogue_ok 2 eu_23"
  unfolding eu_23_def catalogue_ok_def append_Cons append_Nil
  by (simp add: catalogue_eval del: scan_format.simps(2) qt_markers.simps(2) cong: catalogue_congs)

lemma eu_24_ok: "catalogue_ok 2 eu_24"
  unfolding eu_24_def catalogue_ok_def append_Cons append_Nil
  by (simp add: catalogue_eval del: scan_format.simps(2) qt_markers.simps(2) cong: catalogue_congs)

end
