(* ===== verification/Catalogue_eu_5.thy ===== *)
theory Catalogue_eu_5
  imports Catalogue
begin

text \<open>
  The Basque catalogue (\<open>qt/locale/tknc_eu.ts\<close>), lines 3441 to 4300: one definition for each run of
  messages, in file order, and that the translations of each run keep the parameters of their messages.
\<close>

definition eu_25 :: ts_catalogue where
  \<open>eu_25 = [
    (''SignVerifyMessageDialog'', [
      TS ''Enter the message you want to sign here'' '''' '''' False True [''Sartu sinatu nahi duzun mezua hemen''],
      TS ''Signature'' '''' '''' False True [''Sinadura''],
      TS ''Copy the current signature to the clipboard'' '''' '''' False True [''Kopiatu uneko sinadura arbelean''],
      TS ''Sign the message to prove you own this TKNC address'' '''' '''' False True [''Sinatu mezua TKNC helbide horren jabe zarela frogatzeko''],
      TS ''Sign &Message'' '''' '''' False True [''Sinatu &Mezua''],
      TS ''Reset all sign message fields'' '''' '''' False True [''Berrezarri sinatzeko mezuaren eremu guztiak''],
      TS ''Clear &All'' '''' '''' False True [''Garbitu &Denak''],
      TS ''&Verify Message'' '''' '''' False True [''&Egiaztatu mezua''],
      TS ''Enter the receiver's address, message (ensure you copy line breaks, spaces, tabs, etc. exactly) and signature below to verify the message. Be careful not to read more into the signature than what is in the signed message itself, to avoid being tricked by a man-in-the-middle attack. Note that this only proves the signing party receives with the address, it cannot prove sendership of any transaction!'' '''' '''' False True [''Sartu hartzailearen helbidea, mezua (ziurtatu lerro-jauziak, zuriuneak, tabulazioak eta abar zehatz-mehatz kopiatzen dituzula) eta sinadura behean, mezua egiaztatzeko. Kontuz ibili sinadurari sinatutako mezuan agertzen ez diren esanahi gehigarririk ematen ez diogula, erdiko gizonaren (man-in-the-middle) eraso baten biktima ez izateko. Kontuan izan honek soilik frogatzen duela sinatzaileak helbide horrekin jasotzen duela; ez du transakziorik bidali duenik frogatzen!''],
      TS ''The TKNC address the message was signed with'' '''' '''' False True [''Mezua sinatzeko erabili zen Bitcoin helbidea''],
      TS ''The signed message to verify'' '''' '''' False True [''Egiaztatu beharreko sinatutako mezua''],
      TS ''The signature given when the message was signed'' '''' '''' False True [''Mezua sinatzean emandako sinadura''],
      TS ''Verify the message to ensure it was signed with the specified TKNC address'' '''' '''' False True [''Egiaztatu mezua, zehaztutako Bitcoin helbidearekin sinatua izan zela bermatzeko''],
      TS ''Verify &Message'' '''' '''' False True [''&Egiaztatu Mezua''],
      TS ''Reset all verify message fields'' '''' '''' False True [''Berrezarri mezuaren egiaztapeneko eremu guztiak''],
      TS ''Click "Sign Message" to generate signature'' '''' '''' False True [''Egin klik "Sinatu mezua" botoian sinadura sortzeko''],
      TS ''The entered address is invalid.'' '''' '''' False True [''Sartutako helbidea ez da baliozkoa.''],
      TS ''Please check the address and try again.'' '''' '''' False True [''Mesedez, egiaztatu helbidea eta saiatu berriro.''],
      TS ''The entered address does not refer to a legacy (P2PKH) key. Message signing for SegWit and other non-P2PKH address types is not supported in this version of %1. Please check the address and try again.'' '''' '''' False True [''Sartutako helbidea ez dagokio jatorrizko (P2PKH) gako bati. Mezuen sinadura SegWit eta beste P2PKH ez diren helbide mota batzuetarako ez dago onartuta %1 bertsio honetan. Mesedez, egiaztatu helbidea eta saiatu berriro.''],
      TS ''Wallet unlock was cancelled.'' '''' '''' False True [''Zorroaren desblokeoa bertan behera utzi da.''],
      TS ''No error'' '''' '''' False True [''Ez dago errorerik''],
      TS ''Private key for the entered address is not available.'' '''' '''' False True [''Sartutako helbidearen gako pribatua ez dago eskuragarri.''],
      TS ''Message signing failed.'' '''' '''' False True [''Errorea mezua sinatzean''],
      TS ''Message signed.'' '''' '''' False True [''Mezua sinatuta.''],
      TS ''The signature could not be decoded.'' '''' '''' False True [''Sinadura dekodetu ezin da.''],
      TS ''Please check the signature and try again.'' '''' '''' False True [''Mesedez, begiratu sinadura eta saiatu berriro.''],
      TS ''The signature did not match the message digest.'' '''' '''' False True [''Sinadura ez dator bat mezuaren laburpenarekin.''],
      TS ''Message verification failed.'' '''' '''' False True [''Mezuen egiaztatzeak huts egin du''],
      TS ''Message verified.'' '''' '''' False True [''Mezua egiaztatua.'']]),
    (''SplashScreen'', [
      TS ''(press q to shutdown and continue later)'' '''' '''' False True [''(sakatu q itzaltzeko eta geroago jarraitzeko)''],
      TS ''press q to shutdown'' '''' '''' False True [''Itxi egiteko, sakatu q'']]),
    (''TransactionDesc'', [
      TS ''conflicted with a transaction with %1 confirmations'' '''' ''Text explaining the current status of a transaction, shown in the status field of the details window for this transaction. This status represents an unconfirmed transaction that conflicts with a confirmed transaction.'' False True [''%1 baieztapen dituen transakzio batekin gatazkan dago.''],
      TS ''0/unconfirmed, in memory pool'' '''' ''Text explaining the current status of a transaction, shown in the status field of the details window for this transaction. This status represents an unconfirmed transaction that is in the memory pool.'' False True [''0/berretsi gabe, memoriako pool-ean dago''],
      TS ''0/unconfirmed, not in memory pool'' '''' ''Text explaining the current status of a transaction, shown in the status field of the details window for this transaction. This status represents an unconfirmed transaction that is not in the memory pool.'' False True [''0/berretsi gabe, memoriako pool-ean ez dago.'']])]\<close>

definition eu_26 :: ts_catalogue where
  \<open>eu_26 = [
    (''TransactionDesc'', [
      TS ''abandoned'' '''' ''Text explaining the current status of a transaction, shown in the status field of the details window for this transaction. This status represents an abandoned transaction.'' False True [''abandonatuta''],
      TS ''%1/unconfirmed'' '''' ''Text explaining the current status of a transaction, shown in the status field of the details window for this transaction. This status represents a transaction confirmed in at least one block, but less than 6 blocks.'' False True [''%1/konfirmatu gabe''],
      TS ''%1 confirmations'' '''' ''Text explaining the current status of a transaction, shown in the status field of the details window for this transaction. This status represents a transaction confirmed in 6 or more blocks.'' False True [''%1 konfirmazio''],
      TS ''Status'' '''' '''' False True [''Egoera''],
      TS ''Date'' '''' '''' False True [''Data''],
      TS ''Source'' '''' '''' False True [''Iturria''],
      TS ''Generated'' '''' '''' False True [''Sortua''],
      TS ''From'' '''' '''' False True [''Tik''],
      TS ''unknown'' '''' '''' False True [''ezezaguna''],
      TS ''To'' '''' '''' False True [''Ra''],
      TS ''own address'' '''' '''' False True [''zure helbidea''],
      TS ''label'' '''' '''' False True [''etiketa''],
      TS ''Credit'' '''' '''' False True [''Kreditua''],
      TS ''matures in %n more block(s)'' '''' '''' True True [''%nbeste bloke batzuetan heltzen da.'', ''%nbeste bloke batzuetan heltzen da.''],
      TS ''not accepted'' '''' '''' False True [''onartu gabe''],
      TS ''Debit'' '''' '''' False True [''Zorrak''],
      TS ''Total debit'' '''' '''' False True [''Zor totala''],
      TS ''Total credit'' '''' '''' False True [''Kreditu totala''],
      TS ''Transaction fee'' '''' '''' False True [''Transakzio tasa''],
      TS ''Net amount'' '''' '''' False True [''Sareko zenbatekoa''],
      TS ''Message'' '''' '''' False True [''Mezua''],
      TS ''Comment'' '''' '''' False True [''Iruzkin''],
      TS ''Transaction ID'' '''' '''' False True [''Transakzioaren IDa''],
      TS ''Transaction total size'' '''' '''' False True [''Transakzioaren tamaina osoa''],
      TS ''Transaction virtual size'' '''' '''' False True [''Transakzioaren tamaina birtuala''],
      TS ''Output index'' '''' '''' False True [''Irteera indizea''],
      TS ''%1 (Certificate was not verified)'' '''' '''' False True [''%1(Ziurtagiria ez da egiaztatu)''],
      TS ''Merchant'' '''' '''' False True [''Saltzaile''],
      TS ''Generated coins must mature %1 blocks before they can be spent. When you generated this block, it was broadcast to the network to be added to the block chain. If it fails to get into the chain, its state will change to "not accepted" and it won't be spendable. This may occasionally happen if another node generates a block within a few seconds of yours.'' '''' '''' False True [''Sortutako txanponek %1 bloke igaro behar dituzte erabilgarri izan aurretik. Bloke hau sortzean, sarean bidali zen blockchain-era gehitzeko. Ezin bada katean sartu, egoera "ez onartua" bihurtuko da eta ezin izango da erabili. Batzuetan, beste nodo batek zure blokearen segunduren bat barru bloke bat sortzen badu, hau gertatu daiteke.''],
      TS ''Debug information'' '''' '''' False True [''Arazketa informazioa''],
      TS ''Transaction'' '''' '''' False True [''Transakzioa''],
      TS ''Inputs'' '''' '''' False True [''Sarrerak''],
      TS ''Amount'' '''' '''' False True [''Kopurua''],
      TS ''true'' '''' '''' False True [''egia'']])]\<close>

definition eu_27 :: ts_catalogue where
  \<open>eu_27 = [
    (''TransactionDesc'', [
      TS ''false'' '''' '''' False True [''faltsua'']]),
    (''TransactionDescDialog'', [
      TS ''This pane shows a detailed description of the transaction'' '''' '''' False True [''Panel honek transakzien deskribapen xehea azaltzen du''],
      TS ''Details for %1'' '''' '''' False True [''Xehetasunak honentzat:%1'']]),
    (''TransactionTableModel'', [
      TS ''Date'' '''' '''' False True [''Data''],
      TS ''Type'' '''' '''' False True [''Mota''],
      TS ''Label'' '''' '''' False True [''Etiketa''],
      TS ''Unconfirmed'' '''' '''' False True [''Baieztatu gabea''],
      TS ''Abandoned'' '''' '''' False True [''Utzi''],
      TS ''Confirming (%1 of %2 recommended confirmations)'' '''' '''' False True [''Baieztatzen (%1 gomendatutako%2 baieztapenetatik)''],
      TS ''Confirmed (%1 confirmations)'' '''' '''' False True [''Konfirmatuta (%1 konfirmazio)''],
      TS ''Conflicted'' '''' '''' False True [''Gatazka sortua''],
      TS ''Immature (%1 confirmations, will be available after %2)'' '''' '''' False True [''Heldugabe ( %1baieztapen, erabilgarri izango da %2ondoren)''],
      TS ''Generated but not accepted'' '''' '''' False True [''Sortua, baina ez onartua''],
      TS ''Received with'' '''' '''' False True [''Honekin jasoa''],
      TS ''Received from'' '''' '''' False True [''Jasota honengandik:''],
      TS ''Sent to'' '''' '''' False True [''Hona bidalia''],
      TS ''Mined'' '''' '''' False True [''Meatua''],
      TS ''(no label)'' '''' '''' False True [''(etiketarik ez)''],
      TS ''Transaction status. Hover over this field to show number of confirmations.'' '''' '''' False True [''Transakzioaren egoera. Eremu honen gainean pasatzean, berrespen kopurua erakutsiko da.''],
      TS ''Date and time that the transaction was received.'' '''' '''' False True [''Transakzioa jaso zen data eta ordua.''],
      TS ''Type of transaction.'' '''' '''' False True [''Transakzio mota.''],
      TS ''User-defined intent/purpose of the transaction.'' '''' '''' False True [''Erabiltzaileak definitutako transakzioaren asmoa edo helburua.''],
      TS ''Amount removed from or added to balance.'' '''' '''' False True [''Saldoan kendu edo gehitutako kopurua.'']]),
    (''TransactionView'', [
      TS ''All'' '''' '''' False True [''Denak''],
      TS ''Today'' '''' '''' False True [''Gaurkoak''],
      TS ''This week'' '''' '''' False True [''Aste honetankoak''],
      TS ''This month'' '''' '''' False True [''Hil honetakoak''],
      TS ''Last month'' '''' '''' False True [''Azken hilekoak''],
      TS ''This year'' '''' '''' False True [''Aurtengoak''],
      TS ''Received with'' '''' '''' False True [''Honekin jasoa''],
      TS ''Sent to'' '''' '''' False True [''Hona bidalia''],
      TS ''Mined'' '''' '''' False True [''Meatua''],
      TS ''Other'' '''' '''' False True [''Beste''],
      TS ''Enter address, transaction id, or label to search'' '''' '''' False True [''Sartu helbidea, transakzioaren IDa edo etiketa bilatzeko'']])]\<close>

definition eu_28 :: ts_catalogue where
  \<open>eu_28 = [
    (''TransactionView'', [
      TS ''Min amount'' '''' '''' False True [''Kopuru minimoa''],
      TS (''Range'' @ [CHR 0xE2, CHR 0x80, CHR 0xA6]) '''' '''' False True [''Tartea'' @ [CHR 0xE2, CHR 0x80, CHR 0xA6]],
      TS ''&Copy address'' '''' '''' False True [''&Helbidea kopiatu''],
      TS ''Copy &label'' '''' '''' False True [''Kopiatu &Etiketa''],
      TS ''Copy &amount'' '''' '''' False True [''Kopiatu kopurua''],
      TS ''Copy transaction &ID'' '''' '''' False True [''Kopiatu transakzioaren IDa''],
      TS ''Copy &raw transaction'' '''' '''' False True [''Kopiatu transakzio &gordina''],
      TS ''Copy full transaction &details'' '''' '''' False True [''Kopiatu transakzio &xehetasun osoak''],
      TS ''&Show transaction details'' '''' '''' False True [''&Erakutsi transakzio xehetasunak''],
      TS ''Increase transaction &fee'' '''' '''' False True [''Handitu transakzioaren komisioa''],
      TS ''A&bandon transaction'' '''' '''' False True [''&Utzi transakzioa''],
      TS ''&Edit address label'' '''' '''' False True [''Editatu helbidearen etiketa''],
      TS ''Show in %1'' '''' ''Transactions table context menu action to show the selected transaction in a third-party block explorer. %1 is a stand-in argument for the URL of the explorer.'' False True [''Erakutsi hemen:%1''],
      TS ''Export Transaction History'' '''' '''' False True [''Esportatu transakzioen historia''],
      TS ''Comma separated file'' '''' ''Expanded name of the CSV file format. See: https://en.wikipedia.org/wiki/Comma-separated_values.'' False True [''Komaz bereizitako fitxategia''],
      TS ''Confirmed'' '''' '''' False True [''Berretsia''],
      TS ''Date'' '''' '''' False True [''Data''],
      TS ''Type'' '''' '''' False True [''Mota''],
      TS ''Label'' '''' '''' False True [''Etiketa''],
      TS ''Address'' '''' '''' False True [''Helbidea''],
      TS ''Exporting Failed'' '''' '''' False True [''Esportazioak huts egin du''],
      TS ''There was an error trying to save the transaction history to %1.'' '''' '''' False True [''Errore bat gertatu da transakzioen historia %1 fitxategian gordetzen saiatzean.''],
      TS ''Exporting Successful'' '''' '''' False True [''Esportazioa arrakastatsua izan da.''],
      TS ''The transaction history was successfully saved to %1.'' '''' '''' False True [''Transakzioen historia arrakastaz gorde da %1 fitxategian.''],
      TS ''Range:'' '''' '''' False True [''tartea:''],
      TS ''to'' '''' '''' False True [''-ra'']]),
    (''WalletFrame'', [
      TS (''No wallet has been loaded.'' @ [CHR 0x0A] @ ''Go to File > Open Wallet to load a wallet.'' @ [CHR 0x0A] @ ''- OR -'') '''' '''' False True [''Ez da zorrorik kargatu.'' @ [CHR 0x0A] @ ''Joan Fitxategia > Ireki Zorro menura zorro bat kargatzeko.'' @ [CHR 0x0A, CHR 0xE2, CHR 0x80, CHR 0x93] @ '' EDO '' @ [CHR 0xE2, CHR 0x80, CHR 0x93]],
      TS ''Create a new wallet'' '''' '''' False True [''Diruzorro berri bat sortu''],
      TS ''Error'' '''' '''' False True [''Akatsa''],
      TS ''Unable to decode PSBT from clipboard (invalid base64)'' '''' '''' False True [''Ezin izan da arbeletik hartutako PSBT deskodetu (base64 baliogabea).''],
      TS ''Load Transaction Data'' '''' '''' False True [''Kargatu transakzio-datuak''],
      TS ''Partially Signed Transaction (*.psbt)'' '''' '''' False True [''Partez Sinatutako Transakzioa (*.psbt)''],
      TS ''PSBT file must be smaller than 100 MiB'' '''' '''' False True [''PSBT fitxategiak 100 MiB baino txikiagoa izan behar du.'']])]\<close>

definition eu_29 :: ts_catalogue where
  \<open>eu_29 = [
    (''WalletFrame'', [
      TS ''Unable to decode PSBT'' '''' '''' False True [''Ezin da PSBT deskodetu'']]),
    (''WalletModel'', [
      TS ''Send Coins'' '''' '''' False True [''Bidali txanponak''],
      TS ''Fee bump error'' '''' '''' False True [''Tasa handitzeko errorea.''],
      TS ''Increasing transaction fee failed'' '''' '''' False True [''Transakzioaren tasa handitzeak huts egin du''],
      TS ''Do you want to increase the fee?'' '''' ''Asks a user if they would like to manually increase the fee of a transaction that has already been created.'' False True [''Tasa handitu nahi duzu?''],
      TS ''Current fee:'' '''' '''' False True [''Oraingo kuota:''],
      TS ''Increase:'' '''' '''' False True [''Handitu:''],
      TS ''New fee:'' '''' '''' False True [''Kuota berria:''],
      TS ''Warning: This may pay the additional fee by reducing change outputs or adding inputs, when necessary. It may add a new change output if one does not already exist. These changes may potentially leak privacy.'' '''' '''' False True [''Abisua: Honek, beharrezkoa denean, komisio gehigarria ordaindu dezake itzulkin-irtenbideak murriztuz edo sarrera berriak gehituz. Itzulkina ez badago, berria sor dezake. Aldaketa hauek pribatutasuna urratzeko arriskua izan dezakete.''],
      TS ''Confirm fee bump'' '''' '''' False True [''Berretsi komisioaren igoera''],
      TS ''Can't draft transaction.'' '''' '''' False True [''Ezin da transakzio zirriborroa sortu.''],
      TS ''PSBT copied'' '''' '''' False True [''PSBT kopiatua''],
      TS ''Fee-bump PSBT copied to clipboard'' '''' '''' False True [''Komisio-igoerako PSBT arbelean kopiatu da''],
      TS ''Can't sign transaction.'' '''' '''' False True [''Ezin da transakzioa sinatu.''],
      TS ''Could not commit transaction'' '''' '''' False True [''Ezin izan da transakzioa berretsi''],
      TS ''Signer error'' '''' '''' False True [''Sinatzailearen errorea''],
      TS ''Can't display address'' '''' '''' False True [''Ezin da helbidea bistaratu'']]),
    (''WalletView'', [
      TS ''&Export'' '''' '''' False True [''&Esportatu''],
      TS ''Export the data in the current tab to a file'' '''' '''' False True [''Uneko fitxako datuak fitxategi batera esportatu''],
      TS ''Backup Wallet'' '''' '''' False True [''Zorroaren babeskopia egin''],
      TS ''Wallet Data'' '''' ''Name of the wallet data file format.'' False True [''Zorroaren datuak''],
      TS ''Backup Failed'' '''' '''' False True [''Babeskopiak huts egin du''],
      TS ''There was an error trying to save the wallet data to %1.'' '''' '''' False True [''Errore bat gertatu da zorroko datuak %1 fitxategian gordetzen saiatzean.''],
      TS ''Backup Successful'' '''' '''' False True [''Babeskopia arrakastatsua''],
      TS ''The wallet data was successfully saved to %1.'' '''' '''' False True [''Zorroko datuak arrakastaz gorde dira %1 fitxategian.''],
      TS ''Cancel'' '''' '''' False True [''Ezeztatu'']]),
    (''tknc-core'', [
      TS ''The %s developers'' '''' '''' False True [''%s-ren garatzaileak''],
      TS ''%s failed to validate the -assumeutxo snapshot state. This indicates a hardware problem, or a bug in the software, or a bad software modification that allowed an invalid snapshot to be loaded. As a result of this, the node will shut down and stop using any state that was built on the snapshot, resetting the chain height from %d to %d. On the next restart, the node will resume syncing from %d without using any snapshot data. Please report this incident to %s, including how you obtained the snapshot. The invalid snapshot chainstate will be left on disk in case it is helpful in diagnosing the issue that caused this error.'' '''' '''' False True [''%shuts egin du -assumeutxo snapshot egoera baliozkotzean. Honek hardware-arazo bat, softwareko akats bat, edo softwarearen aldaketa txar bat adierazten du, snapshot baliogabe bat kargatzea baimendu duena. Horren ondorioz, nodoa itzali egingo da eta snapshot horretan oinarrituta eraikitako edozein egoera erabiltzen uzti, katearen altuera%d -tik -%dra berrezarriz. Hurrengo berrabiaraztean, nodoak %d-tik berriro sinkronizatzen hasiko da, snapshot daturik erabili gabe. Mesedez, jakinarazi gertaera hau %s-ri, snapshot-a nola lortu zenuen azalduz. Snapshot baliogabearen chainstate diskoan utziko da, errore hau eragin duen arazoa diagnostikatzeko lagungarria izan badaiteke.''],
      TS ''%s request to listen on port %u. This port is considered "bad" and thus it is unlikely that any peer will connect to it. See doc/p2p-bad-ports.md for details and a full list.'' '''' '''' False True [''%s portu %u entzuten saiatu da. Portu hau '' @ [CHR 0xE2, CHR 0x80, CHR 0x9C] @ ''txartzat'' @ [CHR 0xE2, CHR 0x80, CHR 0x9D] @ '' jotzen da, eta litekeena da ez duzula parekorik konektatuta edukitzea. Xehetasun gehiagorako eta zerrenda osoa ikusteko, kontsultatu doc/p2p-bad-ports.md.''],
      TS ''Disk space for %s may not accommodate the block files. Approximately %u GB of data will be stored in this directory.'' '''' '''' False True [''%sbalioerako disko-lekuak baliteke blokearen fitxategiak hartzeko nahikoa ez izatea. Gutxi gorabehera %uGB datu gordeko dira direktorio honetan.''],
      TS ''Distributed under the MIT software license, see the accompanying file %s or %s'' '''' '''' False True [''MIT software-lizentziapean banatua, ikus erantsitako fitxategia %s edo %s''],
      TS ''Error loading wallet. Wallet requires blocks to be downloaded, and software does not currently support loading wallets while blocks are being downloaded out of order when using assumeutxo snapshots. Wallet should be able to load successfully after node sync reaches height %s'' '''' '''' False True [''Errorea zorroa kargatzean. Zorro honek blokeak deskargatuta egotea eskatzen du, eta softwareak ez du oraindik onartzen zorroak kargatzea blokeak ordenarik gabe deskargatzen ari direnean, assumeutxo argazkiak erabiliz. Nodoaren sinkronizazioa %s altuerara iristen denean, zorroa arrakastaz kargatu beharko luke.''],
      TS ''Error reading %s! Transaction data may be missing or incorrect. Rescanning wallet.'' '''' '''' False True [''Errorea %s irakurtzean! Baliteke transakzio-datuak falta izatea edo okerrak izatea. Zorroa berriro eskaneatzen.'']])]\<close>

definition eu_30 :: ts_catalogue where
  \<open>eu_30 = [
    (''tknc-core'', [
      TS ''Error starting/committing db txn for wallet transactions removal process'' '''' '''' False True [''Errorea: ezin izan da datu-baseko transakzioa hasi edo berretsi zorroko transakzioak kentzeko prozesuan''],
      TS ''Error: Dumpfile format record is incorrect. Got "%s", expected "format".'' '''' '''' False True [''Errorea: Dumpfile formatu erregistroa okerra da. Lortu "%s", espero zen "format".''],
      TS ''Error: Dumpfile identifier record is incorrect. Got "%s", expected "%s".'' '''' '''' False True [''Errorea: Dumpfile identifikatzaile erregistroa okerra da. Lortu "%s", espero zen "%s".''],
      TS ''Error: Dumpfile version is not supported. This version of tknc-wallet only supports version 1 dumpfiles. Got dumpfile with version %s'' '''' '''' False True [''Errorea: Dump fitxategiaren bertsioa ez da onartzen. Bitcoin-wallet honen bertsio honek soilik 1. bertsioko dump fitxategiak onartzen ditu. Jasotako dump fitxategiak %s bertsioa du.''],
      TS ''Error: Unable to produce descriptors for this legacy wallet. Make sure to provide the wallet's passphrase if it is encrypted.'' '''' '''' False True [''Errorea: Ezin izan dira deskribatzaileak sortu jatorrizko zorro honetarako. Ziurtatu zorroa enkriptatuta badago, haren pasahitza eman duzula.''],
      TS ''File %s already exists. If you are sure this is what you want, move it out of the way first.'' '''' '''' False True [''%sFitxategia dagoeneko existitzen da. Ziur zaude hori nahi duzula, lekuz aldatu ezazu lehenik.''],
      TS ''Invalid or corrupt peers.dat (%s). If you believe this is a bug, please report it to %s. As a workaround, you can move the file (%s) out of the way (rename, move, or delete) to have a new one created on the next start.'' '''' '''' False True [''peers.dat (%s) baliogabea edo hondatuta dago. Akats bat dela uste baduzu, mesedez jakinarazi ezazu %s-ri. Aldi baterako konponbide gisa, fitxategia (%s) lekuz aldatu dezakezu (berrizendatu, mugitu edo ezabatu), hurrengo abioan berri bat sor dadin.''],
      TS ''Invalid value detected for '-wallet' or '-nowallet'. '-wallet' requires a string value, while '-nowallet' accepts only '1' to disable all wallets'' '''' '''' False True [''Baliogabeko balioa detektatu da '-wallet' edo '-nowallet' aukeran. '-wallet' aukerak kate (string) balio bat behar du, eta '-nowallet' aukerak soilik '1' onartzen du zorro guztiak desgaitzeko.''],
      TS ''More than one onion bind address is provided. Using %s for the automatically created Tor onion service.'' '''' '''' False True [''Tipula lotura helbide bat baino gehiago eman da. Automatikoki %ssortutako Tor tipula zerbitzurako erabiliko da.''],
      TS ''No dump file provided. To use createfromdump, -dumpfile=<filename> must be provided.'' '''' '''' False True [''Ez da dump fitxategirik eman. createfromdump erabiltzeko, -dumpfile=<filename> eman behar da.''],
      TS ''No dump file provided. To use dump, -dumpfile=<filename> must be provided.'' '''' '''' False True [''Ez da dump fitxategirik eman. Dump erabiltzeko, -dumpfile=<filename> eman behar da.''],
      TS ''Please contribute if you find %s useful. Visit %s for further information about the software.'' '''' '''' False True [''Mesedez, lagundu %s erabilgarria iruditzen bazaizu. Bisitatu %s softwareari buruzko informazio gehiago lortzeko.''],
      TS ''Prune configured below the minimum of %d MiB.  Please use a higher number.'' '''' '''' False True [''Prune balioa gutxieneko %d MiB azpitik konfiguratu da. Mesedez, erabili zenbaki handiago bat.''],
      TS ''Prune mode is incompatible with -reindex-chainstate. Use full -reindex instead.'' '''' '''' False True [''Prune modua ez da bateragarria -reindex-chainstate aukerarekin. Horren ordez, erabili -reindex osoa.''],
      TS ''Rename of '%s' -> '%s' failed. You should resolve this by manually moving or deleting the invalid snapshot directory %s, otherwise you will encounter the same error again on the next startup.'' '''' '''' False True [[CHR 0x27] @ ''%s'-> '%s' berrizendatzea huts egin du. Hau konpondu behar duzu snapshot baliogabeko %sdirektorioa eskuz lekuz aldatuz edo ezabatuz; bestela, hurrengo abioan errore bera berriro gertatuko da.''],
      TS ''SQLiteDatabase: Unknown sqlite wallet schema version %d. Only version %d is supported'' '''' '''' False True [''SQLiteDatabase: Sqlite zorro eskemaren %dbertsio ezezaguna. Bertsio%d baino ez da onartzen''],
      TS ''The block database contains a block which appears to be from the future. This may be due to your computer's date and time being set incorrectly. Only rebuild the block database if you are sure that your computer's date and time are correct'' '''' '''' False True [''Bloke-datu-baseak etorkizunekoa dirudien bloke bat dauka. Hau zure ordenagailuaren data eta ordua gaizki ezarrita egoteagatik izan daiteke. Bloke-datu-basea berreraiki soilik ziur bazaude zure ordenagailuaren data eta ordua zuzen daudela.''],
      TS ''The transaction amount is too small to send after the fee has been deducted'' '''' '''' False True [''Transakzioaren zenbatekoa txikia da bidaltzeko, tasak kendu ondoren.''],
      TS ''This is a pre-release test build - use at your own risk - do not use for mining or merchant applications'' '''' '''' False True [''Hau aurre-argitalpeneko proba-bertsio bat da '' @ [CHR 0xE2, CHR 0x80, CHR 0x93] @ '' erabili zure kontura '' @ [CHR 0xE2, CHR 0x80, CHR 0x93] @ '' ez erabili meatze-lanetarako edo merkataritza-aplikazioetarako.''],
      TS ''This is the maximum transaction fee you pay (in addition to the normal fee) to prioritize partial spend avoidance over regular coin selection.'' '''' '''' False True [''Hau da ordainduko duzun gehieneko transakzio-komisioa (ohiko komisioari gehituta), zati bateko gastuak saihestea txanpon-hautaketa arruntaren gainetik lehenesteko.''],
      TS ''This is the transaction fee you may discard if change is smaller than dust at this level'' '''' '''' False True [''Hau da transakzio-tasa, eta bertako aldaketaren balioa hautsa baino txikiagoa bada bazter dezakezuna.''],
      TS ''This is the transaction fee you may pay when fee estimates are not available.'' '''' '''' False True [''Hau da ordain dezakezun transakzio-tasa, tasen estimazioak erabilgarri ez daudenean.''],
      TS ''Total length of network version string (%i) exceeds maximum length (%i). Reduce the number or size of uacomments.'' '''' '''' False True [''Sareko bertsio-katearen luzera osoak (%i) gehieneko luzera (%i) gainditzen du. Murriztu uacomments kopurua edo tamaina.''],
      TS ''Unable to replay blocks. You will need to rebuild the database using -reindex-chainstate.'' '''' '''' False True [''Ezin dira blokeak berriro erreproduzitu. Datu-basea berreraiki behar duzu -reindex-chainstate erabiliz.''],
      TS ''Unsupported category-specific logging level %1$s=%2$s. Expected %1$s=<category>:<loglevel>. Valid categories: %3$s. Valid loglevels: %4$s.'' '''' '''' False True [''Kategoria jakin bateko log-maila %1$s=%2$s ez da onartzen. %1$s=<category>:<loglevel>espero zen. Baliozko kategoriak: %3$s. Baliozko log-mailak: %4$s.''],
      TS ''Unsupported chainstate database format found. Please restart with -reindex-chainstate. This will rebuild the chainstate database.'' '''' '''' False True [''Onartu gabeko chainstate datu-base formatu bat aurkitu da. Mesedez, berrabiarazi -reindex-chainstate aukerarekin. Honek chainstate datu-basea berreraikiko du.''],
      TS ''Warning: Private keys detected in wallet {%s} with disabled private keys'' '''' '''' False True [''Abisua: gako pribatuak detektatu dira {%s} zorroan, gako pribatuak desgaituta daudenean.''],
      TS ''Witness data for blocks after height %d requires validation. Please restart with -reindex.'' '''' '''' False True [''%daltueratik gorako blokeetako lekuko datuak baliozkotu behar dira. Mesedez, berrabiarazi -reindex aukerarekin.''],
      TS ''You need to rebuild the database using -reindex to go back to unpruned mode.  This will redownload the entire blockchain'' '''' '''' False True [''Datu-basea berreraiki behar duzu -reindex aukera erabiliz moztu gabeko modura itzultzeko. Horrek blockchain osoa berriro deskargatuko du.''],
      TS ''%s is set very high!'' '''' '''' False True [''%soso altua ezarrita dago!''],
      TS ''-maxmempool must be at least %d MB'' '''' '''' False True [''-maxmempool gutxienez %dMB izan behar da.''],
      TS ''Cannot obtain a lock on directory %s. %s is probably already running.'' '''' '''' False True [''Ezin da blokeoa lortu direktorioan%s. %s ziurrenik dagoeneko exekutatzen ari da.''],
      TS (''Cannot resolve -%s address: '%s'' @ [CHR 0x27]) '''' '''' False True [''Ezin da '' @ [CHR 0xE2, CHR 0x80, CHR 0x93] @ ''%s helbidea ebatzi: '%s'' @ [CHR 0x27]],
      TS ''Cannot set -forcednsseed to true when setting -dnsseed to false.'' '''' '''' False True [''Ezin da -forcednsseed true gisa ezarri -dnsseed false gisa ezartzen denean.''],
      TS ''Cannot set -peerblockfilters without -blockfilterindex.'' '''' '''' False True [''Ezin da -peerblockfilters ezarri -blockfilterindex gabe.''],
      TS ''%s is set very high! Fees this large could be paid on a single transaction.'' '''' '''' False True [''%soso altua ezarrita dago! Horrelako kuota handiak transakzio bakar batean ordaindu litezke.'']])]\<close>

lemma eu_25_ok: "catalogue_ok 2 eu_25"
  unfolding eu_25_def catalogue_ok_def append_Cons append_Nil
  by (simp add: catalogue_eval del: scan_format.simps(2) qt_markers.simps(2) cong: catalogue_congs)

lemma eu_26_ok: "catalogue_ok 2 eu_26"
  unfolding eu_26_def catalogue_ok_def append_Cons append_Nil
  by (simp add: catalogue_eval del: scan_format.simps(2) qt_markers.simps(2) cong: catalogue_congs)

lemma eu_27_ok: "catalogue_ok 2 eu_27"
  unfolding eu_27_def catalogue_ok_def append_Cons append_Nil
  by (simp add: catalogue_eval del: scan_format.simps(2) qt_markers.simps(2) cong: catalogue_congs)

lemma eu_28_ok: "catalogue_ok 2 eu_28"
  unfolding eu_28_def catalogue_ok_def append_Cons append_Nil
  by (simp add: catalogue_eval del: scan_format.simps(2) qt_markers.simps(2) cong: catalogue_congs)

lemma eu_29_ok: "catalogue_ok 2 eu_29"
  unfolding eu_29_def catalogue_ok_def append_Cons append_Nil
  by (simp add: catalogue_eval del: scan_format.simps(2) qt_markers.simps(2) cong: catalogue_congs)

lemma eu_30_ok: "catalogue_ok 2 eu_30"
  unfolding eu_30_def catalogue_ok_def append_Cons append_Nil
  by (simp add: catalogue_eval del: scan_format.simps(2) qt_markers.simps(2) cong: catalogue_congs)

end
