(* ===== verification/Catalogue_eu_6.thy ===== *)
theory Catalogue_eu_6
  imports Catalogue
begin

text \<open>
  The Basque catalogue (\<open>qt/locale/tknc_eu.ts\<close>), lines 4301 to 5160: one definition for each run of
  messages, in file order, and that the translations of each run keep the parameters of their messages.
\<close>

definition eu_31 :: ts_catalogue where
  \<open>eu_31 = [
    (''tknc-core'', [
      TS ''Cannot provide specific connections and have addrman find outgoing connections at the same time.'' '''' '''' False True [''Ezin dira aldi berean konexio zehatzak eman eta addrman-ek irteerako konexioak bilatzen utzi.''],
      TS ''Error loading %s: External signer wallet being loaded without external signer support compiled'' '''' '''' False True [''Errorea kargatzean%s: Kanpoko sinatzailearen zorroa kargatzen ari da, baina kanpoko sinatzailearen euskarririk gabe konpilatuta dago.''],
      TS ''Error reading %s! All keys read correctly, but transaction data or address metadata may be missing or incorrect.'' '''' '''' False True [''Errorea irakurtzean %s! Gako guztiak ongi irakurri dira, baina transakzio-datuak edo helbide-metadatuak falta daitezke edo okerrak izan daitezke.''],
      TS ''Error: Address book data in wallet cannot be identified to belong to migrated wallets'' '''' '''' False True [''Errorea: Zorroko helbide liburuko datuak ezin dira migrazioa egin zaien zorrotik datozen gisa identifikatu''],
      TS ''Error: Duplicate descriptors created during migration. Your wallet may be corrupted.'' '''' '''' False True [''Errorea: Deskribatzaile bikoiztuak sortu dira migrazioan zehar. Zure zorroa hondatuta egon daiteke.''],
      TS ''Error: Transaction %s in wallet cannot be identified to belong to migrated wallets'' '''' '''' False True [''Errorea: %stransakzioa ezin da identifikatu migratutako zorroei dagokiola''],
      TS (''Failed to remove snapshot chainstate dir (%s). Manually remove it before restarting.'' @ [CHR 0x0A]) '''' '''' False True [''Snapshot chainstate direktorioa (%s) ezabatzea huts egin du. Ezabatu eskuz berrabiarazi aurretik.'' @ [CHR 0x0A]],
      TS ''Failed to rename invalid peers.dat file. Please move or delete it and try again.'' '''' '''' False True [''Ezin izan da baliogabeko peers.dat fitxategia berrizendatu. Mugitu edo ezabatu eta saiatu berriro.''],
      TS ''Fee estimation failed. Fallbackfee is disabled. Wait a few blocks or enable %s.'' '''' '''' False True [''Kuota estimazioa huts egin du. Fallbackfee desgaituta dago. Bloke batzuk itxaron edo gaitu %s.''],
      TS ''Flushing block file to disk failed. This is likely the result of an I/O error.'' '''' '''' False True [''Bloke fitxategia diskoan gordetzea huts egin du. Litekeena da I/O (sarrera-irtenbide) errore baten ondorioa izatea.''],
      TS ''Flushing undo file to disk failed. This is likely the result of an I/O error.'' '''' '''' False True [''Undo fitxategia diskora idazteak huts egin du. Litekeena da I/O errore baten ondorio izatea.''],
      TS ''Incompatible options: -dnsseed=1 was explicitly specified, but -onlynet forbids connections to IPv4/IPv6'' '''' '''' False True [''Aukera bateraezinak: -dnsseed=1 berariaz zehaztu da, baina -onlynet aukerak IPv4/IPv6 konexioak debekatzen ditu.''],
      TS ''Invalid amount for %s=<amount>: '%s' (must be at least the minrelay fee of %s to prevent stuck transactions)'' '''' '''' False True [''Balio baliogabea %s=-<amount>rentzat: '%s' (gutxienez %sminrelay kuota izan behar du transakzio trabatuak saihesteko).''],
      TS ''Maximum transaction weight is less than transaction weight without inputs'' '''' '''' False True [''Transakzioaren gehieneko pisua sarrerarik gabeko transakzioaren pisua baino txikiagoa da''],
      TS ''Maximum transaction weight is too low, can not accommodate change output'' '''' '''' False True [''Transakzioaren gehieneko pisua txikiegia da, eta ez da aldaketaren irteera gehitu ahal''],
      TS ''Option '-checkpoints' is set but checkpoints were removed. This option has no effect.'' '''' '''' False True [[CHR 0x27] @ ''-checkpoints' aukera ezarrita dago baina kontrolpuntuak kendu egin dira. Aukera honek ez du eraginik.''],
      TS ''Outbound connections restricted to CJDNS (-onlynet=cjdns) but -cjdnsreachable is not provided'' '''' '''' False True [''Irteerako konexioak CJDNSera mugatuta daude (-onlynet=cjdns), baina -cjdnsreachable ez da zehaztu''],
      TS ''Outbound connections restricted to Tor (-onlynet=onion) but the proxy for reaching the Tor network is explicitly forbidden: -onion=0'' '''' '''' False True [''Irteerako konexioak Tor sarera mugatuta daude (-onlynet=onion), baina Tor sarera iristeko proxy-a berariaz debekatuta dago: -onion=0.''],
      TS ''Outbound connections restricted to Tor (-onlynet=onion) but the proxy for reaching the Tor network is not provided: none of -proxy, -onion or -listenonion is given'' '''' '''' False True [''Irteerako konexioak Tor sarera mugatuta daude (-onlynet=onion), baina Tor sarera iristeko proxy-a ez da eman: -proxy, -onion edo -listenonion aukeretako bat ere ez da zehaztu.''],
      TS ''Outbound connections restricted to i2p (-onlynet=i2p) but -i2psam is not provided'' '''' '''' False True [''Konexio irteerak i2pra mugatuta daude (-onlynet=i2p) baina -i2psam ez da zehaztu''],
      TS ''Prune: last wallet synchronisation goes beyond pruned data. You need to -reindex (download the whole blockchain again in case of a pruned node)'' '''' '''' False True [''Prune: azken zorroaren sinkronizazioa moztutako datuak baino harago doa. -reindex egin behar duzu (moztutako nodo baten kasuan, blockchain osoa berriro deskargatuko da).''],
      TS ''Rename of '%s' -> '%s' failed. Cannot clean up the background chainstate leveldb directory.'' '''' '''' False True [[CHR 0x27] @ ''%s'-> '%s' berrizendatzea huts egin du. Ezin da atzeko planoan dagoen chainstate LevelDB direktorioa garbitu.''],
      TS ''Specified -blockmaxweight (%d) exceeds consensus maximum block weight (%d)'' '''' '''' False True [''Zehaztutako -blockmaxweight (%d)-ek kontsentsuzko gehieneko bloke-pisua (%d) gainditzen du.''],
      TS ''Specified -blockreservedweight (%d) exceeds consensus maximum block weight (%d)'' '''' '''' False True [''Zehaztutako -blockreservedweight (%d)-ek kontsentsuzko gehieneko bloke-pisua (%d) gainditzen du.''],
      TS ''Specified -blockreservedweight (%d) is lower than minimum safety value of (%d)'' '''' '''' False True [''Zehaztutako -blockreservedweight (%d) segurtasunerako gutxieneko balio (%d) baino txikiagoa da''],
      TS ''The combination of the pre-selected inputs and the wallet automatic inputs selection exceeds the transaction maximum weight. Please try sending a smaller amount or manually consolidating your wallet's UTXOs'' '''' '''' False True [''Aurrez hautatutako sarreren eta zorroak automatikoki hautatutako sarreren konbinazioak transakzioaren gehieneko pisua gainditzen du. Saiatu zenbateko txikiago bat bidaltzen edo zure zorroko UTXOak eskuz bateratzen.''],
      TS ''The inputs size exceeds the maximum weight. Please try sending a smaller amount or manually consolidating your wallet's UTXOs'' '''' '''' False True [''Sarreren tamainak gehieneko pisua gainditzen du. Saiatu kopuru txikiago bat bidaltzen edo bateratu eskuz zure zorroko UTXOak''],
      TS ''The preselected coins total amount does not cover the transaction target. Please allow other inputs to be automatically selected or include more coins manually'' '''' '''' False True [''Aurrez hautatutako txanponen guztizko zenbatekoa ez da nahikoa transakzioaren helburua estaltzeko. Baimendu beste sarrerak automatikoki hautatzea edo gehitu txanpon gehiago eskuz''],
      TS ''UTXO snapshot failed to validate. Restart to resume normal initial block download, or try loading a different snapshot.'' '''' '''' False True [''UTXO irudiak balidatzeko huts egin du. Normalean Bloke hasierako deskarga berriro hasteko berrabiarazi, edo saiatu beste irudi bat kargatzen.''],
      TS ''Unconfirmed UTXOs are available, but spending them creates a chain of transactions that will be rejected by the mempool'' '''' '''' False True [''Konfirmatu gabeko UTXOak daude, baina horiek gastatzeak transakzio kate bat sortuko du mempool-ak baztertuko duena.''],
      TS (''Unexpected legacy entry in descriptor wallet found. Loading wallet %s'' @ [CHR 0x0A, CHR 0x0A] @ ''The wallet might have been tampered with or created with malicious intent.'' @ [CHR 0x0A]) '''' '''' False True [''Descriptor motako zorroan espero ez zen sarrera zaharkitu bat aurkitu da. Zorroa kargatzen %s'' @ [CHR 0x0A, CHR 0x0A] @ ''Zorroa manipulatua izan daiteke edo asmo gaiztoarekin sortua.'' @ [CHR 0x0A]],
      TS (''Your computer's date and time appear to be more than %d minutes out of sync with the network, this may lead to consensus failure. After you've confirmed your computer's clock, this message should no longer appear when you restart your node. Without a restart, it should stop showing automatically after you've connected to a sufficient number of new outbound peers, which may take some time. You can inspect the '' @ [CHR 0x60] @ ''timeoffset'' @ [CHR 0x60] @ '' field of the '' @ [CHR 0x60] @ ''getpeerinfo'' @ [CHR 0x60] @ '' and '' @ [CHR 0x60] @ ''getnetworkinfo'' @ [CHR 0x60] @ '' RPC methods to get more info.'') '''' '''' False True [''Zure ordenagailuaren data eta ordua sarearekiko %d minutu baino gehiago desinkronizatuta daudela dirudi, eta horrek adostasunaren porrota eragin dezake. Zure ordenagailuaren erlojua egokia dela baieztatu ondoren, mezu hau ez litzateke berriro agertu behar nodoa berrabiarazten duzunean. Berrabiarazi gabe, mezuak automatikoki desagertu beharko luke irteerako pareko nahikoa konektatzen dituzunean, baina horrek denbora pixka bat har dezake. Informazio gehiago lortzeko, ikus getpeerinfo eta getnetworkinfo RPC metodoetako timeoffset eremua.''],
      TS ([CHR 0x0A] @ ''Unable to cleanup failed migration'') '''' '''' False True [[CHR 0x0A] @ ''Ezin da huts egindako migrazioa garbitu'']])]\<close>

definition eu_32 :: ts_catalogue where
  \<open>eu_32 = [
    (''tknc-core'', [
      TS ([CHR 0x0A] @ ''Unable to restore backup of wallet.'') '''' '''' False True [[CHR 0x0A] @ ''Ezin izan da zorroaren babeskopia berreskuratu''],
      TS ''default wallet'' '''' '''' False True [''Zorro lehenetsia''],
      TS ''whitebind may only be used for incoming connections ("out" was passed)'' '''' '''' False True [''whitebind parametroa soilik sarrerako konexioetarako erabil daiteke ("out" bidali da)''],
      TS ''A fatal internal error occurred, see debug.log for details: '' '''' '''' False True [''Barne-errore larria gertatu da, xehetasunak debug.log fitxategian ikus daitezke''],
      TS ''Assumeutxo data not found for the given blockhash '%s'.'' '''' '''' False True [''Assumeutxo daturik ez da aurkitu eman den '%s' bloke-hasharentzat''],
      TS ''Block verification was interrupted'' '''' '''' False True [''Bloke berifikazioa eten da''],
      TS ''Can't spend unconfirmed version %d pre-selected input with a version 3 tx'' '''' '''' False True [''Ezin da baieztatu %dgabeko bertsioaren aurrez hautatutako sarrera bat gastatu 3. bertsioaren transakzio batekin''],
      TS ''Can't spend unconfirmed version 3 pre-selected input with a version %d tx'' '''' '''' False True [''%dEzin da baieztatu gabeko 3. bertsioaren aurrez hautatutako sarrera bat gastatu bertsioaren transakzio batekin''],
      TS ''Cannot write to directory '%s'; check permissions.'' '''' '''' False True [''Ezin da '%s' direktorioan idatzi; egiaztatu baimenak.''],
      TS ''Config setting for %s only applied on %s network when in [%s] section.'' '''' '''' False True [''%skonfigurazio-ezarpena %s soilik aplikatzen da sarean, [%s] atalean dagoenean.''],
      TS ''Copyright (C) %i-%i'' '''' '''' False True [''Copyright (C) %i- %i''],
      TS ''Corrupt block found indicating potential hardware failure.'' '''' '''' False True [''Bloke hondatu bat aurkitu da, eta horrek hardware akats baten adierazgarri izan daiteke.''],
      TS ''Corrupted block database detected'' '''' '''' False True [''Bloke datu base hondatua atzeman da''],
      TS ''Could not find asmap file %s'' '''' '''' False True [''Ezin izan da %sasmap fitxategia aurkitu''],
      TS ''Could not generate scriptPubKeys (cache is empty)'' '''' '''' False True [''Ezin izan dira scriptPubKey-ak sortu (cachea hutsik dago)''],
      TS ''Could not parse asmap file %s'' '''' '''' False True [''Ezin izan da asmap fitxategia analizatu %s''],
      TS ''Could not top up scriptPubKeys'' '''' '''' False True [''Ezin izan dira scriptPubKey-ak osatu''],
      TS ''Disk space is too low!'' '''' '''' False True [''Diskoko lekua oso gutxi da!''],
      TS ''Done loading'' '''' '''' False True [''Kargatzea amaituta''],
      TS ''Dump file %s does not exist.'' '''' '''' False True [''%s dump fitxategia ez dago existitzen.''],
      TS ''Elliptic curve cryptography sanity check failure. %s is shutting down.'' '''' '''' False True [''Kurba eliptikoko kriptografiaren zentzuzko egiaztapenak huts egin du. %s itxitzen ari da.''],
      TS ''Error initializing block database'' '''' '''' False True [''Errorea bloke datu basea hasieratzean''],
      TS ''Error loading %s'' '''' '''' False True [''Kargatzean %serrorea''],
      TS ''Error loading %s: Wallet corrupted'' '''' '''' False True [''Errorea %s kargatzean: zorroa hondatuta dago''],
      TS ''Error loading %s: Wallet requires newer version of %s'' '''' '''' False True [''Errorea %s kargatzean: zorroak %sren bertsio berriago bat behar du''],
      TS ''Error loading block database'' '''' '''' False True [''Errorea bloke datu basea kargatzean''],
      TS ''Error loading databases'' '''' '''' False True [''Errorea datu-baseak kargatzean''],
      TS ''Error opening block database'' '''' '''' False True [''Errorea bloke-datu-basea irekitzean''],
      TS ''Error opening coins database'' '''' '''' False True [''Errorea txanponen datu-basea irekitzean''],
      TS ''Error reading configuration file: %s'' '''' '''' False True [''Errorea konfigurazio-fitxategia irakurtzean: %s''],
      TS ''Error reading from database, shutting down.'' '''' '''' False True [''Errorea datu-basea irakurtzean, itxiera egiten da.''],
      TS ''Error reading next record from wallet database'' '''' '''' False True [''Errorea zorroaren datu-basetik hurrengo erregistroa irakurtzean''],
      TS ''Error: Cannot extract destination from the generated scriptpubkey'' '''' '''' False True [''Errorea: Helbidea ezin da atera sortutako ScriptPubKey-tik.''],
      TS ''Error: Couldn't create cursor into database'' '''' '''' False True [''Errorea: Kurtsorea datu-basean sortu ezin da.''],
      TS ''Error: Disk space is low for %s'' '''' '''' False True [''Errorea: Diskoko lekua gutxiegi dago %s(r)entzat'']])]\<close>

definition eu_33 :: ts_catalogue where
  \<open>eu_33 = [
    (''tknc-core'', [
      TS ''Error: Dumpfile checksum does not match. Computed %s, expected %s'' '''' '''' False True [''Errorea: Dumpfitxategiaren bat-datorrenik ez. Kalkulatutakoa , %sespero zena%s ''],
      TS ''Error: Failed to create new watchonly wallet'' '''' '''' False True [''Errorea: Watch-only zorro berria sortzea huts egin da.''],
      TS ''Error: Got key that was not hex: %s'' '''' '''' False True [''Errorea: Hexadezimala ez den gakoa jaso da: %s''],
      TS ''Error: Got value that was not hex: %s'' '''' '''' False True [''Errorea: Hexadezimala ez den balioa jaso da: %s''],
      TS ''Error: Keypool ran out, please call keypoolrefill first'' '''' '''' False True [''Errorea: Keypool-a amaitu da, lehenik keypoolrefill deitu mesedez.''],
      TS ''Error: Missing checksum'' '''' '''' False True [''Errorea: Kontrol batura falta da''],
      TS ''Error: No %s addresses available.'' '''' '''' False True [''Errorea: Ez dago %s helbiderik erabilgarri.''],
      TS ''Error: Not all address book records were migrated'' '''' '''' False True [''Errorea: ez dira helbide-liburuko erregistro guztiak migratu''],
      TS ''Error: Not all transaction records were migrated'' '''' '''' False True [''Errorea: ez dira transakzio-erregistro guztiak migratu''],
      TS ''Error: This wallet already uses SQLite'' '''' '''' False True [''Errorea: Zorro honek jadanik SQLite erabiltzen du.''],
      TS ''Error: This wallet is already a descriptor wallet'' '''' '''' False True [''Errorea: Zorro hau jadanik deskribatzaile zorroa da.''],
      TS ''Error: Unable to begin reading all records in the database'' '''' '''' False True [''Errorea: Datu-baseko erregistro guztiak irakurtzen hasteko ezin izan da.''],
      TS ''Error: Unable to make a backup of your wallet'' '''' '''' False True [''Errorea: Zure zorroaren babeskopia egin ezin izan da.''],
      TS ''Error: Unable to parse version %u as a uint32_t'' '''' '''' False True [''Errorea: Ezin izan da %ubertsioa uint32_t gisa analizatu''],
      TS ''Error: Unable to read all records in the database'' '''' '''' False True [''Errorea: Datu-baseko erregistro guztiak irakurri ezin izan dira.''],
      TS ''Error: Unable to read wallet's best block locator record'' '''' '''' False True [''Errorea: Zorroaren blokeko kokatzaile onena irakurri ezin izan da.''],
      TS ''Error: Unable to remove watchonly address book data'' '''' '''' False True [''Errorea: Watch-only helbide-liburuaren datuak ezabatu ezin izan dira.''],
      TS ''Error: Unable to write data to disk for wallet %s'' '''' '''' False True [''Errorea: Ezin izan da daturik idatzi diskoan diru-zorroarentzat %s''],
      TS ''Error: Unable to write record to new wallet'' '''' '''' False True [''Errorea: Erregistroa zorro berriari idaztea ezin izan da.''],
      TS ''Error: Unable to write solvable wallet best block locator record'' '''' '''' False True [''Errorea: Ezin da zorro ebatigarriaren blokearen kokatzaile erregistroa idatzi''],
      TS ''Error: Unable to write watchonly wallet best block locator record'' '''' '''' False True [''Errorea: Watch-only zorroaren blokeko kokatzaile onena idaztea ezin izan da.''],
      TS ''Error: database transaction cannot be executed for wallet %s'' '''' '''' False True [''Errorea: datu-baseko transakzioa ezin da exekutatu %szorrorako''],
      TS ''Failed to acquire rescan reserver during wallet initialization'' '''' '''' False True [''Huts egin du berreskaneatzeko erreserba eskuratzean zorroa hasieratzean.''],
      TS ''Failed to close block undo file.'' '''' '''' False True [''Huts egin du blokeen desegite-fitxategia ixtean.''],
      TS ''Failed to close file when writing block.'' '''' '''' False True [''Huts egin du fitxategia ixtean blokea idaztean.''],
      TS ''Failed to disconnect block.'' '''' '''' False True [''Blokea deskonektatzea huts egin du.''],
      TS ''Failed to listen on any port. Use -listen=0 if you want this.'' '''' '''' False True [''Portu batean ere ezingo da entzun. Horretarako, erabili -listen=0.''],
      TS ''Failed to read block.'' '''' '''' False True [''Blokea irakurtzean huts egin du.''],
      TS ''Failed to rescan the wallet during initialization'' '''' '''' False True [''Zorroa berrikusi ezin izan da hasieratzean.''],
      TS ''Failed to verify database'' '''' '''' False True [''Datu-basea egiaztatzean huts egin du.''],
      TS ''Failed to write block.'' '''' '''' False True [''Blokea idaztea huts egin du.''],
      TS ''Failed to write undo data.'' '''' '''' False True [''Huts egin du desegiteko datuak idaztean.''],
      TS ''Failure removing transaction: %s'' '''' '''' False True [''Huts egin du transakzioa kentzean: %s''],
      TS ''Fee rate (%s) is lower than the minimum fee rate setting (%s)'' '''' '''' False True [''Kuota-tasa (%s) ezarritako kuota-tasa minimoa (%s) baino txikiagoa da.''],
      TS ''Ignoring duplicate -wallet %s.'' '''' '''' False True [''-wallet errepikatuari %sez ikusiarena egiten.''],
      TS ''Incorrect or no genesis block found. Wrong datadir for network?'' '''' '''' False True [''Hasierako bloke okerra edo inexistentea aurkitu da. Sarearentzako datu-karpeta okerra al da?'']])]\<close>

definition eu_34 :: ts_catalogue where
  \<open>eu_34 = [
    (''tknc-core'', [
      TS ''Initialization sanity check failed. %s is shutting down.'' '''' '''' False True [''Hasierako zuzentasun-egiaztatak huts egin du. %sitxieren da''],
      TS ''Input not found or already spent'' '''' '''' False True [''Sarrera aurkitu ez da edo jadanik erabili da''],
      TS ''Insufficient dbcache for block verification'' '''' '''' False True [''Blokeen egiaztapenerako dbcache nahikorik ez''],
      TS ''Insufficient funds'' '''' '''' False True [''Funts nahikorik ez dago''],
      TS (''Invalid -i2psam address or hostname: '%s'' @ [CHR 0x27]) '''' '''' False True [''-i2psam helbide edo ostalari-izena baliogabea: '%s'' @ [CHR 0x27]],
      TS (''Invalid -onion address or hostname: '%s'' @ [CHR 0x27]) '''' '''' False True [''-onion helbide edo ostalari-izena baliogabea: '%s'' @ [CHR 0x27]],
      TS (''Invalid -proxy address or hostname: '%s'' @ [CHR 0x27]) '''' '''' False True [''-proxy helbide edo ostalari-izena baliogabea '%s'' @ [CHR 0x27]],
      TS (''Invalid P2P permission: '%s'' @ [CHR 0x27]) '''' '''' False True [''P2P baimen baliogabea: '%s'' @ [CHR 0x27]],
      TS (''Invalid amount for %s=<amount>: '%s'' @ [CHR 0x27]) '''' '''' False True [''%s=<amount> baliorako kopuru baliogabea: '%s'' @ [CHR 0x27]],
      TS ''A %zu MiB dbcache may be too large for a system memory of only %zu MiB.'' '''' '''' False True [''%zu'' @ [CHR 0xE2, CHR 0x80, CHR 0xAF] @ ''MiB-eko dbcache bat handiegia izan daiteke %zu'' @ [CHR 0xE2, CHR 0x80, CHR 0xAF] @ ''MiB baino ez duen sistemaren memoriarako.''],
      TS (''Creating wallet'' @ [CHR 0xE2, CHR 0x80, CHR 0xA6]) '''' '''' False True [''Zorroa sortzen'' @ [CHR 0xE2, CHR 0x80, CHR 0xA6]],
      TS ''Duplicate binding configuration for address %s. Please check your -bind, -bind=...=onion and -whitebind settings.'' '''' '''' False True [''%s helbiderako lotura-konfigurazio bikoiztua. Mesedez, egiaztatu zure -bind, -bind=...=onion eta -whitebind ezarpenak.''],
      TS ''Error creating %s: Could not write version metadata.'' '''' '''' False True [''Errorea %s sortzean: ezin izan da bertsioaren metadatua idatzi.''],
      TS (''Invalid amount for -%s=<amount>: '%s'' @ [CHR 0x27]) '''' '''' False True [''-%s=<amount> baliorako kopuru baliogabea: '%s'' @ [CHR 0x27]],
      TS (''Invalid netmask specified in -whitelist: '%s'' @ [CHR 0x27]) '''' '''' False True [''Baliogabeko sare-maskara zehaztuta -whitelist aukeran: '%s'' @ [CHR 0x27]],
      TS (''Invalid port specified in %s: '%s'' @ [CHR 0x27]) '''' '''' False True [''Ataka baliogabea zehaztu da %s-n: '%s'' @ [CHR 0x27]],
      TS ''Listening for incoming connections failed (listen returned error %s)'' '''' '''' False True [''Sarrerako konexioak entzuteko huts egin du (listen funtzioak %s errorea itzuli du)''],
      TS (''Loading P2P addresses'' @ [CHR 0xE2, CHR 0x80, CHR 0xA6]) '''' '''' False True [''P2P helbideak kargatzen'' @ [CHR 0xE2, CHR 0x80, CHR 0xA6]],
      TS (''Loading banlist'' @ [CHR 0xE2, CHR 0x80, CHR 0xA6]) '''' '''' False True [''Debeku zerrenda kargatzen'' @ [CHR 0xE2, CHR 0x80, CHR 0xA6]],
      TS (''Loading block index'' @ [CHR 0xE2, CHR 0x80, CHR 0xA6]) '''' '''' False True [''Bloke-indizea kargatzen'' @ [CHR 0xE2, CHR 0x80, CHR 0xA6]],
      TS (''Loading wallet'' @ [CHR 0xE2, CHR 0x80, CHR 0xA6]) '''' '''' False True [''Zorroa kargatzen...''],
      TS ''Maximum transaction weight must be between %d and %d'' '''' '''' False True [''Transakzioaren gehieneko pisua %d eta %d artekoa izan behar da.''],
      TS ''Missing amount'' '''' '''' False True [''Zenbatekoa falta da''],
      TS ''Missing solving data for estimating transaction size'' '''' '''' False True [''Transakzioaren tamaina estimatzeko beharrezko ebazpen-datuak falta dira.''],
      TS (''Need to specify a port with -whitebind: '%s'' @ [CHR 0x27]) '''' '''' False True [''Ataka zehaztu behar da -whitebind aukerarekin: '%s'' @ [CHR 0x27]],
      TS ''No addresses available'' '''' '''' False True [''Ez dago helbiderik eskuragarri''],
      TS ''Not found pre-selected input %s'' '''' '''' False True [''Ez da aurrez hautatutako sarrera aurkitu %s''],
      TS ''Not solvable pre-selected input %s'' '''' '''' False True [''Ezin da ebatzi aurrez hautatutako %s sarrera''],
      TS (''Only direction was set, no permissions: '%s'' @ [CHR 0x27]) '''' '''' False True [''Norabidea soilik ezarri da, baimenik gabe: '%s'' @ [CHR 0x27]],
      TS ''Option '-limitancestorsize' is given but ancestor size limits have been replaced with cluster size limits (see -limitclustersize). This option has no effect.'' '''' '''' False True [[CHR 0x27] @ ''-limitancestorsize' aukera eman da, baina arbasoen tamainaren muga ordezkatu egin da multzoen tamainaren mugarekin (ikusi -limitclustersize). Aukera honek ez du eraginik.''],
      TS ''Option '-limitdescendantsize' is given but descendant size limits have been replaced with cluster size limits (see -limitclustersize). This option has no effect.'' '''' '''' False True [[CHR 0x27] @ ''-limitdescendantsize' aukera eman da, baina ondorengoen tamainaren muga ordezkatu egin da multzoen tamainaren mugarekin (ikusi -limitclustersize). Aukera honek ez du eraginik.''],
      TS ''Private broadcast of own transactions requested (-privatebroadcast) and -proxyrandomize is disabled. Tor circuits for private broadcast connections may be correlated to other connections over Tor. For maximum privacy set -proxyrandomize=1.'' '''' '''' False True [''Norberaren transakzioen emisio pribatua eskatu da (-privatebroadcast) eta -proxyrandomize desgaituta dago. Emisio pribaturako Tor zirkuituak beste Tor konexio batzuekin erlazionatu daitezke. Pribatutasun handiena lortzeko, ezarri -proxyrandomize=1.''],
      TS ''Private broadcast of own transactions requested (-privatebroadcast), but -connect is also configured. They are incompatible because the private broadcast needs to open new connections to randomly chosen Tor or I2P peers. Consider using -maxconnections=0 -addnode=... instead'' '''' '''' False True [''Norberaren transakzioen emisio pribatua eskatu da (-privatebroadcast), baina -connect ere konfiguratuta dago. Bi aukera horiek bateraezinak dira, emisio pribatuak ausaz hautatutako Tor edo I2P pareekin konexio berriak ireki behar dituelako. Horren ordez, erabili -maxconnections=0 -addnode=...''],
      TS ''Private broadcast of own transactions requested (-privatebroadcast), but none of Tor or I2P networks is reachable'' '''' '''' False True [''Norberaren transakzioen emisio pribatua eskatu da (-privatebroadcast), baina ez da ez Tor ez I2P sareetara konektatzerik lortu.''],
      TS ''Prune cannot be configured with a negative value.'' '''' '''' False True [''Moztu ez da konfiguratu daiteke balio negatibo batekin.''],
      TS ''Prune mode is incompatible with -txindex.'' '''' '''' False True [''Moztu modua -txindexekin bateragarria ez da.'']])]\<close>

definition eu_35 :: ts_catalogue where
  \<open>eu_35 = [
    (''tknc-core'', [
      TS (''Pruning blockstore'' @ [CHR 0xE2, CHR 0x80, CHR 0xA6]) '''' '''' False True [''Bloke biltegia mozten'' @ [CHR 0xE2, CHR 0x80, CHR 0xA6]],
      TS ''Reducing -maxconnections from %d to %d, because of system limitations.'' '''' '''' False True [''-maxconnections %degingarren %dra murrizten, sistema-mugak direla eta.''],
      TS (''Replaying blocks'' @ [CHR 0xE2, CHR 0x80, CHR 0xA6]) '''' '''' False True [''Blokeak errepikatzen...''],
      TS (''Rescanning'' @ [CHR 0xE2, CHR 0x80, CHR 0xA6]) '''' '''' False True [''Bereskaneatzen...''],
      TS ''SQLiteDatabase: Failed to execute statement to verify database: %s'' '''' '''' False True [''SQLiteDatabase: Huts egin du datu-basea egiaztatzeko adierazpena exekutatzean:%s''],
      TS ''SQLiteDatabase: Failed to prepare statement to verify database: %s'' '''' '''' False True [''SQLiteDatabase: Huts egin du datu-basea egiaztatzeko adierazpena prestatzean:%s''],
      TS ''SQLiteDatabase: Failed to read database verification error: %s'' '''' '''' False True [''SQLiteDatabase: Ezin izan da datu-basearen egiaztatze errorea irakurri: %s''],
      TS ''SQLiteDatabase: Unexpected application id. Expected %u, got %u'' '''' '''' False True [''SQLiteDatabase: Aplikazio ID ustekabea. Espero zena:%u , lortutakoa:%u''],
      TS ''Section [%s] is not recognized.'' '''' '''' False True [''Atala [%s] ez da ezagutzen.''],
      TS ''Signer did not echo address'' '''' '''' False True [''Sinatzaileak ez du helbidea berretsi''],
      TS ''Signer echoed unexpected address %s'' '''' '''' False True [''Sinatzaileak ustekabeko helbidea errepikatu du%s''],
      TS ''Signer returned error: %s'' '''' '''' False True [''Sinatzaileak errorea itzuli du:%s''],
      TS ''Signing transaction failed'' '''' '''' False True [''Transakzioa sinatzea huts egin du''],
      TS ''Specified -walletdir "%s" does not exist'' '''' '''' False True [''Zehaztutako -walletdir "%s" direktoriua ez da existitzen.''],
      TS ''Specified -walletdir "%s" is a relative path'' '''' '''' False True [''Zehaztutako -walletdir "%s" bide erlatiboa da''],
      TS ''Specified -walletdir "%s" is not a directory'' '''' '''' False True [''Zehaztutako -walletdir "%s" ez da direktorio bat''],
      TS ''Specified blocks directory "%s" does not exist.'' '''' '''' False True [''Zehaztutako bloke direktorioa "%s" ez da existitzen.''],
      TS ''Specified data directory "%s" does not exist.'' '''' '''' False True [''Zehaztutako datu direktorioa "%s" ez da existitzen.''],
      TS (''Starting network threads'' @ [CHR 0xE2, CHR 0x80, CHR 0xA6]) '''' '''' False True [''Sareko hariak abiarazten...''],
      TS ''System error while flushing: %s'' '''' '''' False True [''Sistemaren errorea garbitzean:%s''],
      TS ''System error while loading external block file: %s'' '''' '''' False True [''Sistemaren errorea kanpoko bloke fitxategia kargatzean:%s''],
      TS ''System error while saving block to disk: %s'' '''' '''' False True [''Sistemaren errorea blokea diskoan gordetzean:%s''],
      TS ''The %s path uses exFAT, which is known to have intermittent corruption problems on macOS. Move this directory to a different filesystem to avoid data loss.'' '''' '''' False True [''%s bideak exFAT sistema fitxategia erabiltzen du, eta horrek ustekabeko hondatze-arazoak izaten ditu maiz macOS sistemetan. Datu-galerarik saihesteko, eraman direktorio hau beste fitxategi-sistema batera.''],
      TS ''The source code is available from %s.'' '''' '''' False True [''Iturri kodea %s-tik dago eskuragarri.''],
      TS ''The specified config file %s does not exist'' '''' '''' False True [''Zehaztutako konfigurazio %sfitxategia ez da existitzen''],
      TS ''The transaction amount is too small to pay the fee'' '''' '''' False True [''Transakzio kantitatea txikiegia da kuota ordaintzeko.''],
      TS ''The transactions removal process can only be executed within a db txn'' '''' '''' False True [''Transakzioak kentzeko prozesua soilik datu-baseko transakzio (db txn) baten barruan exekutatu daiteke.''],
      TS ''The wallet will avoid paying less than the minimum relay fee.'' '''' '''' False True [''Zorroak saihestuko du gutxieneko transmisio-tasatik beherako ordainketa egitea''],
      TS ''There is no ScriptPubKeyManager for this address'' '''' '''' False True [''Helbide honentzako ScriptPubKeyManagerrik ez dago''],
      TS ''This is experimental software.'' '''' '''' False True [''Hau software esperimentala da''],
      TS ''This is the minimum transaction fee you pay on every transaction.'' '''' '''' False True [''Hau da transakzio bakoitzean ordaintzen duzun gutxieneko transakzio-tasa''],
      TS ''Transaction %s does not belong to this wallet'' '''' '''' False True [''%s transakzioa ez dagokio zorro honi''],
      TS ''Transaction amount too small'' '''' '''' False True [''transakzio kopurua txikiegia''],
      TS ''Transaction amounts must not be negative'' '''' '''' False True [''Transakzioko kopuruak ez dira negatiboak izan behar.''],
      TS ''Transaction change output index out of range'' '''' '''' False True [''Transakzioaren aldaketa irteeraren indizea esparrutik kanpo dago''],
      TS ''Transaction must have at least one recipient'' '''' '''' False True [''Transakzioak gutxienez hartzaile bat izan behar du.'']])]\<close>

definition eu_36 :: ts_catalogue where
  \<open>eu_36 = [
    (''tknc-core'', [
      TS ''Transaction needs a change address, but we can't generate it.'' '''' '''' False True [''Transakzioak helbide aldaketa behar du, baina ezin dugu sortu.''],
      TS ''Transaction too large'' '''' '''' False True [''Transakzio luzeegia''],
      TS ''Unable to bind to %s on this computer (bind returned error %s)'' '''' '''' False True [''Ezin da %s helbidera lotu ordenagailu honetan (bind-ek %s errorea itzuli du)''],
      TS ''Unable to bind to %s on this computer. %s is probably already running.'' '''' '''' False True [''Ezin da lotu %sordenagailu honetan. %sziurrenik martxan dago.''],
      TS ''Unable to create the PID file '%s': %s'' '''' '''' False True [''Ezin da PID fitxategia sortu '%s':%s''],
      TS ''Unable to find UTXO for external input'' '''' '''' False True [''Ezin da kanpoko sarrerako UTXOa aurkitu''],
      TS ''Unable to open %s for writing'' '''' '''' False True [''Ezin da ireki %sidazteko''],
      TS (''Unable to parse -maxuploadtarget: '%s'' @ [CHR 0x27]) '''' '''' False True [''Ezin da analizatu -maxuploadtarget: '%s'' @ [CHR 0x27]],
      TS ''Unable to start HTTP server. See debug log for details.'' '''' '''' False True [''HTTP zerbitzaria abiarazi ezin izan da. Xehetasunetarako, begiratu arazketa loga.''],
      TS ''Unknown -blockfilterindex value %s.'' '''' '''' False True [''-blockfilterindex balio %s ezezaguna .''],
      TS (''Unknown address type '%s'' @ [CHR 0x27]) '''' '''' False True [''Helbide mota ezezaguna '%s'' @ [CHR 0x27]],
      TS (''Unknown change type '%s'' @ [CHR 0x27]) '''' '''' False True [''Aldaketa mota ezezaguna '%s'' @ [CHR 0x27]],
      TS (''Unknown network specified in -onlynet: '%s'' @ [CHR 0x27]) '''' '''' False True [''Sare ezezaguna zehaztuta -onlynet-en: '%s'' @ [CHR 0x27]],
      TS ''Unknown new rules activated (versionbit %i)'' '''' '''' False True [''Arau berri ezezagunak aktibatu dira (versionbit%i )''],
      TS ''Unrecognised option "%s" provided in -test=<option>.'' '''' '''' False True [''Aukerak hautazko balioa "%s"  -test=<option> eremuan zehaztu behar da.''],
      TS ''Unsupported global logging level %s=%s. Valid values: %s.'' '''' '''' False True [''Ez da onartzen erabilitako erregistro maila orokorra %s =%s. Balio egokiak: %s.''],
      TS ''Wallet file creation failed: %s'' '''' '''' False True [''Zorro fitxategia sortzeak huts egin du:%s''],
      TS ''Warning: Found invalid chain more than 6 blocks longer than our best chain. This could be due to database corruption or consensus incompatibility with peers.'' '''' '''' False True [''Abisua: gure kate onenak baino 6 bloke baino gehiago luzeagoa den kate baliogabe bat aurkitu da. Horrek datu-basearen hondatzea edo parekoekin bateragarritasunik eza adieraz dezake.''],
      TS ''acceptstalefeeestimates is not supported on %s chain.'' '''' '''' False True [''acceptstalefeeestimates ez da onartzen%s katean.''],
      TS ''Unsupported logging category %s=%s.'' '''' '''' False True [''Onartzen ez den erregistro kategoria%s =%s.''],
      TS ''Error loading %s: Wallet is a legacy wallet. Please migrate to a descriptor wallet using the migration tool (migratewallet RPC).'' '''' '''' False True [''Errorea %s kargatzean: zorroa jatorrizko (legacy) zorro bat da. Mesedez, migratu deskribatzaile-zorro batera migrazio-tresna erabiliz (migratewallet RPC).''],
      TS ''Error: Dumpfile specifies an unsupported database format (%s). Only sqlite database dumps are supported'' '''' '''' False True [''Errorea: Dumpfile-k onartzen ez den datu-base formatua (%s) zehazten du. SQLite datu-base dump-ak baino ez dira onartzen''],
      TS ''Failed to calculate bump fees, because unconfirmed UTXOs depend on an enormous cluster of unconfirmed transactions.'' '''' '''' False True [''Huts egin du komisioaren igoera kalkulatzean, baieztatu gabeko UTXOak baieztatu gabeko transakzioen multzo erraldoi batean oinarritzen direlako.''],
      TS ''Transaction requires one destination of non-zero value, a non-zero feerate, or a pre-selected input'' '''' '''' False True [''Transakzioak gutxienez baldintza hauetako bat bete behar du: helmuga batek balio zero ez izatea, komisio-tasa (feerate) zero ez izatea, edo sarrera bat aurrez hautatuta egotea.''],
      TS (''Unrecognized descriptor found. Loading wallet %s'' @ [CHR 0x0A, CHR 0x0A] @ ''The wallet might have been created on a newer version.'' @ [CHR 0x0A] @ ''Please try running the latest software version.'' @ [CHR 0x0A]) '''' '''' False True [''Deskribatzaile ezezaguna aurkitu da. %s zorroa kargatzen.'' @ [CHR 0x0A, CHR 0x0A] @ ''Baliteke zorroa bertsio berriago batean sortua izatea.'' @ [CHR 0x0A] @ ''Mesedez, saiatu softwarearen azken bertsioa exekutatzen.'' @ [CHR 0x0A]],
      TS ''Do you want to rebuild the databases now?'' '''' '''' False True [''Datu-baseak berreraiki nahi dituzu orain?''],
      TS ''Error: Could not add watchonly tx %s to watchonly wallet'' '''' '''' False True [''Errorea: Ezin izan da ikuspegi-soileko %s transakzioa gehitu ikuspegi-soileko zorroan.''],
      TS ''Error: Could not delete watchonly transactions. '' '''' '''' False True [''Errorea: ezin izan dira begiratze-soileko transakzioak ezabatu.''],
      TS ''Error: Wallet does not exist'' '''' '''' False True [''Errorea: zorroa ez da existitzen.''],
      TS ''Error: cannot remove legacy wallet records'' '''' '''' False True [''Errorea: ezin dira ondarezko zorroaren erregistroak ezabatu.''],
      TS (''Failed to start indexes, shutting down'' @ [CHR 0xE2, CHR 0x80, CHR 0xA6]) '''' '''' False True [''Indizeak abiaraztea huts egin du, itzaltzen'' @ [CHR 0xE2, CHR 0x80, CHR 0xA6]],
      TS (''Invalid -proxy address or hostname, ends with '=': '%s'' @ [CHR 0x27]) '''' '''' False True [''Baliogabeko -proxy helbidea edo ostalari-izena, '=' ikurrarekin amaitzen da: '%s'' @ [CHR 0x27]],
      TS ''Not enough file descriptors available. %d available, %d required.'' '''' '''' False True [''Ez dago nahikoa fitxategi-deskribatzailerik. %deskuragarri, %dbeharrezkoak.''],
      TS (''Unrecognized network in -proxy='%s': '%s'' @ [CHR 0x27]) '''' '''' False True [''Sare ezezaguna -proxy='%s' parametroan: '%s'' @ [CHR 0x27]]])]\<close>

lemma eu_31_ok: "catalogue_ok 2 eu_31"
  unfolding eu_31_def catalogue_ok_def append_Cons append_Nil
  by (simp add: catalogue_eval del: scan_format.simps(2) qt_markers.simps(2) cong: catalogue_congs)

lemma eu_32_ok: "catalogue_ok 2 eu_32"
  unfolding eu_32_def catalogue_ok_def append_Cons append_Nil
  by (simp add: catalogue_eval del: scan_format.simps(2) qt_markers.simps(2) cong: catalogue_congs)

lemma eu_33_ok: "catalogue_ok 2 eu_33"
  unfolding eu_33_def catalogue_ok_def append_Cons append_Nil
  by (simp add: catalogue_eval del: scan_format.simps(2) qt_markers.simps(2) cong: catalogue_congs)

lemma eu_34_ok: "catalogue_ok 2 eu_34"
  unfolding eu_34_def catalogue_ok_def append_Cons append_Nil
  by (simp add: catalogue_eval del: scan_format.simps(2) qt_markers.simps(2) cong: catalogue_congs)

lemma eu_35_ok: "catalogue_ok 2 eu_35"
  unfolding eu_35_def catalogue_ok_def append_Cons append_Nil
  by (simp add: catalogue_eval del: scan_format.simps(2) qt_markers.simps(2) cong: catalogue_congs)

lemma eu_36_ok: "catalogue_ok 2 eu_36"
  unfolding eu_36_def catalogue_ok_def append_Cons append_Nil
  by (simp add: catalogue_eval del: scan_format.simps(2) qt_markers.simps(2) cong: catalogue_congs)

end
