(* ===== verification/Catalogue_eu_7.thy ===== *)
theory Catalogue_eu_7
  imports Catalogue
begin

text \<open>
  The Basque catalogue (\<open>qt/locale/tknc_eu.ts\<close>), lines 5161 to 5185: one definition for each run of
  messages, in file order, and that the translations of each run keep the parameters of their messages.
\<close>

definition eu_37 :: ts_catalogue where
  \<open>eu_37 = [
    (''tknc-core'', [
      TS ''User Agent comment (%s) contains unsafe characters.'' '''' '''' False True [''Erabiltzaile-agentearen iruzkinak (%s) karaktere arriskutsuak ditu.''],
      TS (''Verifying blocks'' @ [CHR 0xE2, CHR 0x80, CHR 0xA6]) '''' '''' False True [''Blokeak egiaztatzen...''],
      TS (''Verifying wallet(s)'' @ [CHR 0xE2, CHR 0x80, CHR 0xA6]) '''' '''' False True [''Zorroak egiaztatzen...''],
      TS ''Wallet needed to be rewritten: restart %s to complete'' '''' '''' False True [''Zorroa berridatzi behar izan da: %sberrabiarazi osatzeko''],
      TS ''Settings file could not be read'' '''' '''' False True [''Ezarpenen fitxategia ezin izan da irakurri''],
      TS ''Settings file could not be written'' '''' '''' False True [''Ezarpenen fitxategia ezin izan da idatzi'']])]\<close>

lemma eu_37_ok: "catalogue_ok 2 eu_37"
  unfolding eu_37_def catalogue_ok_def append_Cons append_Nil
  by (simp add: catalogue_eval del: scan_format.simps(2) qt_markers.simps(2) cong: catalogue_congs)

end
