(* ===== verification/Catalogue_eu.thy ===== *)
theory Catalogue_eu
  imports Catalogue_eu_1 Catalogue_eu_2 Catalogue_eu_3 Catalogue_eu_4 Catalogue_eu_5 Catalogue_eu_6 Catalogue_eu_7
begin

text \<open>
  The whole Basque catalogue and what it guarantees to the program: no translated message asks the
  formatter for another number of parameters than the program passes.
\<close>

definition tknc_eu :: ts_catalogue where
  "tknc_eu = eu_1 @ eu_2 @ eu_3 @ eu_4 @ eu_5 @ eu_6 @ eu_7 @ eu_8 @ eu_9 @ eu_10 @ eu_11 @ eu_12 @ eu_13 @ eu_14 @
     eu_15 @ eu_16 @ eu_17 @ eu_18 @ eu_19 @ eu_20 @ eu_21 @ eu_22 @ eu_23 @ eu_24 @ eu_25 @ eu_26 @ eu_27 @ eu_28 @
     eu_29 @ eu_30 @ eu_31 @ eu_32 @ eu_33 @ eu_34 @ eu_35 @ eu_36 @ eu_37"

lemmas eu_runs_ok = eu_1_ok eu_2_ok eu_3_ok eu_4_ok eu_5_ok eu_6_ok eu_7_ok eu_8_ok eu_9_ok eu_10_ok eu_11_ok
  eu_12_ok eu_13_ok eu_14_ok eu_15_ok eu_16_ok eu_17_ok eu_18_ok eu_19_ok eu_20_ok eu_21_ok eu_22_ok eu_23_ok eu_24_ok
  eu_25_ok eu_26_ok eu_27_ok eu_28_ok eu_29_ok eu_30_ok eu_31_ok eu_32_ok eu_33_ok eu_34_ok eu_35_ok eu_36_ok eu_37_ok

lemma tknc_eu_ok: "catalogue_ok 2 tknc_eu"
  by (simp add: tknc_eu_def catalogue_ok_append eu_runs_ok)

text \<open>
  C35. With the Basque catalogue installed, translating cannot break a format string: whenever the program's
  own string passes the compile-time check for some number of parameters, the string that
  \<open>G_TRANSLATION_FUN\<close> returns, which is formatted unchecked at run time, passes it for the same number.
\<close>

theorem basque_formats_safe:
  assumes "translates_from tknc_eu translate" "CheckNumFormatSpecifiers n s = Inr ()"
  shows "CheckNumFormatSpecifiers n (G_TRANSLATION_FUN translate s) = Inr ()"
  using translation_core_ok [OF tknc_eu_ok assms(1), of s] assms(2)
  by (simp add: CheckNumFormatSpecifiers_def)

theorem basque_formats_safe_witness:
  "CheckNumFormatSpecifiers 1 ''%s failed'' = Inr () \<and>
   CheckNumFormatSpecifiers 1 (G_TRANSLATION_FUN (lookup_translation tknc_eu) ''%s failed'') = Inr ()"
proof -
  have "CheckNumFormatSpecifiers 1 ''%s failed'' = Inr ()" by code_simp
  then show ?thesis using basque_formats_safe [OF lookup_translates, of 1 "''%s failed''"] by simp
qed

text \<open>
  C36. With the Basque catalogue installed, a translated text of the GUI has exactly the markers of the
  original, so that \<open>QString::arg\<close> finds a place for every argument and leaves no marker over; and every
  message has its one translation, or its two numerus forms.
\<close>

theorem basque_markers_kept:
  assumes "translates_from tknc_eu translate" "ctx \<noteq> core_context"
  shows "set (qt_markers (translate ctx s)) = set (qt_markers s) \<and>
    list_all (\<lambda>(_, ms). list_all (\<lambda>m. length (ts_translations m) = (if ts_numerus m then 2 else 1)) ms) tknc_eu"
  using translation_gui_ok [OF tknc_eu_ok assms, of s] tknc_eu_ok
  by (auto simp: catalogue_ok_def context_ok_def forms_ok_def list_all_iff)

theorem basque_markers_kept_witness:
  "set (qt_markers (lookup_translation tknc_eu ''QObject'' ''Enter a TKNC address (e.g. %1)'')) = {1}"
proof -
  have "''QObject'' \<noteq> core_context" by (simp add: core_context_def)
  moreover have "set (qt_markers ''Enter a TKNC address (e.g. %1)'') = {1}" by code_simp
  ultimately show ?thesis
    using basque_markers_kept [OF lookup_translates, of "''QObject''" "''Enter a TKNC address (e.g. %1)''"] by simp
qed

end
