(* ===== verification/Spec2Isabelle.thy ===== *)
theory Spec2Isabelle
  imports Emission Difficulty TxVerify Compressor Merkle Consensus Catalogue_eu
begin

text \<open>
  A verification development of TKNC, a node of a proof-of-work currency derived from Bitcoin Core
  (C++ under \<open>src/src/\<close>). It follows a value through the program: how much is ever created, how blocks are
  chained and weighed, how a block and its transactions are encoded and checked, and what happens to the set of
  unspent outputs. One further part checks a translation catalogue of the graphical interface against the
  format strings of the program.

  \<^bold>\<open>Conventions.\<close> A struct is a \<open>record\<close>, an enum a \<open>datatype\<close>. A pointer into the block index is the hash
  the entry is stored under, \<open>nullptr\<close> is \<open>None\<close>. Unsigned integers of 8, 16, 32 and 64 bits are words where the
  code relies on their width; \<open>CAmount\<close> and other signed 64-bit values are integers, with the range stated or
  proved where it matters. A check that fills an error state and returns false returns the reject reason in a sum
  type (\<open>Inl\<close>); \<open>None\<close> is a failed assertion, a thrown exception or a stream that ends too early. Loops are
  recursive functions named after the function they stand in. No definition has a fuel argument: a recursion that is
  not structural has its measure, and the walks over parent pointers and the loops of a reorganization are partial functions whose
  \<open>None\<close> includes not returning, with theorems that they do return. Hash functions, the validity of
  public keys and the execution of scripts are parameters, so the theorems hold for every instance of them;
  what a theorem needs of a parameter (for example, that no two pairs hashed in it collide) is a named hypothesis
  with a witness.

  \<^bold>\<open>Theories and the code they model.\<close>

  \<^item> \<open>Prelude\<close>, \<open>Bytes\<close>, \<open>Uint256\<close>: ranges, truncating division, little-endian bytes (\<open>crypto/common.h\<close>), 256-bit
    hashes (\<open>uint256.h\<close>).
  \<^item> \<open>Amount\<close>, \<open>Emission\<close>: \<open>consensus/amount.h\<close> and \<open>economics/emission.h\<close>. The subsidy looked up through the
    checkpoint table equals the plain iteration (C1), the subsidies sum to at most the cap (C7), they fall and end
    with the emission period (C19); every reward divides what is left after its block, not before (C22), and the total that
    the code reports is more than what is paid out (C21).
  \<^item> \<open>BigUint\<close>, \<open>Compact\<close>, \<open>Arith256\<close>: \<open>arith_uint256.h\<close> and \<open>arith_uint256.cpp\<close> on lists of 32-bit digits:
    operators are arithmetic modulo the width (C11), long division is division (C10), the compact form is read back
    (C9).
  \<^item> \<open>BlockIndex\<close>, \<open>Chain\<close>: \<open>chain.h\<close>, \<open>chain.cpp\<close> and \<open>AddToBlockIndex\<close> of \<open>node/blockstorage.cpp\<close>. The skip
    list finds the ancestor that the parent pointers find (C4), insertion keeps the invariant of the tree (C5), work
    is computed as defined (C18); the active chain, its fork points, locators, median times and the last common
    ancestor are correct (C3, C12 to C16). \<open>FindEarliestAtLeast\<close> goes by the running maximum of the times, so that the block it
    finds can be older than the time asked for.
  \<^item> \<open>Difficulty\<close>: \<open>pow.cpp\<close>, \<open>pow/difficulty.cpp\<close> and \<open>ContextualCheckBlockHeader\<close> of \<open>validation.cpp\<close>: from
    targets below \<open>2^256 / 1229\<close> the next target stays in its bounds (C2) and the required bits are valid (C8); the hash check (C17); for
    targets near the limit the retarget overflows (C20).
  \<^item> \<open>Serialize\<close>, \<open>Transaction\<close>, \<open>TxCheck\<close>: \<open>serialize.h\<close>, \<open>primitives/transaction.h\<close> and
    \<open>consensus/tx_check.cpp\<close>: canonical sizes (C23, C24), the round trip of transactions (C26) and what the
    context-free checks accept (C25).
  \<^item> \<open>Script\<close>: \<open>script/script.h\<close> and \<open>script/script.cpp\<close>: operations, pushes, script numbers (C27), templates and
    signature-operation counts.
  \<^item> \<open>Merkle\<close>: \<open>consensus/merkle.cpp\<close>: the root binds the transactions of a block (C28).
  \<^item> \<open>Coins\<close>, \<open>CoinsDB\<close>, \<open>Compressor\<close>: \<open>coins.cpp\<close>, \<open>txdb.cpp\<close>, \<open>compressor.cpp\<close>. The locale \<open>coins_reader\<close> is the
    contract of looking coins up: what a lookup returns, and that lookups change nothing that can be seen; \<open>coins_view\<close> extends it
    by what a batch of changes does. The database satisfies it (\<open>coins_db\<close>), and a cache over a view that satisfies it satisfies it
    again. The cache refines a map (C29), flushing writes exactly that map (C30), an interrupted flush can be
    repeated (C31), and coins come back from their records (C32).
  \<^item> \<open>TxVerify\<close>: \<open>consensus/tx_verify.cpp\<close>: input checks create no value (C33), relative lock times (C34),
    signature-operation costs.
  \<^item> \<open>Block\<close>, \<open>Connect\<close>, \<open>Disconnect\<close>: \<open>primitives/block.h\<close>, and \<open>CheckBlock\<close>, \<open>ConnectBlock\<close> and \<open>DisconnectBlock\<close> of
    \<open>validation.cpp\<close> with what they call, the split of the reward with the team wallet, and the coinbase of \<open>node/miner.cpp\<close>, which
    passes it (C40). \<open>Ledger\<close> says what a transaction and a block do to a map of unspent outputs and that the cache does the same;
    \<open>Supply\<close> shows that an accepted block adds at most its subsidy to their value, and \<open>Disconnect\<close> that undoing a block
    restores the map. These lemmas stand in the locale \<open>coins_reader\<close>.
  \<^item> \<open>Chainstate\<close>: \<open>ConnectTip\<close>, \<open>DisconnectTip\<close>, \<open>FlushStateToDisk\<close> and \<open>ActivateBestChainStep\<close> of \<open>validation.cpp\<close> on the active
    chain, the coins of the tip and the undo data. \<open>Activate\<close> has the abstract ledger of a chain (the inductive predicate \<open>ledger\<close>)
    and the invariant that the coins of the tip are its ledger; that a rejected block leaves the tip as it was comes from interpreting
    \<open>coins_reader\<close> on a base that may not change (\<open>frozen_tip\<close>). \<open>Tip\<close> and \<open>Reorg\<close> show that the operations keep the
    invariant and end. \<open>Consensus\<close> has the chainstates a node can reach (\<open>reachable\<close>): their coins are worth at most the
    subsidies (C37) and depend on the tip alone (C38), and a step makes progress (C39).
  \<^item> \<open>Format\<close>, \<open>Catalogue\<close>, \<open>Catalogue_eu_1\<close> to \<open>Catalogue_eu_7\<close>, \<open>Catalogue_eu\<close>: \<open>util/string.h\<close>,
    \<open>util/translation.h\<close> and the catalogue \<open>qt/locale/tknc_eu.ts\<close>, message by message: its translations take the same
    arguments as the sources (C35, C36).

  \<^bold>\<open>Across components.\<close> This theory holds the properties that need several of them: a header that passes the
  contextual checks and is linked into the tree keeps the median time from falling (C6).

  \<^bold>\<open>Not modelled.\<close> The execution of scripts and signatures, the hash functions and the proof-of-work hash are parameters. Of the
  chainstate, the marking of failed blocks, the choice among candidate tips, the memory pool, notifications, assumed-valid and deployment
  decisions, pruning and snapshots are left out, and the index is fixed while blocks are connected; a failure to write the block index or the
  undo file is not modelled, a full disk and an unreadable or corrupt block are. Of \<open>SanityCheck\<close> the memory accounting and the linked list of
  flagged entries are left out: the list is a list of keys in the model. The database is a key-value store of coins, whose records
  \<open>Compressor\<close> treats. The witness commitment of a block is not checked in \<open>CheckBlock\<close> and is not modelled. Networking, the wallet, the
  RPC and graphical interfaces, mining on graphics cards, model inference, escrow and the distributed hash table are sockets, threads,
  devices and storage around these parts, or separate services; the manifest lists them with the reason for each.
\<close>

section \<open>Accepting a header\<close>

lemma recent_times_extend:
  assumes "block_map_wf m" "m h = None" "\<forall>q. p = Some q \<longrightarrow> m q \<noteq> None"
  shows "recent_times (m(h \<mapsto> b)) n p = recent_times m n p"
  using assms(3)
proof (induction n arbitrary: p)
  case (Suc n)
  show ?case
  proof (cases p)
    case (Some q)
    then obtain c where c: "m q = Some c" using Suc.prems by auto
    then have "\<forall>r. pprev c = Some r \<longrightarrow> m r \<noteq> None" using wf_closed(1) [OF assms(1) c] by blast
    moreover have "q \<noteq> h" using c assms(2) by auto
    ultimately show ?thesis using Some c Suc.IH by simp
  qed simp
qed simp

lemma GetMedianTimePast_extend:
  assumes "index_inv m" "index_inv (m(h \<mapsto> b))" "m h = None" "m p = Some c"
  shows "GetMedianTimePast (m(h \<mapsto> b)) p = GetMedianTimePast m p"
proof -
  have "(m(h \<mapsto> b)) p = Some c" using assms(3,4) by auto
  from GetMedianTimePast_eq [where m = "m(h \<mapsto> b)" and p = p and b = c, OF index_inv_wf [OF assms(2)] this]
  show ?thesis
    using GetMedianTimePast_eq [OF index_inv_wf [OF assms(1)] assms(4)] assms(4)
      recent_times_extend [OF index_inv_wf [OF assms(1)] assms(3), of "Some p" b 11] by simp
qed

text \<open>
  C6. A header that passes \<open>ContextualCheckBlockHeader\<close> and is then linked by \<open>AddToBlockIndex\<close> carries
  the required bits, and the median time past of the new entry is at least its parent's.
\<close>

theorem accepted_header_median:
  assumes "index_inv (m_block_index bm)" "m_block_index bm (hdr_hashPrevBlock block) = Some prev"
    "m_block_index bm (GetHash block) = None" "\<forall>q. best_header = Some q \<longrightarrow> m_block_index bm q \<noteq> None"
    "ContextualCheckBlockHeader (m_block_index bm) params now block (hdr_hashPrevBlock block) = Some None"
  shows "\<exists>bm' best t t'. AddToBlockIndex GetHash bm block best_header = Some (bm', best, GetHash block) \<and>
    index_inv (m_block_index bm') \<and>
    GetNextWorkRequired (m_block_index bm) params (hdr_hashPrevBlock block) block = Some (hdr_nBits block) \<and>
    GetMedianTimePast (m_block_index bm) (hdr_hashPrevBlock block) = Some t \<and>
    GetMedianTimePast (m_block_index bm') (GetHash block) = Some t' \<and> t \<le> t'"
proof -
  define h where "h = GetHash block"
  have ne: "hdr_hashPrevBlock block \<noteq> h" using assms(2,3) by (auto simp: h_def)
  obtain w where w: "GetBitsProof (hdr_nBits block) = Some w" "length w = 8" using GetBitsProof_total by blast
  define m where "m = m_block_index bm"
  define b where "b = new_entry h m block (work_or_one w)"
  have inv: "index_inv m" "m h = None" "m (hdr_hashPrevBlock block) = Some prev"
    using assms(1-3) by (simp_all add: m_def h_def)
  have inv': "index_inv (m(h \<mapsto> b))"
    using index_inv_extend [OF inv(1,2)] new_entry_inv [OF inv(1,2) ne length_work_or_one [OF w(2)] b_def] .
  have b: "pprev b = Some (hdr_hashPrevBlock block)" "GetBlockTime b = uint (hdr_nTime block)"
    using inv(3) by (simp_all add: b_def new_entry_def Let_def CBlockIndex_of_header_def GetBlockTime_def)
  obtain bits t where acc: "GetNextWorkRequired m params (hdr_hashPrevBlock block) block = Some bits"
    "GetMedianTimePast m (hdr_hashPrevBlock block) = Some t" "hdr_nBits block = bits" "t < uint (hdr_nTime block)"
    using assms(5) inv(3)
    by (auto simp: ContextualCheckBlockHeader_def m_def Let_def bind_eq_Some_conv not_le split: if_splits)
  have prev: "(m(h \<mapsto> b)) (hdr_hashPrevBlock block) = Some prev" "(m(h \<mapsto> b)) h = Some b" using ne inv(3) by simp_all
  have "GetMedianTimePast (m(h \<mapsto> b)) (hdr_hashPrevBlock block) = Some t"
    using GetMedianTimePast_extend [OF inv(1) inv' inv(2,3)] acc(2) by simp
  from median_time_step [OF index_inv_wf [OF inv'] prev b(1) this] obtain t' where
    "GetMedianTimePast (m(h \<mapsto> b)) h = Some t'" "t \<le> t'" using acc(4) b(2) by auto
  then show ?thesis
    using AddToBlockIndex_new [where GetHash = GetHash and block = block, OF inv(1) m_def h_def inv(2) ne _ w(1) b_def]
      assms(4) acc inv' by (auto simp: m_def h_def)
qed

definition next_header :: "32 word \<Rightarrow> CBlockHeader" where
  "next_header bits = (example_header 3 5 460)\<lparr>hdr_nVersion := 4, hdr_nBits := bits\<rparr>"

lemma next_header_fields:
  "hdr_hashPrevBlock (next_header bits) = [3]" "hdr_nTime (next_header bits) = 460"
  "hdr_nVersion (next_header bits) = 4" "hdr_nBits (next_header bits) = bits"
  by (simp_all add: next_header_def example_header_def)

lemma next_header_required:
  "\<exists>bits. GetNextWorkRequired example_map (main_params [1]) [3] (next_header bits) = Some bits"
proof -
  obtain b where b: "example_map [3] = Some b" "nHeight b = 2" using example_map_entries by auto
  have "0 < nHeight b" "nPowTargetSpacing (main_params [1]) \<noteq> 0" "\<not> fPowNoRetargeting (main_params [1])"
    "\<not> fPowAllowMinDifficultyBlocks (main_params [1])" using b by (simp_all add: main_params_def)
  moreover have "2 ^ 255 - 1 = val (UintToArith256 (powLimit (main_params [1])))"
    by (simp add: main_params_def val_main_powLimit del: power_numeral)
  ultimately obtain bits where "GetNextWorkRequired example_map (main_params [1]) [3] (next_header 0) = Some bits"
    using next_work_required_step [OF index_inv_wf [OF example_map_inv] b(1) _ _
        example_map_target [OF b(1), symmetric] _ example_target_bounds, of "main_params [1]" "next_header 0"] by blast
  then have "GetNextWorkRequired example_map (main_params [1]) [3] (next_header bits) = Some bits"
    by (simp add: GetNextWorkRequired_def main_params_def next_header_fields)
  then show ?thesis by blast
qed

lemma example_median: "GetMedianTimePast example_map [3] = Some 220"
proof -
  obtain b where b: "example_map [3] = Some b" "pprev b = Some [2]" "GetBlockTime b = 340"
    using example_map_entries example_map_times by auto
  obtain c where c: "example_map [2] = Some c" "pprev c = Some [1]" "GetBlockTime c = 220"
    using example_map_entries example_map_times by auto
  obtain a where a: "example_map [1] = Some a" "pprev a = None" "GetBlockTime a = 100"
    using example_map_entries example_map_times by auto
  have "median_times example_map (Suc (Suc (Suc (Suc n)))) (Some [3]) [] = Some [100, 220, 340]" for n
    using a b c by simp
  from this [of 7] show ?thesis by (simp add: GetMedianTimePast_def nMedianTimeSpan_def)
qed

theorem accepted_header_median_witness:
  "\<exists>bits bm' best t'. AddToBlockIndex (\<lambda>_. [5]) \<lparr>m_block_index = example_map, m_dirty_blockindex = {}\<rparr>
     (next_header bits) (Some [3]) = Some (bm', best, [5]) \<and>
     GetMedianTimePast (m_block_index bm') [5] = Some t' \<and> 220 \<le> t'"
proof -
  obtain bits where bits: "GetNextWorkRequired example_map (main_params [1]) [3] (next_header bits) = Some bits"
    using next_header_required by blast
  obtain b where b: "example_map [3] = Some b" "nHeight b = 2" "GetBlockTime b = 340"
    using example_map_entries example_map_times by auto
  have ok: "ContextualCheckBlockHeader example_map (main_params [1]) 500 (next_header bits) [3] = Some None"
    using bits b example_median
    by (simp add: ContextualCheckBlockHeader_def next_header_fields main_params_def MAX_TIMEWARP_def
        MAX_FUTURE_BLOCK_TIME_def Let_def)
  have "example_map [5] = None" by (simp add: example_map_def Let_def)
  then show ?thesis
    using accepted_header_median [of "\<lparr>m_block_index = example_map, m_dirty_blockindex = {}\<rparr>" "next_header bits" b
        "\<lambda>_. [5]" "Some [3]" "main_params [1]" 500] ok b(1) example_map_inv example_median
    by (auto simp: next_header_fields)
qed

end
